(* ===== verification/Prelude.thy ===== *)
theory Prelude
  imports Main "HOL-Library.Word"
begin

text \<open>
  Shared vocabulary of the development.

  \<^item> The result of an operation that may fail and that changes the world is a pair: a sum
    (\<open>Inl\<close> the error, \<open>Inr\<close> the value) and the world after it. \<open>bind_res\<close> is Go's
    \<open>if err != nil { return err }\<close>; the collection \<open>res_iff\<close> turns an equation about a chain
    of such steps into one equation per step.
  \<^item> A table is a list of rows: \<open>update_rows\<close>, \<open>rows_matching\<close> and \<open>order_limit\<close> are the
    \<open>UPDATE ... WHERE\<close>, \<open>SELECT ... WHERE\<close> and \<open>ORDER BY ... LIMIT\<close> the SQL text of the
    repositories uses.
  \<^item> The locale \<open>frame\<close> carries a relation between the world before and after through a
    chain of steps: a preorder that every step respects is respected by the chain. It is
    interpreted once per relation the components need.
\<close>

named_theorems res_iff "equations about the outcome of a chain of steps"
named_theorems frame_intros "steps that respect a frame relation"

type_synonym uuid = "128 word"
type_synonym time = int   \<comment> \<open>time.Time, in microseconds since the Unix epoch\<close>
type_synonym duration = int   \<comment> \<open>time.Duration, in microseconds\<close>

type_synonym ('e, 'a, 's) outcome = "('e + 'a) \<times> 's"

section \<open>Chains of fallible steps\<close>

definition bind_res :: "('e, 'a, 's) outcome \<Rightarrow> ('a \<Rightarrow> 's \<Rightarrow> ('e, 'b, 's) outcome) \<Rightarrow> ('e, 'b, 's) outcome" where
  "bind_res p k = (case p of (Inl e, s) \<Rightarrow> (Inl e, s) | (Inr a, s) \<Rightarrow> k a s)"

lemma bind_res_simps [simp]:
  "bind_res (Inl e, s) k = (Inl e, s)"
  "bind_res (Inr a, s) k = k a s"
  by (simp_all add: bind_res_def)

lemma bind_res_Inr_iff [res_iff]:
  "bind_res p k = (Inr b, s') \<longleftrightarrow> (\<exists>a s. p = (Inr a, s) \<and> k a s = (Inr b, s'))"
  by (auto simp: bind_res_def split: prod.splits sum.splits)

lemma bind_res_Inl_iff [res_iff]:
  "bind_res p k = (Inl e, s') \<longleftrightarrow>
     p = (Inl e, s') \<or> (\<exists>a s. p = (Inr a, s) \<and> k a s = (Inl e, s'))"
  by (auto simp: bind_res_def split: prod.splits sum.splits)

lemma bind_res_cases:
  obtains (error) e s where "p = (Inl e, s)" "bind_res p k = (Inl e, s)"
  | (ok) a s where "p = (Inr a, s)" "bind_res p k = k a s"
  by (cases p; cases "fst p") auto

lemma bind_res_cong [fundef_cong]:
  "p = q \<Longrightarrow> (\<And>a s. q = (Inr a, s) \<Longrightarrow> k a s = l a s) \<Longrightarrow> bind_res p k = bind_res q l"
  by (auto simp: bind_res_def split: prod.splits sum.splits)

text \<open>A check with no value: \<open>if err := f(); err != nil { return err }\<close>.\<close>

definition check_res :: "'e option \<Rightarrow> 's \<Rightarrow> ('e, unit, 's) outcome" where
  "check_res x s = (case x of Some e \<Rightarrow> (Inl e, s) | None \<Rightarrow> (Inr (), s))"

lemma check_res_simps [simp]: "check_res None s = (Inr (), s)" "check_res (Some e) s = (Inl e, s)"
  by (simp_all add: check_res_def)

lemma check_res_iff [res_iff]:
  "check_res x s = (Inr u, s') \<longleftrightarrow> x = None \<and> s' = s"
  "check_res x s = (Inl e, s') \<longleftrightarrow> x = Some e \<and> s' = s"
  by (auto simp: check_res_def split: option.splits)

text \<open>A \<open>for _, x := range xs\<close> whose body may return an error.\<close>

fun for_each :: "('x \<Rightarrow> 's \<Rightarrow> ('e, unit, 's) outcome) \<Rightarrow> 'x list \<Rightarrow> 's \<Rightarrow> ('e, unit, 's) outcome" where
  "for_each f [] s = (Inr (), s)"
| "for_each f (x # xs) s = bind_res (f x s) (\<lambda>_ s. for_each f xs s)"

section \<open>Frame relations\<close>

locale frame =
  fixes R :: "'s \<Rightarrow> 's \<Rightarrow> bool"
  assumes frame_refl: "R s s"
    and frame_trans: "R s t \<Longrightarrow> R t u \<Longrightarrow> R s u"
begin

lemma frame_bind:
  assumes p: "R s (snd p)"
    and k: "\<And>a t. p = (Inr a, t) \<Longrightarrow> R t (snd (k a t))"
  shows "R s (snd (bind_res p k))"
proof (cases rule: bind_res_cases [of p k])
  case (error e t)
  with p show ?thesis by simp
next
  case (ok a t)
  from p ok have "R s t" by simp
  moreover from k [OF ok(1)] have "R t (snd (k a t))" .
  ultimately show ?thesis using ok(2) by (metis frame_trans)
qed

lemma frame_for_each:
  assumes "\<And>x t. R t (snd (f x t))"
  shows "R s (snd (for_each f xs s))"
  by (induction xs arbitrary: s) (auto intro: frame_refl frame_bind assms)

lemma frame_fold:
  assumes "\<And>x t. R t (f x t)"
  shows "R s (fold f xs s)"
proof (induction xs arbitrary: s)
  case Nil
  show ?case by (simp add: frame_refl)
next
  case (Cons x xs)
  have "R s (f x s)" by (rule assms)
  moreover have "R (f x s) (fold f xs (f x s))" by (rule Cons.IH)
  ultimately show ?case by (simp add: frame_trans [of s "f x s"])
qed

end

section \<open>Tables as lists of rows\<close>

definition update_rows :: "('r \<Rightarrow> bool) \<Rightarrow> ('r \<Rightarrow> 'r) \<Rightarrow> 'r list \<Rightarrow> 'r list" where
  "update_rows P f rs = map (\<lambda>r. if P r then f r else r) rs"

definition rows_matching :: "('r \<Rightarrow> bool) \<Rightarrow> 'r list \<Rightarrow> 'r list" where
  "rows_matching P rs = filter P rs"

definition order_limit :: "('r \<Rightarrow> 'k::linorder) \<Rightarrow> int \<Rightarrow> 'r list \<Rightarrow> 'r list" where
  "order_limit key n rs = take (nat n) (sort_key key rs)"

lemma set_update_rows:
  "set (update_rows P f rs) = f ` {r \<in> set rs. P r} \<union> {r \<in> set rs. \<not> P r}"
  by (auto simp: update_rows_def)

lemma update_rows_all:
  "(\<And>r. P r \<Longrightarrow> Q (f r)) \<Longrightarrow> (\<And>r. r \<in> set rs \<Longrightarrow> \<not> P r \<Longrightarrow> Q r) \<Longrightarrow> r \<in> set (update_rows P f rs) \<Longrightarrow> Q r"
  by (auto simp: update_rows_def split: if_splits)

lemma update_rows_id: "(\<And>r. r \<in> set rs \<Longrightarrow> \<not> P r) \<Longrightarrow> update_rows P f rs = rs"
  by (simp add: update_rows_def map_idI)

lemma length_update_rows [simp]: "length (update_rows P f rs) = length rs"
  by (simp add: update_rows_def)

lemma map_update_rows: "(\<And>r. P r \<Longrightarrow> g (f r) = g r) \<Longrightarrow> map g (update_rows P f rs) = map g rs"
  by (simp add: update_rows_def)

lemma set_order_limit: "set (order_limit key n rs) \<subseteq> set rs"
  by (auto simp: order_limit_def dest: in_set_takeD)

lemma length_order_limit: "0 \<le> n \<Longrightarrow> int (length (order_limit key n rs)) \<le> n"
  by (simp add: order_limit_def)

lemma sorted_order_limit: "sorted (map key (order_limit key n rs))"
  by (simp add: order_limit_def take_map [symmetric] sorted_wrt_take)

lemma order_limit_least:
  assumes "x \<in> set (order_limit key n rs)" "r \<in> set rs" "r \<notin> set (order_limit key n rs)"
  shows "key x \<le> key r"
proof -
  let ?s = "sort_key key rs"
  from assms have x: "x \<in> set (take (nat n) ?s)" and "r \<in> set ?s" "r \<notin> set (take (nat n) ?s)"
    by (simp_all add: order_limit_def)
  then have "r \<in> set (drop (nat n) ?s)"
    by (metis Un_iff append_take_drop_id set_append)
  moreover have "sorted (map key (take (nat n) ?s @ drop (nat n) ?s))" by simp
  then have "\<forall>a \<in> set (take (nat n) ?s). \<forall>b \<in> set (drop (nat n) ?s). key a \<le> key b"
    by (simp only: map_append sorted_append) simp
  ultimately show ?thesis using x by blast
qed

lemma distinct_same_key: "distinct (map g (r # rs)) \<Longrightarrow> \<forall>x \<in> set (r # rs). g x = i \<Longrightarrow> rs = []"
  by (cases rs) auto

lemma distinct_map_filter_take: "distinct (map g rs) \<Longrightarrow> distinct (map g (order_limit key n (rows_matching P rs)))"
  by (simp add: order_limit_def rows_matching_def take_map [symmetric] distinct_map inj_on_def
      distinct_take)

end
