(* ===== verification/Domain.thy ===== *)
theory Domain
  imports Prelude
begin

text \<open>
  The entity types, value objects, events and error catalogue of
  \<^verbatim>\<open>src/internal/core/domain\<close>, and the request identity of
  \<^verbatim>\<open>src/pkg/requestctx\<close>.

  Go's string-typed enums become datatypes. \<open>DelegationScope\<close> keeps a constructor for a
  string that is none of the three constants, because a request carries an unvalidated one;
  \<open>DelegationStatus\<close> keeps Go's zero value, which the repository's \<open>Insert\<close> tests. The
  string forms of ids in an event (\<open>Subject\<close>, \<open>Actor\<close>) are kept as the ids themselves.
\<close>

section \<open>Enumerations\<close>

datatype DelegationScope = ScopeAll | ScopeDepartment | ScopeTender | ScopeOther string

definition toScope :: "string \<Rightarrow> DelegationScope" where
  "toScope s = (if s = ''all'' then ScopeAll
     else if s = ''department'' then ScopeDepartment
     else if s = ''tender'' then ScopeTender else ScopeOther s)"

fun scopeString :: "DelegationScope \<Rightarrow> string" where
  "scopeString ScopeAll = ''all''"
| "scopeString ScopeDepartment = ''department''"
| "scopeString ScopeTender = ''tender''"
| "scopeString (ScopeOther s) = s"

lemma scopeString_toScope [simp]: "scopeString (toScope s) = s"
  by (simp add: toScope_def)

lemma toScope_inj: "toScope s = toScope t \<Longrightarrow> s = t"
  by (metis scopeString_toScope)

datatype DelegationStatus =
  StatusZero | DelegationScheduled | DelegationActive | DelegationEnded | DelegationCancelled

text \<open>The non-terminal statuses: \<open>status IN ('active', 'scheduled')\<close>.\<close>

definition openStatus :: "DelegationStatus \<Rightarrow> bool" where
  "openStatus s \<longleftrightarrow> s = DelegationActive \<or> s = DelegationScheduled"

lemma openStatus_simps [simp]:
  "openStatus DelegationActive" "openStatus DelegationScheduled"
  "\<not> openStatus DelegationEnded" "\<not> openStatus DelegationCancelled" "\<not> openStatus StatusZero"
  by (simp_all add: openStatus_def)

datatype EndReason =
  EndReasonExpired | EndReasonCancelled | EndReasonReassigned | EndReasonDelegateRemoved
| EndReasonReviewExpired | EndReasonDelegateDisabled

section \<open>Entities\<close>

record Delegation =
  d_ID :: uuid
  d_TenantID :: uuid
  d_DelegatorID :: uuid
  d_DelegateID :: uuid
  d_DelegatorMembershipID :: uuid
  d_DelegateMembershipID :: uuid
  d_Scope :: DelegationScope
  d_ScopeID :: "uuid option"
  d_Reason :: string
  d_StartsAt :: time
  d_EndsAt :: "time option"
  d_Status :: DelegationStatus
  d_RecordVersion :: int
  d_CreatedAt :: time
  d_UpdatedAt :: time
  d_DeletedAt :: "time option"
  d_ReviewDueAt :: "time option"
  d_ReviewLastWarnedBucket :: "int option"
  d_ReviewWindowDays :: "int option"

record DelegationTenantSettings =
  s_TenantID :: uuid
  s_MaxDurationDays :: int
  s_ReviewWindowDays :: int
  s_RecordVersion :: int
  s_CreatedAt :: time
  s_UpdatedAt :: time

definition DefaultMaxDurationDays :: int where "DefaultMaxDurationDays = 90"
definition DefaultReviewWindowDays :: int where "DefaultReviewWindowDays = 90"
definition PolicyDaysMin :: int where "PolicyDaysMin = 1"
definition PolicyDaysMax :: int where "PolicyDaysMax = 180"

text \<open>Go's zero \<open>time.Time\<close>: January 1 of year 1, UTC.\<close>

definition zeroTime :: time where "zeroTime = - 62135596800000000"

definition DefaultDelegationTenantSettings :: "uuid \<Rightarrow> DelegationTenantSettings" where
  "DefaultDelegationTenantSettings tenantID =
     \<lparr>s_TenantID = tenantID, s_MaxDurationDays = DefaultMaxDurationDays,
      s_ReviewWindowDays = DefaultReviewWindowDays, s_RecordVersion = 0,
      s_CreatedAt = zeroTime, s_UpdatedAt = zeroTime\<rparr>"

section \<open>Events\<close>

definition SystemActorID :: uuid where "SystemActorID = 2"

record DelegationStartedPayload =
  st_DelegationID :: uuid
  st_TenantID :: uuid
  st_DelegatorID :: uuid
  st_DelegateID :: uuid
  st_Scope :: DelegationScope
  st_ScopeID :: "uuid option"
  st_StartsAt :: time
  st_EndsAt :: "time option"
  st_ActorID :: uuid

record DelegationEndedPayload =
  en_DelegationID :: uuid
  en_TenantID :: uuid
  en_DelegatorID :: uuid
  en_DelegateID :: uuid
  en_Scope :: DelegationScope
  en_ScopeID :: "uuid option"
  en_EndedReason :: EndReason
  en_ActorID :: uuid

record DelegationReviewRequestedPayload =
  rv_DelegationID :: uuid
  rv_TenantID :: uuid
  rv_DelegatorID :: uuid
  rv_DelegateID :: uuid
  rv_Scope :: DelegationScope
  rv_ScopeID :: "uuid option"
  rv_DaysRemaining :: int
  rv_ActorID :: uuid

record DelegationEscalationRequestedPayload =
  es_DelegationID :: uuid
  es_TenantID :: uuid
  es_DelegatorID :: uuid
  es_DelegateID :: uuid
  es_Scope :: DelegationScope
  es_ScopeID :: "uuid option"
  es_Reason :: EndReason
  es_ActorID :: uuid

datatype EventData =
  DelegationStarted DelegationStartedPayload
| DelegationEndedEv DelegationEndedPayload
| DelegationReviewRequested DelegationReviewRequestedPayload
| DelegationEscalationRequested DelegationEscalationRequestedPayload

text \<open>The \<open>Type\<close> field of the event, which the code sets beside its payload.\<close>

fun eventType :: "EventData \<Rightarrow> string" where
  "eventType (DelegationStarted _) = ''DelegationStarted''"
| "eventType (DelegationEndedEv _) = ''DelegationEnded''"
| "eventType (DelegationReviewRequested _) = ''DelegationReviewRequested''"
| "eventType (DelegationEscalationRequested _) = ''DelegationEscalationRequested''"

text \<open>The initiator: a user, or the \<open>iam-system\<close> principal of the cron jobs and the cascade.\<close>

datatype Actor = ActorUser uuid | ActorSystem

record DomainEvent =
  ev_TenantID :: uuid
  ev_Subject :: uuid
  ev_Actor :: Actor
  ev_OccurredAt :: time
  ev_Data :: EventData
  ev_IPAddress :: string
  ev_UserAgent :: string

record MembershipRevokedPayload =
  mr_TenantID :: uuid
  mr_UserID :: uuid
  mr_ActorID :: uuid

record TenantMembershipsPurgedPayload =
  tp_TenantID :: uuid
  tp_ActorID :: uuid

record UserUpdatedPayload =
  uu_UserID :: uuid
  uu_ChangedFields :: "string list"
  uu_Status :: "string option"

section \<open>Errors\<close>

datatype Sentinel =
  ErrValidation | ErrMissingIdentity | ErrInsufficientRole | ErrOptimisticLockConflict
| ErrInvalidDelegationScope | ErrInvalidDelegationMaxDurationDays | ErrInvalidDelegationReviewWindow
| ErrDelegationNotFound | ErrIdempotencyKeyInFlight
| ErrScopeIDRequired | ErrInvalidScopeID | ErrSelfDelegation | ErrInvalidDelegate
| ErrDelegateUnavailable | ErrReasonTooLong | ErrDelegationWindowInverted
| ErrDelegationWindowTooLong | ErrDelegationStartInPast | ErrDelegationStartTooFarFuture
| ErrNotReviewTracked | ErrExtendDaysOutOfRange
| ErrOrgMembershipUnavailable | ErrUserProfileUnavailable | ErrCatalogAdminUnavailable | ErrDBUnavailable

fun sentinelCode :: "Sentinel \<Rightarrow> string" where
  "sentinelCode ErrValidation = ''validation_error''"
| "sentinelCode ErrMissingIdentity = ''missing_identity_headers''"
| "sentinelCode ErrInsufficientRole = ''insufficient_role''"
| "sentinelCode ErrOptimisticLockConflict = ''optimistic_lock_conflict''"
| "sentinelCode ErrInvalidDelegationScope = ''invalid_delegation_scope''"
| "sentinelCode ErrInvalidDelegationMaxDurationDays = ''invalid_delegation_max_duration_days''"
| "sentinelCode ErrInvalidDelegationReviewWindow = ''invalid_delegation_review_window_days''"
| "sentinelCode ErrDelegationNotFound = ''delegation_not_found''"
| "sentinelCode ErrIdempotencyKeyInFlight = ''idempotency_key_in_flight''"
| "sentinelCode ErrScopeIDRequired = ''scope_id_required''"
| "sentinelCode ErrInvalidScopeID = ''invalid_scope_id''"
| "sentinelCode ErrSelfDelegation = ''self_delegation''"
| "sentinelCode ErrInvalidDelegate = ''invalid_delegate''"
| "sentinelCode ErrDelegateUnavailable = ''delegate_unavailable''"
| "sentinelCode ErrReasonTooLong = ''reason_too_long''"
| "sentinelCode ErrDelegationWindowInverted = ''delegation_window_inverted''"
| "sentinelCode ErrDelegationWindowTooLong = ''delegation_window_too_long''"
| "sentinelCode ErrDelegationStartInPast = ''delegation_start_in_past''"
| "sentinelCode ErrDelegationStartTooFarFuture = ''delegation_start_too_far_future''"
| "sentinelCode ErrNotReviewTracked = ''not_review_tracked''"
| "sentinelCode ErrExtendDaysOutOfRange = ''extend_days_out_of_range''"
| "sentinelCode ErrOrgMembershipUnavailable = ''org_membership_unavailable''"
| "sentinelCode ErrUserProfileUnavailable = ''user_profile_unavailable''"
| "sentinelCode ErrCatalogAdminUnavailable = ''catalog_admin_unavailable''"
| "sentinelCode ErrDBUnavailable = ''db_unavailable''"

record DomainError =
  e_Code :: string
  e_Message :: string
  e_Cause :: Sentinel
  e_Details :: "(string \<times> int) list"

definition NewError :: "Sentinel \<Rightarrow> string \<Rightarrow> DomainError" where
  "NewError sentinel message =
     \<lparr>e_Code = sentinelCode sentinel, e_Message = message, e_Cause = sentinel, e_Details = []\<rparr>"

definition WithDetails :: "DomainError \<Rightarrow> (string \<times> int) list \<Rightarrow> DomainError" where
  "WithDetails e d = e\<lparr>e_Details := d\<rparr>"

text \<open>
  Any other Go error value, with what the code inspects of it: the SQLSTATE of a Postgres
  error, the identity of the sentinels it may wrap, and its \<open>Error()\<close> text.
\<close>

datatype Errno = ECONNRESET | ECONNREFUSED | EPIPE | ETIMEDOUT | OtherErrno

record RawError =
  raw_SQLState :: "string option"
  raw_ClosedPool :: bool
  raw_EOF :: bool
  raw_UnexpectedEOF :: bool
  raw_NetOpError :: bool
  raw_Errno :: "Errno option"
  raw_DependencyUnavailable :: bool
  raw_SchemaViolation :: bool
  raw_Text :: string

datatype error = Domain DomainError | Raw RawError

definition plainError :: "string \<Rightarrow> RawError" where
  "plainError t = \<lparr>raw_SQLState = None, raw_ClosedPool = False, raw_EOF = False,
     raw_UnexpectedEOF = False, raw_NetOpError = False, raw_Errno = None,
     raw_DependencyUnavailable = False, raw_SchemaViolation = False, raw_Text = t\<rparr>"

abbreviation domainErr :: "Sentinel \<Rightarrow> string \<Rightarrow> error" where
  "domainErr s m \<equiv> Domain (NewError s m)"

text \<open>\<open>errors.Is(err, sentinel)\<close> and \<open>errors.Is(err, port.ErrDependencyUnavailable)\<close>.\<close>

fun errorsIs :: "error \<Rightarrow> Sentinel \<Rightarrow> bool" where
  "errorsIs (Domain d) s = (e_Cause d = s)"
| "errorsIs (Raw _) s = False"

fun isDependencyUnavailable :: "error \<Rightarrow> bool" where
  "isDependencyUnavailable (Domain _) = False"
| "isDependencyUnavailable (Raw r) = raw_DependencyUnavailable r"

lemma NewError_simps [simp]:
  "e_Code (NewError s m) = sentinelCode s" "e_Cause (NewError s m) = s" "e_Details (NewError s m) = []"
  by (simp_all add: NewError_def)

lemma NewError_eq_iff [simp]: "NewError s m = NewError s' m' \<longleftrightarrow> s = s' \<and> m = m'"
  by (auto simp: NewError_def)

lemma WithDetails_simps [simp]:
  "e_Code (WithDetails e d) = e_Code e" "e_Cause (WithDetails e d) = e_Cause e"
  "e_Details (WithDetails e d) = d"
  by (simp_all add: WithDetails_def)

lemma sentinelCode_inj: "sentinelCode s = sentinelCode t \<Longrightarrow> s = t"
  by (cases s; cases t; simp)

section \<open>Request identity\<close>

record requestctx =
  rc_UserID :: string
  rc_TenantID :: string
  rc_Roles :: "string list"
  rc_ClientIP :: string
  rc_UserAgent :: string

definition HasRole :: "requestctx \<Rightarrow> string \<Rightarrow> bool" where
  "HasRole c role \<longleftrightarrow> role \<in> set (rc_Roles c)"

definition IsAdmin :: "requestctx \<Rightarrow> bool" where
  "IsAdmin c \<longleftrightarrow> HasRole c ''tenant_admin'' \<or> HasRole c ''tenant_owner''"

end
