(* ===== verification/World.thy ===== *)
theory World
  imports Domain
begin

text \<open>
  The ports of \<^verbatim>\<open>src/internal/core/port\<close> and the world the service runs in.

  Everything outside the repository is a field of the record \<open>env\<close>: the clocks, the id
  generator, the User Profile, Org Membership and Catalog Admin clients as their ports
  describe them, the faults of Postgres and Valkey. Each field takes the number of the
  interaction (\<open>tick\<close>) as its first argument, so two calls with equal arguments may answer
  differently and a fault may strike any single statement. The optional dependencies of the
  service structs (\<open>s.cache != nil\<close>, \<open>s.metrics != nil\<close>, ...) are booleans.

  The record \<open>world\<close> is what the program changes: the database (rolled back by a failed
  transaction), the Valkey entries, the calls User Profile has answered, and the metrics.
  Times are in microseconds, the resolution of the \<open>timestamptz\<close> columns.
\<close>

section \<open>Port types\<close>

record AvailabilitySnapshot =
  snap_Status :: string
  snap_OOOUntil :: "time option"

record SetAvailabilityRequest =
  sa_TenantID :: uuid
  sa_UserID :: uuid
  sa_Status :: "string option"
  sa_OOOFrom :: "time option"
  sa_OOOUntil :: "time option"
  sa_DelegateID :: "uuid option"
  sa_Note :: string

record IdempotencyRecord =
  ir_DelegationID :: uuid
  ir_Status :: string

section \<open>The environment\<close>

record env =
  clock :: "nat \<Rightarrow> time"   \<comment> \<open>time.Now().UTC()\<close>
  pg_clock :: "nat \<Rightarrow> time"   \<comment> \<open>now() of the transaction opened at this interaction\<close>
  new_uuid :: "nat \<Rightarrow> uuid"   \<comment> \<open>uuid.New()\<close>
  uuid_Parse :: "string \<Rightarrow> uuid option"   \<comment> \<open>google/uuid\<close>
  uuid_String :: "uuid \<Rightarrow> string"
  pg_fault :: "nat \<Rightarrow> RawError option"   \<comment> \<open>a statement, BEGIN or COMMIT that fails\<close>
  kv_fault :: "nat \<Rightarrow> RawError option"   \<comment> \<open>a Valkey command that fails\<close>
  schema_valid :: "DomainEvent \<Rightarrow> bool"   \<comment> \<open>the JSON-Schema validator on the payload\<close>
  membershipExists :: "nat \<Rightarrow> uuid \<Rightarrow> uuid \<Rightarrow> error + (bool \<times> uuid)"
  getAvailability :: "nat \<Rightarrow> uuid \<Rightarrow> uuid \<Rightarrow> error + AvailabilitySnapshot"
  setAvailability :: "nat \<Rightarrow> SetAvailabilityRequest \<Rightarrow> error option"
  clearDelegatePointer :: "nat \<Rightarrow> uuid \<Rightarrow> uuid \<Rightarrow> error option"
  departmentActive :: "(nat \<Rightarrow> uuid \<Rightarrow> error + (bool \<times> bool)) option"   \<comment> \<open>None: no client is wired\<close>
  hasIdempotency :: bool
  hasCache :: bool
  hasMetrics :: bool
  hasPublisher :: bool

section \<open>The world\<close>

record db =
  delegations :: "Delegation list"
  tenant_settings :: "uuid \<Rightarrow> DelegationTenantSettings option"
  processed_events :: "(string \<times> string \<times> time) list"   \<comment> \<open>event\_id, consumer, processed\_at\<close>
  outbox :: "DomainEvent list"

datatype KVKey = KeyIdem uuid string | KeyList uuid uuid
datatype KVValue = KVIdem IdempotencyRecord | KVList "Delegation list" | KVUndecodable

datatype UPCall = UPGet uuid uuid | UPSet SetAvailabilityRequest bool | UPClear uuid uuid bool

datatype Metric =
  MCreated DelegationScope | MEnded EndReason | MIdempotencyHit | MUPFailure string
| MExpiryDeferred | MActivationDeferred | MReviewDeferred | MReviewWarned int | MReviewExpired
| MMessageReceived string | MCascadeProcessed | MCascadeDLQ | MDuplicate string | MUnknownEvent string string

record world =
  tick :: nat
  db :: db
  kv :: "KVKey \<Rightarrow> (KVValue \<times> time) option"   \<comment> \<open>value and expiry\<close>
  up_log :: "UPCall list"
  metric_log :: "Metric list"

definition bump :: "world \<Rightarrow> world" where
  "bump w = w\<lparr>tick := Suc (tick w)\<rparr>"

lemma bump_simps [simp]:
  "db (bump w) = db w" "kv (bump w) = kv w" "up_log (bump w) = up_log w"
  "metric_log (bump w) = metric_log w" "tick (bump w) = Suc (tick w)"
  by (simp_all add: bump_def)

section \<open>Calls to the other services\<close>

definition up_GetAvailability :: "env \<Rightarrow> uuid \<Rightarrow> uuid \<Rightarrow> world \<Rightarrow> (error, AvailabilitySnapshot, world) outcome" where
  "up_GetAvailability e tenantID userID w =
     (getAvailability e (tick w) tenantID userID, (bump w)\<lparr>up_log := up_log w @ [UPGet tenantID userID]\<rparr>)"

definition up_SetAvailability :: "env \<Rightarrow> SetAvailabilityRequest \<Rightarrow> world \<Rightarrow> error option \<times> world" where
  "up_SetAvailability e req w =
     (let r = setAvailability e (tick w) req
      in (r, (bump w)\<lparr>up_log := up_log w @ [UPSet req (r = None)]\<rparr>))"

definition up_ClearDelegatePointer :: "env \<Rightarrow> uuid \<Rightarrow> uuid \<Rightarrow> world \<Rightarrow> error option \<times> world" where
  "up_ClearDelegatePointer e tenantID userID w =
     (let r = clearDelegatePointer e (tick w) tenantID userID
      in (r, (bump w)\<lparr>up_log := up_log w @ [UPClear tenantID userID (r = None)]\<rparr>))"

definition record_metric :: "env \<Rightarrow> Metric \<Rightarrow> world \<Rightarrow> world" where
  "record_metric e m w = (if hasMetrics e then w\<lparr>metric_log := metric_log w @ [m]\<rparr> else w)"

lemma record_metric_simps [simp]:
  "db (record_metric e m w) = db w" "kv (record_metric e m w) = kv w"
  "up_log (record_metric e m w) = up_log w" "tick (record_metric e m w) = tick w"
  by (simp_all add: record_metric_def)

text \<open>The best-effort call of the use cases: a failure is counted and otherwise ignored.\<close>

definition clearFailOpen :: "env \<Rightarrow> string \<Rightarrow> uuid \<Rightarrow> uuid \<Rightarrow> world \<Rightarrow> world" where
  "clearFailOpen e op tenantID userID w =
     (case up_ClearDelegatePointer e tenantID userID w of
        (None, w) \<Rightarrow> w
      | (Some _, w) \<Rightarrow> record_metric e (MUPFailure op) w)"

lemma clearFailOpen_simps [simp]:
  "db (clearFailOpen e op t u w) = db w" "kv (clearFailOpen e op t u w) = kv w"
  "up_log (clearFailOpen e op t u w) = up_log w @ [UPClear t u (clearDelegatePointer e (tick w) t u = None)]"
  by (auto simp: clearFailOpen_def up_ClearDelegatePointer_def Let_def split: option.split)

definition setFailOpen :: "env \<Rightarrow> string \<Rightarrow> SetAvailabilityRequest \<Rightarrow> world \<Rightarrow> world" where
  "setFailOpen e op req w =
     (case up_SetAvailability e req w of
        (None, w) \<Rightarrow> w
      | (Some _, w) \<Rightarrow> record_metric e (MUPFailure op) w)"

lemma setFailOpen_simps [simp]:
  "db (setFailOpen e op req w) = db w" "kv (setFailOpen e op req w) = kv w"
  "up_log (setFailOpen e op req w) = up_log w @ [UPSet req (setAvailability e (tick w) req = None)]"
  by (auto simp: setFailOpen_def up_SetAvailability_def Let_def split: option.split)

lemma up_GetAvailability_simps [simp]:
  "fst (up_GetAvailability e t u w) = getAvailability e (tick w) t u"
  "db (snd (up_GetAvailability e t u w)) = db w"
  "kv (snd (up_GetAvailability e t u w)) = kv w"
  "up_log (snd (up_GetAvailability e t u w)) = up_log w @ [UPGet t u]"
  by (simp_all add: up_GetAvailability_def)

lemma up_SetAvailability_simps [simp]:
  "fst (up_SetAvailability e req w) = setAvailability e (tick w) req"
  "db (snd (up_SetAvailability e req w)) = db w"
  "kv (snd (up_SetAvailability e req w)) = kv w"
  "up_log (snd (up_SetAvailability e req w)) = up_log w @ [UPSet req (setAvailability e (tick w) req = None)]"
  by (simp_all add: up_SetAvailability_def Let_def)

lemma up_ClearDelegatePointer_simps [simp]:
  "fst (up_ClearDelegatePointer e t u w) = clearDelegatePointer e (tick w) t u"
  "db (snd (up_ClearDelegatePointer e t u w)) = db w"
  "kv (snd (up_ClearDelegatePointer e t u w)) = kv w"
  "up_log (snd (up_ClearDelegatePointer e t u w)) =
     up_log w @ [UPClear t u (clearDelegatePointer e (tick w) t u = None)]"
  by (simp_all add: up_ClearDelegatePointer_def Let_def)

text \<open>
  What User Profile was last told about a user's delegate pointer, from the acknowledged
  calls in order: \<open>Some (Some d)\<close> set to \<open>d\<close>, \<open>Some None\<close> cleared, \<open>None\<close> never told.
\<close>

fun pointer_step :: "uuid \<Rightarrow> uuid \<Rightarrow> UPCall \<Rightarrow> uuid option option \<Rightarrow> uuid option option" where
  "pointer_step t u (UPGet _ _) p = p"
| "pointer_step t u (UPSet req ok) p =
     (if ok \<and> sa_TenantID req = t \<and> sa_UserID req = u \<and> sa_DelegateID req \<noteq> None
      then Some (sa_DelegateID req) else p)"
| "pointer_step t u (UPClear t' u' ok) p = (if ok \<and> t' = t \<and> u' = u then Some None else p)"

definition last_pointer :: "UPCall list \<Rightarrow> uuid \<Rightarrow> uuid \<Rightarrow> uuid option option" where
  "last_pointer cs t u = fold (pointer_step t u) cs None"

lemma last_pointer_snoc [simp]: "last_pointer (cs @ [c]) t u = pointer_step t u c (last_pointer cs t u)"
  by (simp add: last_pointer_def)

section \<open>Days and spans\<close>

definition second :: duration where "second = 1000000"
definition day :: duration where "day = 24 * 3600 * second"

lemma day_pos [simp]: "0 < day" "0 \<le> day"
  by (simp_all add: day_def second_def)

text \<open>
  \<open>t.Sub(u)\<close> saturates: a \<open>time.Duration\<close> is an \<open>int64\<close> of nanoseconds, and a difference
  beyond its range is the largest or smallest duration.
\<close>

definition maxDuration :: duration where "maxDuration = (2 ^ 63 - 1) div 1000"

definition time_Sub :: "time \<Rightarrow> time \<Rightarrow> duration" where
  "time_Sub t u = max (- maxDuration) (min maxDuration (t - u))"

lemma time_Sub_gt_policy:
  assumes "0 \<le> n" "n \<le> PolicyDaysMax"
  shows "time_Sub t u > n * day \<longleftrightarrow> t - u > n * day"
proof -
  have "n * day \<le> PolicyDaysMax * day"
    using assms(2) by (simp add: mult_right_mono)
  also have "\<dots> < maxDuration"
    by (simp add: PolicyDaysMax_def day_def second_def maxDuration_def)
  finally have "n * day < maxDuration" .
  moreover have "0 \<le> n * day"
    using assms(1) by simp
  moreover have "0 < maxDuration"
    by (simp add: maxDuration_def)
  ultimately show ?thesis
    by (auto simp: time_Sub_def)
qed

end
