(* ===== verification/Postgres.thy ===== *)
theory Postgres
  imports World
begin

text \<open>
  The Postgres adapter's transaction layer (\<^verbatim>\<open>src/internal/adapter/outbound/postgres/db.go\<close>)
  over the schema of \<^verbatim>\<open>migrations/000001_schema.up.sql\<close>: row-level security, the CHECK
  constraints and the \<open>touch_row\<close> trigger are part of what a statement does.

  \<open>withPool\<close> joins the transaction bound on the context or opens a short one;
  \<open>TxRunner_RunInTx\<close> joins, or opens one with the configured number of attempts. Every
  statement, \<open>BEGIN\<close> and \<open>COMMIT\<close> consults the fault of its interaction. A transaction that
  does not commit restores the database, and only the database.

  The locale \<open>db_frame\<close> lifts a preorder on databases through all of these combinators; it is
  what the components use to carry invariants and row histories through their operations.
\<close>

section \<open>Contexts and transactions\<close>

text \<open>The RLS-enforced application pool and the BYPASSRLS system pool (which has no GUC).\<close>

datatype pool = AppPool | SysPool

record tx =
  tx_pool :: pool
  tx_guc :: "uuid option"   \<comment> \<open>\<open>app.tenant_id\<close>, set when the connection is checked out\<close>
  tx_now :: time   \<comment> \<open>\<open>now()\<close>\<close>

record ctx =
  c_guc :: "uuid option"
  c_tx :: "tx option"
  c_publisher :: bool
  c_rc :: "requestctx option"

text \<open>The GUC of a connection of the pool: the system pool has no GUC provider.\<close>

fun conn_guc :: "pool \<Rightarrow> ctx \<Rightarrow> uuid option" where
  "conn_guc AppPool c = c_guc c"
| "conn_guc SysPool c = None"

lemma conn_guc_tx [simp]: "conn_guc pool (c\<lparr>c_tx := x\<rparr>) = conn_guc pool c"
  by (cases pool) simp_all

definition WithTenantGUC :: "ctx \<Rightarrow> uuid \<Rightarrow> ctx" where
  "WithTenantGUC c tenantID = c\<lparr>c_guc := Some tenantID\<rparr>"

section \<open>Errors\<close>

fun strContains :: "string \<Rightarrow> string \<Rightarrow> bool" where
  "strContains [] sub = (sub = [])"
| "strContains (c # s) sub = (take (length sub) (c # s) = sub \<or> strContains s sub)"

definition pgClass :: "RawError \<Rightarrow> string option" where
  "pgClass r = map_option (take 2) (raw_SQLState r)"

text \<open>\<open>pgcommon.IsConnectionException\<close> (class 08), \<open>IsInsufficientResources\<close> (class 53), \<open>IsPgError\<close>.\<close>

definition IsConnectionException :: "RawError \<Rightarrow> bool" where
  "IsConnectionException r \<longleftrightarrow> pgClass r = Some ''08''"

definition IsInsufficientResources :: "RawError \<Rightarrow> bool" where
  "IsInsufficientResources r \<longleftrightarrow> pgClass r = Some ''53''"

definition isOperatorOrSystemErrorSQLState :: "RawError \<Rightarrow> bool" where
  "isOperatorOrSystemErrorSQLState r \<longleftrightarrow>
     raw_SQLState r \<noteq> None \<and>
     (strContains (raw_Text r) ''SQLSTATE 57'' \<or> strContains (raw_Text r) ''SQLSTATE 58'')"

definition isNetworkError :: "RawError \<Rightarrow> bool" where
  "isNetworkError r \<longleftrightarrow>
     raw_EOF r \<or> raw_UnexpectedEOF r \<or> raw_NetOpError r
     \<or> raw_Errno r \<in> {Some ECONNRESET, Some ECONNREFUSED, Some EPIPE, Some ETIMEDOUT}
     \<or> strContains (raw_Text r) ''connection refused'' \<or> strContains (raw_Text r) ''connection reset''
     \<or> strContains (raw_Text r) ''broken pipe'' \<or> strContains (raw_Text r) ''EOF''"

fun wrapConnErr :: "error \<Rightarrow> error" where
  "wrapConnErr (Domain d) = Domain d"
| "wrapConnErr (Raw r) =
     (if IsConnectionException r \<or> IsInsufficientResources r \<or> isOperatorOrSystemErrorSQLState r
         \<or> raw_ClosedPool r
      then domainErr ErrDBUnavailable ''database unavailable''
      else if isNetworkError r then domainErr ErrDBUnavailable ''database unavailable''
      else Raw r)"

lemma wrapConnErr_idem [simp]: "wrapConnErr (wrapConnErr e) = wrapConnErr e"
  by (cases e) auto

lemma wrapConnErr_errorsIs:
  "errorsIs (wrapConnErr e) s \<Longrightarrow> s \<noteq> ErrDBUnavailable \<Longrightarrow> wrapConnErr e = e \<and> errorsIs e s"
  by (cases e) (auto split: if_splits)

definition wrap_out :: "(error, 'a, world) outcome \<Rightarrow> (error, 'a, world) outcome" where
  "wrap_out p = (case p of (Inl e, w) \<Rightarrow> (Inl (wrapConnErr e), w) | (Inr a, w) \<Rightarrow> (Inr a, w))"

lemma wrap_out_simps [simp]:
  "wrap_out (Inl e, w) = (Inl (wrapConnErr e), w)" "wrap_out (Inr a, w) = (Inr a, w)"
  "snd (wrap_out p) = snd p"
  by (auto simp: wrap_out_def split: prod.splits sum.splits)

lemma wrap_out_Inr_iff [res_iff]: "wrap_out p = (Inr a, w) \<longleftrightarrow> p = (Inr a, w)"
  by (auto simp: wrap_out_def split: prod.splits sum.splits)

lemma wrap_out_Inl_iff [res_iff]: "wrap_out p = (Inl e, w) \<longleftrightarrow> (\<exists>e'. p = (Inl e', w) \<and> e = wrapConnErr e')"
  by (auto simp: wrap_out_def split: prod.splits sum.splits)

section \<open>Running statements and transactions\<close>

definition stmt :: "env \<Rightarrow> (world \<Rightarrow> (error, 'a, world) outcome) \<Rightarrow> world \<Rightarrow> (error, 'a, world) outcome" where
  "stmt e f w = (case pg_fault e (tick w) of Some r \<Rightarrow> (Inl (Raw r), bump w) | None \<Rightarrow> f (bump w))"

text \<open>\<open>pgcommon.RunInTx\<close>: begin, run, commit; anything else restores the database.\<close>

definition run_tx :: "env \<Rightarrow> pool \<Rightarrow> ctx \<Rightarrow> (tx \<Rightarrow> world \<Rightarrow> (error, 'a, world) outcome) \<Rightarrow> world \<Rightarrow> (error, 'a, world) outcome" where
  "run_tx e pool c f w =
     (case pg_fault e (tick w) of
        Some r \<Rightarrow> (Inl (Raw r), bump w)
      | None \<Rightarrow>
          (let t = \<lparr>tx_pool = pool, tx_guc = conn_guc pool c,
                    tx_now = pg_clock e (tick w)\<rparr>
           in case f t (bump w) of
                (Inl err, w1) \<Rightarrow> (Inl err, w1\<lparr>db := db w\<rparr>)
              | (Inr a, w1) \<Rightarrow>
                  (case pg_fault e (tick w1) of
                     Some r \<Rightarrow> (Inl (Raw r), (bump w1)\<lparr>db := db w\<rparr>)
                   | None \<Rightarrow> (Inr a, bump w1))))"

definition withPool :: "env \<Rightarrow> pool \<Rightarrow> ctx \<Rightarrow> (tx \<Rightarrow> world \<Rightarrow> (error, 'a, world) outcome) \<Rightarrow> world \<Rightarrow> (error, 'a, world) outcome" where
  "withPool e pool c fn w =
     (case c_tx c of
        Some t \<Rightarrow> wrap_out (fn t w)
      | None \<Rightarrow> wrap_out (run_tx e pool c fn w))"

text \<open>\<open>writeRetryOpts\<close>: up to three attempts on a deadlock (40P01) or a serialization failure (40001).\<close>

definition writeRetryMaxAttempts :: nat where "writeRetryMaxAttempts = 3"

fun isRetryable :: "error \<Rightarrow> bool" where
  "isRetryable (Domain _) = False"
| "isRetryable (Raw r) = (raw_SQLState r = Some ''40P01'' \<or> raw_SQLState r = Some ''40001'')"

fun run_attempts :: "env \<Rightarrow> pool \<Rightarrow> ctx \<Rightarrow> (tx \<Rightarrow> world \<Rightarrow> (error, 'a, world) outcome) \<Rightarrow> nat \<Rightarrow> world \<Rightarrow> (error, 'a, world) outcome" where
  "run_attempts e pool c f 0 w = (Inl (Raw (plainError ''no attempts'')), w)"
| "run_attempts e pool c f (Suc n) w =
     (case run_tx e pool c f w of
        (Inl err, w1) \<Rightarrow> if isRetryable err \<and> 0 < n then run_attempts e pool c f n w1 else (Inl err, w1)
      | (Inr a, w1) \<Rightarrow> (Inr a, w1))"

definition TxRunner_RunInTx :: "env \<Rightarrow> ctx \<Rightarrow> (ctx \<Rightarrow> world \<Rightarrow> (error, 'a, world) outcome) \<Rightarrow> world \<Rightarrow> (error, 'a, world) outcome" where
  "TxRunner_RunInTx e c fn w =
     (case c_tx c of
        Some _ \<Rightarrow>
          (let txCtx = (if hasPublisher e \<and> \<not> c_publisher c then c\<lparr>c_publisher := True\<rparr> else c)
           in wrap_out (fn txCtx w))
      | None \<Rightarrow>
          wrap_out (run_attempts e AppPool c
            (\<lambda>t. fn (if hasPublisher e then c\<lparr>c_tx := Some t, c_publisher := True\<rparr> else c\<lparr>c_tx := Some t\<rparr>))
            writeRetryMaxAttempts w))"

section \<open>Row-level security, constraints and the trigger\<close>

definition rls_visible :: "tx \<Rightarrow> uuid \<Rightarrow> bool" where
  "rls_visible t tenant \<longleftrightarrow> tx_pool t = SysPool \<or> tx_guc t = Some tenant"

definition chk_scope_id :: "Delegation \<Rightarrow> bool" where
  "chk_scope_id r \<longleftrightarrow>
     (d_Scope r = ScopeAll \<and> d_ScopeID r = None)
     \<or> (d_Scope r \<in> {ScopeDepartment, ScopeTender} \<and> d_ScopeID r \<noteq> None)"

definition delegationRowOK :: "Delegation \<Rightarrow> bool" where
  "delegationRowOK r \<longleftrightarrow>
     d_RecordVersion r > 0
     \<and> (case d_ReviewLastWarnedBucket r of None \<Rightarrow> True | Some b \<Rightarrow> 1 \<le> b \<and> b \<le> 3)
     \<and> (case d_ReviewWindowDays r of None \<Rightarrow> True | Some n \<Rightarrow> 1 \<le> n \<and> n \<le> 180)
     \<and> chk_scope_id r
     \<and> d_DelegatorID r \<noteq> d_DelegateID r
     \<and> (case d_EndsAt r of None \<Rightarrow> True | Some t \<Rightarrow> t > d_StartsAt r)
     \<and> d_Status r \<noteq> StatusZero"

definition touch_row :: "time \<Rightarrow> Delegation \<Rightarrow> Delegation \<Rightarrow> Delegation" where
  "touch_row now old new =
     (if new = old then new
      else new\<lparr>d_UpdatedAt := now, d_RecordVersion := d_RecordVersion old + 1\<rparr>)"

definition pgError :: "string \<Rightarrow> string \<Rightarrow> error" where
  "pgError code text = Raw ((plainError text)\<lparr>raw_SQLState := Some code\<rparr>)"

definition checkViolation :: error where
  "checkViolation = pgError ''23514'' ''ERROR: new row violates check constraint (SQLSTATE 23514)''"
definition uniqueViolation :: error where
  "uniqueViolation = pgError ''23505'' ''ERROR: duplicate key value (SQLSTATE 23505)''"
definition rlsViolation :: error where
  "rlsViolation = pgError ''42501'' ''ERROR: new row violates row-level security policy (SQLSTATE 42501)''"

text \<open>\<open>UPDATE delegations SET f WHERE P RETURNING ...\<close> in transaction \<open>t\<close>.\<close>

definition sql_update :: "env \<Rightarrow> tx \<Rightarrow> (Delegation \<Rightarrow> bool) \<Rightarrow> (Delegation \<Rightarrow> Delegation) \<Rightarrow> world \<Rightarrow> (error, Delegation list, world) outcome" where
  "sql_update e t P f = stmt e (\<lambda>w.
     (let rows = delegations (db w);
          hit = (\<lambda>r. rls_visible t (d_TenantID r) \<and> P r);
          upd = (\<lambda>r. touch_row (tx_now t) r (f r));
          new = map upd (rows_matching hit rows)
      in if list_all delegationRowOK new
         then (Inr new, w\<lparr>db := (db w)\<lparr>delegations := update_rows hit upd rows\<rparr>\<rparr>)
         else (Inl checkViolation, w)))"

text \<open>\<open>SELECT ... FROM delegations WHERE P\<close>, in table order.\<close>

definition sql_select :: "env \<Rightarrow> tx \<Rightarrow> (Delegation \<Rightarrow> bool) \<Rightarrow> world \<Rightarrow> (error, Delegation list, world) outcome" where
  "sql_select e t P = stmt e (\<lambda>w.
     (Inr (rows_matching (\<lambda>r. rls_visible t (d_TenantID r) \<and> P r) (delegations (db w))), w))"

definition sql_insert :: "env \<Rightarrow> tx \<Rightarrow> Delegation \<Rightarrow> world \<Rightarrow> (error, Delegation, world) outcome" where
  "sql_insert e t r = stmt e (\<lambda>w.
     if \<not> rls_visible t (d_TenantID r) then (Inl rlsViolation, w)
     else if \<not> delegationRowOK r then (Inl checkViolation, w)
     else if d_ID r \<in> d_ID ` set (delegations (db w)) then (Inl uniqueViolation, w)
     else (Inr r, w\<lparr>db := (db w)\<lparr>delegations := delegations (db w) @ [r]\<rparr>\<rparr>))"

section \<open>Frames through transactions\<close>

text \<open>
  The context a transaction body runs in: the bound transaction is the one already on the
  caller's context, or a new one on the application pool with the caller's tenant.
\<close>

definition opened_ctx :: "ctx \<Rightarrow> ctx \<Rightarrow> bool" where
  "opened_ctx c c' \<longleftrightarrow> c_guc c' = c_guc c \<and> c_rc c' = c_rc c \<and>
     (\<exists>t. c_tx c' = Some t \<and>
        (case c_tx c of Some t0 \<Rightarrow> t = t0 | None \<Rightarrow> tx_pool t = AppPool \<and> tx_guc t = c_guc c))"

text \<open>The transaction a repository call runs in.\<close>

definition pool_tx :: "pool \<Rightarrow> ctx \<Rightarrow> tx \<Rightarrow> bool" where
  "pool_tx pool c t \<longleftrightarrow>
     (case c_tx c of
        Some t0 \<Rightarrow> t = t0
      | None \<Rightarrow> tx_pool t = pool \<and> tx_guc t = conn_guc pool c)"

locale tx_frame = frame R for R :: "world \<Rightarrow> world \<Rightarrow> bool" +
  assumes frame_bump: "R w (bump w)"
    and frame_rollback: "R w w1 \<Longrightarrow> R w (w1\<lparr>db := db w\<rparr>)"
begin

lemma frame_stmt:
  assumes "R (bump w) (snd (f (bump w)))"
  shows "R w (snd (stmt e f w))"
  using frame_trans [OF frame_bump assms] frame_bump [of w]
  by (simp add: stmt_def split: option.split)

lemma frame_run_tx:
  assumes f: "\<And>t w1. pool_tx pool (c\<lparr>c_tx := None\<rparr>) t \<Longrightarrow> R w1 (snd (f t w1))"
  shows "R w (snd (run_tx e pool c f w))"
proof (cases "pg_fault e (tick w)")
  case (Some r)
  then show ?thesis by (simp add: run_tx_def frame_bump)
next
  case None
  define t where "t = \<lparr>tx_pool = pool, tx_guc = conn_guc pool c,
                        tx_now = pg_clock e (tick w)\<rparr>"
  obtain r w1 where r: "f t (bump w) = (r, w1)" by force
  have "pool_tx pool (c\<lparr>c_tx := None\<rparr>) t"
    by (simp add: pool_tx_def t_def)
  from f [OF this, of "bump w"] r have "R (bump w) w1" by simp
  with frame_bump have w1: "R w w1" by (rule frame_trans)
  then have w2: "R w (bump w1)" by (rule frame_trans) (rule frame_bump)
  from w1 w2 show ?thesis
    by (auto simp: run_tx_def None r t_def [symmetric] Let_def frame_rollback
        split: sum.split option.split)
qed

lemma frame_run_attempts:
  assumes f: "\<And>t w1. pool_tx pool (c\<lparr>c_tx := None\<rparr>) t \<Longrightarrow> R w1 (snd (f t w1))"
  shows "R w (snd (run_attempts e pool c f n w))"
proof (induction n arbitrary: w)
  case 0
  show ?case by (simp add: frame_refl)
next
  case (Suc n)
  obtain r w1 where r: "run_tx e pool c f w = (r, w1)" by force
  have w1: "R w w1"
    using frame_run_tx [where e = e and w = w and f = f and pool = pool and c = c] f r by simp
  have "R w (snd (run_attempts e pool c f n w1))"
    using w1 Suc.IH by (rule frame_trans)
  with w1 show ?case by (simp add: r split: sum.split)
qed

lemma frame_withPool:
  assumes f: "\<And>t w1. pool_tx pool c t \<Longrightarrow> R w1 (snd (f t w1))"
  shows "R w (snd (withPool e pool c f w))"
proof (cases "c_tx c")
  case None
  then have "c\<lparr>c_tx := None\<rparr> = c" by simp
  with f have "\<And>t w1. pool_tx pool (c\<lparr>c_tx := None\<rparr>) t \<Longrightarrow> R w1 (snd (f t w1))" by simp
  then have "R w (snd (run_tx e pool c f w))" by (rule frame_run_tx)
  with None show ?thesis by (simp add: withPool_def)
next
  case (Some t)
  then have "pool_tx pool c t" by (simp add: pool_tx_def)
  from f [OF this] Some show ?thesis by (simp add: withPool_def)
qed

lemma frame_RunInTx:
  assumes f: "\<And>c' w1. opened_ctx c c' \<Longrightarrow> R w1 (snd (f c' w1))"
  shows "R w (snd (TxRunner_RunInTx e c f w))"
proof (cases "c_tx c")
  case None
  let ?g = "\<lambda>t. f (if hasPublisher e then c\<lparr>c_tx := Some t, c_publisher := True\<rparr> else c\<lparr>c_tx := Some t\<rparr>)"
  have "R w1 (snd (?g t w1))" if "pool_tx AppPool (c\<lparr>c_tx := None\<rparr>) t" for t w1
    using that by (intro f) (auto simp: opened_ctx_def pool_tx_def None)
  then have "R w (snd (run_attempts e AppPool c ?g writeRetryMaxAttempts w))"
    by (rule frame_run_attempts)
  then show ?thesis by (simp add: TxRunner_RunInTx_def None)
next
  case (Some t)
  then show ?thesis
    by (auto simp: TxRunner_RunInTx_def Let_def intro!: f) (auto simp: opened_ctx_def)
qed

end

text \<open>A preorder on databases is such a frame, since a rolled-back database is the old one.\<close>

locale db_frame =
  fixes R :: "db \<Rightarrow> db \<Rightarrow> bool"
  assumes db_refl: "R d d"
    and db_trans: "R d1 d2 \<Longrightarrow> R d2 d3 \<Longrightarrow> R d1 d3"

sublocale db_frame \<subseteq> w: tx_frame "\<lambda>w w'. R (db w) (db w')"
  by unfold_locales (auto intro: db_refl db_trans)

text \<open>What a transaction that only touches the database leaves alone.\<close>

definition same_ext :: "world \<Rightarrow> world \<Rightarrow> bool" where
  "same_ext w w' \<longleftrightarrow> kv w' = kv w \<and> up_log w' = up_log w \<and> metric_log w' = metric_log w"

interpretation ext: tx_frame same_ext
  by unfold_locales (auto simp: same_ext_def)

interpretation same_db: db_frame "\<lambda>d d'. d' = d"
  by unfold_locales auto

section \<open>Atomicity\<close>

lemma run_tx_error: "run_tx e pool c f w = (Inl err, w') \<Longrightarrow> db w' = db w"
  by (auto simp: run_tx_def Let_def split: option.splits prod.splits sum.splits)

lemma run_tx_ok:
  assumes "run_tx e pool c f w = (Inr a, w')"
  obtains t w1 where "pool_tx pool (c\<lparr>c_tx := None\<rparr>) t" "f t (bump w) = (Inr a, w1)" "w' = bump w1"
    "tx_now t = pg_clock e (tick w)"
proof -
  let ?t = "\<lparr>tx_pool = pool, tx_guc = conn_guc pool c, tx_now = pg_clock e (tick w)\<rparr>"
  from assms obtain w1 where "f ?t (bump w) = (Inr a, w1)" "w' = bump w1"
    by (auto simp: run_tx_def Let_def split: option.splits prod.splits sum.splits)
  with that [of ?t w1] show ?thesis by (simp add: pool_tx_def)
qed

lemma run_attempts_error: "run_attempts e pool c f n w = (Inl err, w') \<Longrightarrow> db w' = db w"
  by (induction n arbitrary: w)
     (auto split: prod.splits sum.splits if_splits dest: run_tx_error)

lemma run_attempts_ok:
  "run_attempts e pool c f n w = (Inr a, w') \<Longrightarrow>
   \<exists>w0. db w0 = db w \<and> run_tx e pool c f w0 = (Inr a, w')"
proof (induction n arbitrary: w)
  case 0
  then show ?case by simp
next
  case (Suc n)
  show ?case
  proof (cases "run_tx e pool c f w")
    case (Pair r w1)
    show ?thesis
    proof (cases r)
      case (Inl err)
      with Pair Suc.prems have "run_attempts e pool c f n w1 = (Inr a, w')"
        by (auto split: if_splits)
      from Suc.IH [OF this] obtain w0 where "db w0 = db w1" "run_tx e pool c f w0 = (Inr a, w')"
        by blast
      moreover from Pair Inl have "db w1 = db w" by (auto dest: run_tx_error)
      ultimately show ?thesis by auto
    next
      case (Inr b)
      with Pair Suc.prems show ?thesis by auto
    qed
  qed
qed

lemma RunInTx_error:
  "c_tx c = None \<Longrightarrow> TxRunner_RunInTx e c f w = (Inl err, w') \<Longrightarrow> db w' = db w"
  by (auto simp: TxRunner_RunInTx_def res_iff dest: run_attempts_error)

lemma RunInTx_ok:
  assumes "c_tx c = None" "TxRunner_RunInTx e c f w = (Inr a, w')"
  obtains c' w0 w1 where "opened_ctx c c'" "c_publisher c' = (hasPublisher e \<or> c_publisher c)"
    "db w0 = db w" "f c' w0 = (Inr a, w1)" "w' = bump w1"
proof -
  let ?g = "\<lambda>t. f (if hasPublisher e then c\<lparr>c_tx := Some t, c_publisher := True\<rparr> else c\<lparr>c_tx := Some t\<rparr>)"
  from assms have "run_attempts e AppPool c ?g writeRetryMaxAttempts w = (Inr a, w')"
    by (auto simp: TxRunner_RunInTx_def res_iff)
  then obtain w0 where w0: "db w0 = db w" "run_tx e AppPool c ?g w0 = (Inr a, w')"
    by (blast dest: run_attempts_ok)
  from w0(2) obtain t w1 where t: "pool_tx AppPool (c\<lparr>c_tx := None\<rparr>) t" "?g t (bump w0) = (Inr a, w1)" "w' = bump w1"
    by (rule run_tx_ok)
  show ?thesis
    by (rule that [OF _ _ _ t(2,3)]) (use t(1) w0(1) assms(1) in \<open>auto simp: opened_ctx_def pool_tx_def\<close>)
qed

lemma RunInTx_ok_any:
  assumes "TxRunner_RunInTx e c f w = (Inr a, w')"
  obtains c' w0 w1 where "opened_ctx c c'" "c_publisher c' = (hasPublisher e \<or> c_publisher c)"
    "db w0 = db w" "f c' w0 = (Inr a, w1)" "db w' = db w1"
proof (cases "c_tx c")
  case None
  from RunInTx_ok [OF None assms] that show ?thesis by (metis bump_simps(1))
next
  case (Some t)
  let ?c = "if hasPublisher e \<and> \<not> c_publisher c then c\<lparr>c_publisher := True\<rparr> else c"
  from Some assms have "f ?c w = (Inr a, w')"
    by (simp add: TxRunner_RunInTx_def Let_def res_iff)
  moreover have "opened_ctx c ?c" "c_publisher ?c = (hasPublisher e \<or> c_publisher c)"
    using Some by (auto simp: opened_ctx_def)
  ultimately show ?thesis using that by blast
qed

lemma withPool_error:
  "c_tx c = None \<Longrightarrow> withPool e pool c f w = (Inl err, w') \<Longrightarrow> db w' = db w"
  by (auto simp: withPool_def res_iff dest: run_tx_error)

lemma withPool_ok:
  assumes "withPool e pool c f w = (Inr a, w')"
  obtains t w0 w1 where "pool_tx pool c t" "db w0 = db w" "f t w0 = (Inr a, w1)" "db w' = db w1"
proof (cases "c_tx c")
  case None
  with assms have "run_tx e pool c f w = (Inr a, w')" by (simp add: withPool_def res_iff)
  then obtain t w1 where t: "pool_tx pool (c\<lparr>c_tx := None\<rparr>) t" "f t (bump w) = (Inr a, w1)" "w' = bump w1"
    by (rule run_tx_ok)
  from None t(1) have "pool_tx pool c t" by (simp add: pool_tx_def)
  from that [OF this _ t(2)] t(3) show ?thesis by simp
next
  case (Some t)
  with assms have "f t w = (Inr a, w')" by (simp add: withPool_def res_iff)
  with that [of t w] Some show ?thesis by (simp add: pool_tx_def)
qed

section \<open>Without faults\<close>

definition no_faults :: "env \<Rightarrow> bool" where
  "no_faults e \<longleftrightarrow> pg_fault e = (\<lambda>_. None)"

lemma stmt_no_faults [simp]: "no_faults e \<Longrightarrow> stmt e f w = f (bump w)"
  by (simp add: stmt_def no_faults_def)

lemma withPool_no_faults:
  assumes "no_faults e" "c_tx c = None"
  shows "fst (withPool e pool c f w) =
    (case fst (f \<lparr>tx_pool = pool, tx_guc = conn_guc pool c, tx_now = pg_clock e (tick w)\<rparr> (bump w)) of
       Inl err \<Rightarrow> Inl (wrapConnErr err) | Inr a \<Rightarrow> Inr a)"
  using assms
  by (auto simp: withPool_def run_tx_def no_faults_def wrap_out_def split: prod.splits sum.splits)

section \<open>How much a transaction may cost\<close>

text \<open>\<open>tick\<close> counts the interactions with the outside: \<open>BEGIN\<close>, \<open>COMMIT\<close>, statements, calls.\<close>

lemma run_tx_ticks:
  assumes "\<And>t w. tick (snd (f t w)) \<le> tick w + k"
  shows "tick (snd (run_tx e pool c f w)) \<le> tick w + (k + 2)"
proof (cases "pg_fault e (tick w)")
  case None
  let ?t = "\<lparr>tx_pool = pool, tx_guc = conn_guc pool c, tx_now = pg_clock e (tick w)\<rparr>"
  have "tick (snd (f ?t (bump w))) \<le> tick w + (k + 1)" using assms [of ?t "bump w"] by simp
  with None show ?thesis
    by (cases "f ?t (bump w)") (auto simp: run_tx_def split: sum.split option.split)
qed (simp add: run_tx_def)

lemma run_attempts_ticks:
  assumes "\<And>t w. tick (snd (f t w)) \<le> tick w + k"
  shows "tick (snd (run_attempts e pool c f n w)) \<le> tick w + n * (k + 2)"
proof (induction n arbitrary: w)
  case (Suc n)
  obtain r w1 where r: "run_tx e pool c f w = (r, w1)" by force
  with run_tx_ticks [where f = f and w = w and e = e and pool = pool and c = c, OF assms]
  have "tick w1 \<le> tick w + (k + 2)" by simp
  with Suc [of w1] r show ?case by (auto split: sum.split)
qed simp

lemma RunInTx_ticks:
  assumes "c_tx c = None" "\<And>c w. tick (snd (f c w)) \<le> tick w + k"
  shows "tick (snd (TxRunner_RunInTx e c f w)) \<le> tick w + writeRetryMaxAttempts * (k + 2)"
proof -
  let ?f = "\<lambda>t. f (if hasPublisher e then c\<lparr>c_tx := Some t, c_publisher := True\<rparr> else c\<lparr>c_tx := Some t\<rparr>)"
  have "tick (snd (run_attempts e AppPool c ?f writeRetryMaxAttempts w)) \<le> tick w + writeRetryMaxAttempts * (k + 2)"
    by (rule run_attempts_ticks) (rule assms(2))
  with assms(1) show ?thesis by (simp add: TxRunner_RunInTx_def)
qed

end
