(* ===== verification/Schema.thy ===== *)
theory Schema
  imports Postgres
begin

text \<open>
  What the schema and the repositories keep between them.

  \<open>db_inv\<close>: primary keys are unique and every row satisfies its CHECK constraints.
  \<open>row_evolves\<close>: how one delegation row may change over its life. The grant itself (who, to
  whom, which scope, which window) never changes; the record version grows with every change,
  so equal versions mean an unchanged row; a terminal status and a soft-deleted row are final;
  an active row never becomes scheduled again. \<open>db_step\<close> combines both with an outbox that
  only grows, and is a \<open>db_frame\<close>. \<open>other_tenants_kept\<close> is tenant isolation.
\<close>

section \<open>Invariant and row histories\<close>

definition settingsRowOK :: "DelegationTenantSettings \<Rightarrow> bool" where
  "settingsRowOK s \<longleftrightarrow> s_RecordVersion s > 0
     \<and> 1 \<le> s_MaxDurationDays s \<and> s_MaxDurationDays s \<le> 180
     \<and> 1 \<le> s_ReviewWindowDays s \<and> s_ReviewWindowDays s \<le> 180"

definition processedKey :: "string \<times> string \<times> time \<Rightarrow> string \<times> string" where
  "processedKey p = (fst p, fst (snd p))"

definition db_inv :: "db \<Rightarrow> bool" where
  "db_inv d \<longleftrightarrow>
     distinct (map d_ID (delegations d))
     \<and> list_all delegationRowOK (delegations d)
     \<and> (\<forall>t s. tenant_settings d t = Some s \<longrightarrow> s_TenantID s = t \<and> settingsRowOK s)
     \<and> distinct (map processedKey (processed_events d))"

definition same_grant :: "Delegation \<Rightarrow> Delegation \<Rightarrow> bool" where
  "same_grant r r' \<longleftrightarrow>
     d_ID r' = d_ID r \<and> d_TenantID r' = d_TenantID r \<and> d_DelegatorID r' = d_DelegatorID r
     \<and> d_DelegateID r' = d_DelegateID r \<and> d_DelegatorMembershipID r' = d_DelegatorMembershipID r
     \<and> d_DelegateMembershipID r' = d_DelegateMembershipID r \<and> d_Scope r' = d_Scope r
     \<and> d_ScopeID r' = d_ScopeID r \<and> d_Reason r' = d_Reason r \<and> d_StartsAt r' = d_StartsAt r
     \<and> d_EndsAt r' = d_EndsAt r \<and> d_CreatedAt r' = d_CreatedAt r"

definition legal_status_change :: "DelegationStatus \<Rightarrow> DelegationStatus \<Rightarrow> bool" where
  "legal_status_change a b \<longleftrightarrow>
     (\<not> openStatus a \<longrightarrow> b = a) \<and> (a = DelegationActive \<longrightarrow> b \<noteq> DelegationScheduled)"

definition row_evolves :: "Delegation \<Rightarrow> Delegation \<Rightarrow> bool" where
  "row_evolves r r' \<longleftrightarrow>
     same_grant r r'
     \<and> d_RecordVersion r \<le> d_RecordVersion r'
     \<and> (d_RecordVersion r' = d_RecordVersion r \<longrightarrow> r' = r)
     \<and> legal_status_change (d_Status r) (d_Status r')
     \<and> (d_DeletedAt r \<noteq> None \<longrightarrow> r' = r)"

definition db_evolves :: "db \<Rightarrow> db \<Rightarrow> bool" where
  "db_evolves d d' \<longleftrightarrow>
     (\<forall>r \<in> set (delegations d). \<exists>r' \<in> set (delegations d'). row_evolves r r')
     \<and> (\<exists>evs. outbox d' = outbox d @ evs)"

definition db_step :: "db \<Rightarrow> db \<Rightarrow> bool" where
  "db_step d d' \<longleftrightarrow> (db_inv d \<longrightarrow> db_inv d') \<and> db_evolves d d'"

lemma row_evolves_refl [simp, intro]: "row_evolves r r"
  by (simp add: row_evolves_def same_grant_def legal_status_change_def)

lemma legal_status_change_trans:
  "legal_status_change a b \<Longrightarrow> legal_status_change b c \<Longrightarrow> legal_status_change a c"
  by (cases a; cases b; cases c; simp add: legal_status_change_def)

lemma row_evolves_trans:
  assumes "row_evolves a b" "row_evolves b c"
  shows "row_evolves a c"
proof -
  have "same_grant a c"
    using assms by (simp add: row_evolves_def same_grant_def)
  moreover have "legal_status_change (d_Status a) (d_Status c)"
    using assms legal_status_change_trans by (auto simp: row_evolves_def)
  moreover have "c = a" if "d_RecordVersion c = d_RecordVersion a"
  proof -
    from that assms have "d_RecordVersion b = d_RecordVersion a" "d_RecordVersion c = d_RecordVersion b"
      unfolding row_evolves_def by linarith+
    with assms show ?thesis by (simp add: row_evolves_def)
  qed
  ultimately show ?thesis
    using assms by (auto simp: row_evolves_def)
qed

lemma db_evolves_refl [simp, intro]: "db_evolves d d"
  by (auto simp: db_evolves_def)

lemma db_evolves_trans: "db_evolves a b \<Longrightarrow> db_evolves b c \<Longrightarrow> db_evolves a c"
  unfolding db_evolves_def by (metis append.assoc row_evolves_trans)

interpretation step: db_frame db_step
  by unfold_locales (auto simp: db_step_def intro: db_evolves_trans)

section \<open>Tenant isolation\<close>

definition other_tenants_kept :: "uuid \<Rightarrow> db \<Rightarrow> db \<Rightarrow> bool" where
  "other_tenants_kept T d d' \<longleftrightarrow>
     filter (\<lambda>r. d_TenantID r \<noteq> T) (delegations d') = filter (\<lambda>r. d_TenantID r \<noteq> T) (delegations d)
     \<and> (\<forall>t. t \<noteq> T \<longrightarrow> tenant_settings d' t = tenant_settings d t)"

interpretation iso: db_frame "other_tenants_kept T" for T
  by unfold_locales (auto simp: other_tenants_kept_def)

text \<open>A transaction bound to one tenant of the application pool.\<close>

definition tenant_tx :: "uuid \<Rightarrow> tx \<Rightarrow> bool" where
  "tenant_tx T t \<longleftrightarrow> tx_pool t = AppPool \<and> (tx_guc t = Some T \<or> tx_guc t = None)"

lemma tenant_tx_visible: "tenant_tx T t \<Longrightarrow> rls_visible t u \<Longrightarrow> u = T"
  by (auto simp: tenant_tx_def rls_visible_def)

text \<open>A context whose repository calls on the application pool run in such transactions.\<close>

definition tenant_ctx :: "uuid \<Rightarrow> ctx \<Rightarrow> bool" where
  "tenant_ctx T c \<longleftrightarrow>
     (case c_tx c of Some t \<Rightarrow> tenant_tx T t | None \<Rightarrow> c_guc c = Some T \<or> c_guc c = None)"

lemma tenant_ctx_pool_tx: "tenant_ctx T c \<Longrightarrow> pool_tx AppPool c t \<Longrightarrow> tenant_tx T t"
  by (auto simp: tenant_ctx_def pool_tx_def tenant_tx_def split: option.splits)

lemma tenant_ctx_opened: "tenant_ctx T c \<Longrightarrow> opened_ctx c c' \<Longrightarrow> tenant_ctx T c'"
  by (auto simp: tenant_ctx_def opened_ctx_def tenant_tx_def split: option.splits)

lemma tenant_ctx_bound: "c_tx c = None \<Longrightarrow> tenant_ctx T (WithTenantGUC c T)"
  by (simp add: tenant_ctx_def WithTenantGUC_def)

text \<open>The same with the tenant actually bound: the transaction sees that tenant's rows and no others.\<close>

definition bound_ctx :: "uuid \<Rightarrow> ctx \<Rightarrow> bool" where
  "bound_ctx T c \<longleftrightarrow>
     (case c_tx c of Some t \<Rightarrow> tx_pool t = AppPool \<and> tx_guc t = Some T | None \<Rightarrow> c_guc c = Some T)"

lemma bound_ctx_visible: "bound_ctx T c \<Longrightarrow> pool_tx AppPool c t \<Longrightarrow> rls_visible t u \<longleftrightarrow> u = T"
  by (auto simp: bound_ctx_def pool_tx_def rls_visible_def split: option.splits)

lemma bound_ctx_opened: "bound_ctx T c \<Longrightarrow> opened_ctx c c' \<Longrightarrow> bound_ctx T c'"
  by (auto simp: bound_ctx_def opened_ctx_def split: option.splits)

lemma bound_tenant_ctx: "bound_ctx T c \<Longrightarrow> tenant_ctx T c"
  by (auto simp: bound_ctx_def tenant_ctx_def tenant_tx_def split: option.splits)

lemma bound_ctx_GUC: "c_tx c = None \<Longrightarrow> bound_ctx T (WithTenantGUC c T)"
  by (simp add: bound_ctx_def WithTenantGUC_def)

section \<open>The SQL statements\<close>

text \<open>A change a statement may make to a live row before the trigger stamps it.\<close>

definition legal_change :: "Delegation \<Rightarrow> Delegation \<Rightarrow> bool" where
  "legal_change r r' \<longleftrightarrow>
     same_grant r r' \<and> d_RecordVersion r' = d_RecordVersion r \<and> d_DeletedAt r = None
     \<and> legal_status_change (d_Status r) (d_Status r')"

lemma touch_row_evolves:
  assumes "legal_change r r'"
  shows "row_evolves r (touch_row now r r')"
proof (cases "r' = r")
  case True
  then show ?thesis by (simp add: touch_row_def)
next
  case False
  with assms show ?thesis
    by (auto simp: touch_row_def row_evolves_def legal_change_def same_grant_def)
qed

lemma touch_row_simps [simp]:
  "d_ID (touch_row now r r') = d_ID r'" "d_TenantID (touch_row now r r') = d_TenantID r'"
  "d_DelegatorID (touch_row now r r') = d_DelegatorID r'" "d_DelegateID (touch_row now r r') = d_DelegateID r'"
  "d_Scope (touch_row now r r') = d_Scope r'" "d_ScopeID (touch_row now r r') = d_ScopeID r'"
  "d_Status (touch_row now r r') = d_Status r'" "d_EndsAt (touch_row now r r') = d_EndsAt r'"
  "d_StartsAt (touch_row now r r') = d_StartsAt r'" "d_ReviewDueAt (touch_row now r r') = d_ReviewDueAt r'"
  "d_ReviewLastWarnedBucket (touch_row now r r') = d_ReviewLastWarnedBucket r'"
  "d_ReviewWindowDays (touch_row now r r') = d_ReviewWindowDays r'"
  "d_DeletedAt (touch_row now r r') = d_DeletedAt r'" "d_Reason (touch_row now r r') = d_Reason r'"
  by (simp_all add: touch_row_def)

lemma update_rows_db_step:
  assumes P: "\<And>r. P r \<Longrightarrow> legal_change r (f r)"
    and ok: "list_all delegationRowOK (map (\<lambda>r. touch_row now r (f r)) (rows_matching P (delegations d)))"
  shows "db_step d (d\<lparr>delegations := update_rows P (\<lambda>r. touch_row now r (f r)) (delegations d)\<rparr>)"
proof -
  let ?upd = "\<lambda>r. touch_row now r (f r)"
  let ?d' = "d\<lparr>delegations := update_rows P ?upd (delegations d)\<rparr>"
  have ids: "map d_ID (delegations ?d') = map d_ID (delegations d)"
    using P by (auto simp: legal_change_def same_grant_def intro!: map_update_rows)
  have rows: "list_all delegationRowOK (delegations ?d')" if "list_all delegationRowOK (delegations d)"
    using that ok by (auto simp: list_all_iff set_update_rows rows_matching_def)
  have "\<exists>r' \<in> set (delegations ?d'). row_evolves r r'" if "r \<in> set (delegations d)" for r
    using that by (cases "P r") (auto simp: set_update_rows intro: touch_row_evolves P)
  with ids rows show ?thesis
    by (auto simp: db_step_def db_evolves_def db_inv_def)
qed

lemma sql_update_step:
  assumes "\<And>r. P r \<Longrightarrow> legal_change r (f r)"
  shows "db_step (db w) (db (snd (sql_update e t P f w)))"
  unfolding sql_update_def
  by (rule step.w.frame_stmt)
     (auto simp: Let_def step.db_refl intro!: update_rows_db_step assms)

lemma sql_select_db [simp]: "db (snd (sql_select e t P w)) = db w"
  by (simp add: sql_select_def stmt_def split: option.split)

lemma db_evolves_append: "db_evolves d (d\<lparr>delegations := delegations d @ rs\<rparr>)"
  by (auto simp: db_evolves_def)

lemma sql_insert_step: "db_step (db w) (db (snd (sql_insert e t r w)))"
  unfolding sql_insert_def
proof (rule step.w.frame_stmt)
  show "db_step (db (bump w)) (db (snd (if \<not> rls_visible t (d_TenantID r) then (Inl rlsViolation, bump w)
     else if \<not> delegationRowOK r then (Inl checkViolation, bump w)
     else if d_ID r \<in> d_ID ` set (delegations (db (bump w))) then (Inl uniqueViolation, bump w)
     else (Inr r, (bump w)\<lparr>db := (db (bump w))\<lparr>delegations := delegations (db (bump w)) @ [r]\<rparr>\<rparr>))))"
    by (auto simp: step.db_refl db_step_def db_evolves_append db_inv_def)
qed

lemma sql_update_iso:
  assumes "tenant_tx T t" "\<And>r. P r \<Longrightarrow> d_TenantID (f r) = d_TenantID r"
  shows "other_tenants_kept T (db w) (db (snd (sql_update e t P f w)))"
  unfolding sql_update_def
proof (rule iso.w.frame_stmt, unfold Let_def, goal_cases)
  case 1
  let ?hit = "\<lambda>r. rls_visible t (d_TenantID r) \<and> P r"
  have "filter (\<lambda>r. d_TenantID r \<noteq> T) (update_rows ?hit (\<lambda>r. touch_row (tx_now t) r (f r)) rs)
      = filter (\<lambda>r. d_TenantID r \<noteq> T) rs" for rs
    using assms by (induction rs) (auto simp: update_rows_def dest: tenant_tx_visible)
  then show ?case by (simp add: other_tenants_kept_def)
qed

lemma sql_insert_iso:
  "tenant_tx T t \<Longrightarrow> other_tenants_kept T (db w) (db (snd (sql_insert e t r w)))"
  unfolding sql_insert_def
  by (rule iso.w.frame_stmt) (auto simp: other_tenants_kept_def dest: tenant_tx_visible)

lemma sql_ext [simp]:
  "same_ext w (snd (sql_update e t P f w))" "same_ext w (snd (sql_select e t P w))"
  "same_ext w (snd (sql_insert e t r w))"
  by (auto simp: sql_update_def sql_select_def sql_insert_def Let_def same_ext_def stmt_def split: option.split)

section \<open>Outcomes of a statement\<close>

lemma sql_select_ok:
  "sql_select e t P w = (Inr rows, w') \<Longrightarrow>
     rows = rows_matching (\<lambda>r. rls_visible t (d_TenantID r) \<and> P r) (delegations (db w)) \<and> db w' = db w"
  by (auto simp: sql_select_def stmt_def split: option.splits)

lemma sql_update_ok:
  assumes "sql_update e t P f w = (Inr new, w')"
  defines "hit \<equiv> \<lambda>r. rls_visible t (d_TenantID r) \<and> P r"
  shows "new = map (\<lambda>r. touch_row (tx_now t) r (f r)) (rows_matching hit (delegations (db w)))"
    and "db w' = (db w)\<lparr>delegations := update_rows hit (\<lambda>r. touch_row (tx_now t) r (f r)) (delegations (db w))\<rparr>"
  using assms(1) by (auto simp: sql_update_def stmt_def Let_def hit_def split: option.splits if_splits)

lemma sql_insert_ok:
  "sql_insert e t r w = (Inr r', w') \<Longrightarrow>
     r' = r \<and> delegationRowOK r \<and> rls_visible t (d_TenantID r) \<and> d_ID r \<notin> d_ID ` set (delegations (db w))
     \<and> db w' = (db w)\<lparr>delegations := delegations (db w) @ [r]\<rparr>"
  by (auto simp: sql_insert_def stmt_def split: option.splits if_splits)

end
