(* ===== verification/DelegationRepository.thy ===== *)
theory DelegationRepository
  imports Schema
begin

text \<open>
  \<^verbatim>\<open>src/internal/adapter/outbound/postgres/delegation_repository.go\<close>: one definition per method
  of the repository, with the \<open>WHERE\<close> clause of its SQL as the row predicate. A query with
  \<open>ORDER BY\<close> sorts stably; one with no order returns table order.

  \<open>db_step\<close> is what every one of them keeps, apart from the hard purge: the constraints and
  keys of the schema, and that rows only move forward (\<open>row_evolves\<close>).
\<close>

section \<open>Queries\<close>

definition defaultFindLimit :: int where "defaultFindLimit = 100"

definition limitOrDefault :: "int \<Rightarrow> int" where
  "limitOrDefault limit = (if limit \<le> 0 then defaultFindLimit else limit)"

definition DelegationRepository_listWhere :: "env \<Rightarrow> pool \<Rightarrow> ctx \<Rightarrow> (Delegation \<Rightarrow> bool) \<Rightarrow> (Delegation list \<Rightarrow> Delegation list) \<Rightarrow> world \<Rightarrow> (error, Delegation list, world) outcome" where
  "DelegationRepository_listWhere e pool c P order =
     withPool e pool c (\<lambda>t w. bind_res (sql_select e t P w) (\<lambda>rows w. (Inr (order rows), w)))"

definition DelegationRepository_List :: "env \<Rightarrow> pool \<Rightarrow> ctx \<Rightarrow> uuid \<Rightarrow> world \<Rightarrow> (error, Delegation list, world) outcome" where
  "DelegationRepository_List e pool c tenantID =
     DelegationRepository_listWhere e pool c
       (\<lambda>r. d_TenantID r = tenantID \<and> d_DeletedAt r = None)
       (sort_key (\<lambda>r. - d_StartsAt r))"

definition activeOf :: "uuid \<Rightarrow> uuid \<Rightarrow> Delegation \<Rightarrow> bool" where
  "activeOf tenantID delegatorID r \<longleftrightarrow>
     d_TenantID r = tenantID \<and> d_DelegatorID r = delegatorID \<and> d_Status r = DelegationActive \<and> d_DeletedAt r = None"

definition DelegationRepository_ListByDelegator :: "env \<Rightarrow> pool \<Rightarrow> ctx \<Rightarrow> uuid \<Rightarrow> uuid \<Rightarrow> world \<Rightarrow> (error, Delegation list, world) outcome" where
  "DelegationRepository_ListByDelegator e pool c tenantID delegatorID =
     DelegationRepository_listWhere e pool c (activeOf tenantID delegatorID) (sort_key (\<lambda>r. - d_StartsAt r))"

definition DelegationRepository_FindActiveByDelegator :: "env \<Rightarrow> pool \<Rightarrow> ctx \<Rightarrow> uuid \<Rightarrow> uuid \<Rightarrow> world \<Rightarrow> (error, Delegation list, world) outcome" where
  "DelegationRepository_FindActiveByDelegator e pool c tenantID delegatorID =
     DelegationRepository_listWhere e pool c (activeOf tenantID delegatorID) (sort_key (\<lambda>r. - d_StartsAt r))"

definition liveRow :: "uuid \<Rightarrow> uuid \<Rightarrow> Delegation \<Rightarrow> bool" where
  "liveRow tenantID did r \<longleftrightarrow> d_TenantID r = tenantID \<and> d_ID r = did \<and> d_DeletedAt r = None"

definition notFound :: error where "notFound = domainErr ErrDelegationNotFound ''delegation not found''"

definition versionConflict :: "int \<Rightarrow> error" where
  "versionConflict v = Domain (WithDetails (NewError ErrOptimisticLockConflict ''record version conflict'') [(''record_version'', v)])"

definition DelegationRepository_FindByID :: "env \<Rightarrow> pool \<Rightarrow> ctx \<Rightarrow> uuid \<Rightarrow> uuid \<Rightarrow> world \<Rightarrow> (error, Delegation, world) outcome" where
  "DelegationRepository_FindByID e pool c tenantID did =
     withPool e pool c (\<lambda>t w. bind_res (sql_select e t (liveRow tenantID did) w)
       (\<lambda>rows w. case rows of [] \<Rightarrow> (Inl notFound, w) | d # _ \<Rightarrow> (Inr d, w)))"

definition deptDelegateRow :: "uuid \<Rightarrow> uuid \<Rightarrow> uuid \<Rightarrow> Delegation \<Rightarrow> bool" where
  "deptDelegateRow tenantID userID deptID r \<longleftrightarrow>
     d_TenantID r = tenantID \<and> d_DelegateID r = userID \<and> d_Scope r = ScopeDepartment
     \<and> d_ScopeID r = Some deptID \<and> d_Status r = DelegationActive \<and> d_DeletedAt r = None"

definition DelegationRepository_FindActiveDeptDelegateForUser :: "env \<Rightarrow> pool \<Rightarrow> ctx \<Rightarrow> uuid \<Rightarrow> uuid \<Rightarrow> uuid \<Rightarrow> world \<Rightarrow> (error, Delegation option, world) outcome" where
  "DelegationRepository_FindActiveDeptDelegateForUser e pool c tenantID userID deptID =
     withPool e pool c (\<lambda>t w. bind_res (sql_select e t (deptDelegateRow tenantID userID deptID) w)
       (\<lambda>rows w. case rows of [] \<Rightarrow> (Inr None, w) | d # _ \<Rightarrow> (Inr (Some d), w)))"

definition expiringRow :: "time \<Rightarrow> Delegation \<Rightarrow> bool" where
  "expiringRow before r \<longleftrightarrow>
     (case d_EndsAt r of None \<Rightarrow> False | Some t \<Rightarrow> t < before)
     \<and> d_Status r = DelegationActive \<and> d_DeletedAt r = None"

definition DelegationRepository_ListExpiringBefore :: "env \<Rightarrow> pool \<Rightarrow> ctx \<Rightarrow> time \<Rightarrow> int \<Rightarrow> world \<Rightarrow> (error, Delegation list, world) outcome" where
  "DelegationRepository_ListExpiringBefore e pool c before limit =
     DelegationRepository_listWhere e pool c (expiringRow before)
       (order_limit (\<lambda>r. the (d_EndsAt r)) (limitOrDefault limit))"

definition scheduledRow :: "time \<Rightarrow> Delegation \<Rightarrow> bool" where
  "scheduledRow before r \<longleftrightarrow>
     d_Status r = DelegationScheduled \<and> d_StartsAt r \<le> before \<and> d_DeletedAt r = None"

definition DelegationRepository_ListScheduledBefore :: "env \<Rightarrow> pool \<Rightarrow> ctx \<Rightarrow> time \<Rightarrow> int \<Rightarrow> world \<Rightarrow> (error, Delegation list, world) outcome" where
  "DelegationRepository_ListScheduledBefore e pool c before limit =
     DelegationRepository_listWhere e pool c (scheduledRow before)
       (order_limit d_StartsAt (limitOrDefault limit))"

definition reviewTracked :: "Delegation \<Rightarrow> bool" where
  "reviewTracked r \<longleftrightarrow> d_EndsAt r = None \<and> d_Status r = DelegationActive \<and> d_DeletedAt r = None"

definition dueForWarn :: "time \<Rightarrow> Delegation \<Rightarrow> bool" where
  "dueForWarn now r \<longleftrightarrow> reviewTracked r \<and>
     (case d_ReviewDueAt r of None \<Rightarrow> False | Some t \<Rightarrow> t > now \<and> t \<le> now + 3 * day)"

definition DelegationRepository_FindDueForDailyWarn :: "env \<Rightarrow> pool \<Rightarrow> ctx \<Rightarrow> time \<Rightarrow> int \<Rightarrow> world \<Rightarrow> (error, Delegation list, world) outcome" where
  "DelegationRepository_FindDueForDailyWarn e pool c now limit =
     DelegationRepository_listWhere e pool c (dueForWarn now)
       (order_limit (\<lambda>r. the (d_ReviewDueAt r)) (limitOrDefault limit))"

definition dueForAutoEnd :: "time \<Rightarrow> Delegation \<Rightarrow> bool" where
  "dueForAutoEnd now r \<longleftrightarrow> reviewTracked r \<and>
     (case d_ReviewDueAt r of None \<Rightarrow> False | Some t \<Rightarrow> t \<le> now)"

definition DelegationRepository_FindDueForAutoEnd :: "env \<Rightarrow> pool \<Rightarrow> ctx \<Rightarrow> time \<Rightarrow> int \<Rightarrow> world \<Rightarrow> (error, Delegation list, world) outcome" where
  "DelegationRepository_FindDueForAutoEnd e pool c now limit =
     DelegationRepository_listWhere e pool c (dueForAutoEnd now)
       (order_limit (\<lambda>r. the (d_ReviewDueAt r)) (limitOrDefault limit))"

section \<open>Writes\<close>

definition DelegationRepository_Insert :: "env \<Rightarrow> pool \<Rightarrow> ctx \<Rightarrow> Delegation \<Rightarrow> world \<Rightarrow> (error, Delegation, world) outcome" where
  "DelegationRepository_Insert e pool c d w =
     (let d1 = (if d_ID d = 0 then d\<lparr>d_ID := new_uuid e (tick w)\<rparr> else d);
          d2 = (if d_StartsAt d1 = zeroTime then d1\<lparr>d_StartsAt := clock e (tick w)\<rparr> else d1);
          d3 = (if d_Status d2 = StatusZero then d2\<lparr>d_Status := DelegationActive\<rparr> else d2)
      in withPool e pool c (\<lambda>t. sql_insert e t
           (d3\<lparr>d_RecordVersion := 1, d_CreatedAt := tx_now t, d_UpdatedAt := tx_now t,
               d_DeletedAt := None, d_ReviewLastWarnedBucket := None\<rparr>)) w)"

definition probeVersionConflict :: "env \<Rightarrow> tx \<Rightarrow> uuid \<Rightarrow> uuid \<Rightarrow> world \<Rightarrow> (error, 'a, world) outcome" where
  "probeVersionConflict e t tenantID did w =
     bind_res (sql_select e t (liveRow tenantID did) w)
       (\<lambda>rows w. case rows of
          [] \<Rightarrow> (Inl notFound, w)
        | d # _ \<Rightarrow> if \<not> openStatus (d_Status d) then (Inl notFound, w)
                   else (Inl (versionConflict (d_RecordVersion d)), w))"

definition DelegationRepository_End :: "env \<Rightarrow> pool \<Rightarrow> ctx \<Rightarrow> uuid \<Rightarrow> uuid \<Rightarrow> DelegationStatus \<Rightarrow> int \<Rightarrow> world \<Rightarrow> (error, Delegation, world) outcome" where
  "DelegationRepository_End e pool c tenantID did status expectedVersion =
     withPool e pool c (\<lambda>t w.
       bind_res (sql_update e t
           (\<lambda>r. liveRow tenantID did r \<and> d_RecordVersion r = expectedVersion \<and> openStatus (d_Status r))
           (\<lambda>r. r\<lparr>d_Status := status\<rparr>) w)
         (\<lambda>rows w. case rows of
            [] \<Rightarrow> probeVersionConflict e t tenantID did w
          | d # _ \<Rightarrow> (Inr d, w)))"

definition DelegationRepository_Activate :: "env \<Rightarrow> pool \<Rightarrow> ctx \<Rightarrow> uuid \<Rightarrow> uuid \<Rightarrow> int \<Rightarrow> world \<Rightarrow> (error, Delegation option, world) outcome" where
  "DelegationRepository_Activate e pool c tenantID did expectedVersion =
     withPool e pool c (\<lambda>t w.
       bind_res (sql_update e t
           (\<lambda>r. liveRow tenantID did r \<and> d_RecordVersion r = expectedVersion \<and> d_Status r = DelegationScheduled)
           (\<lambda>r. r\<lparr>d_Status := DelegationActive\<rparr>) w)
         (\<lambda>rows w. case rows of [] \<Rightarrow> (Inr None, w) | d # _ \<Rightarrow> (Inr (Some d), w)))"

definition extendRow :: "int \<Rightarrow> Delegation \<Rightarrow> Delegation" where
  "extendRow windowDays r =
     r\<lparr>d_ReviewDueAt := map_option (\<lambda>t. t + windowDays * day) (d_ReviewDueAt r),
       d_ReviewLastWarnedBucket := None, d_ReviewWindowDays := Some windowDays\<rparr>"

definition DelegationRepository_ExtendReview :: "env \<Rightarrow> pool \<Rightarrow> ctx \<Rightarrow> uuid \<Rightarrow> uuid \<Rightarrow> int \<Rightarrow> int \<Rightarrow> world \<Rightarrow> (error, Delegation, world) outcome" where
  "DelegationRepository_ExtendReview e pool c tenantID did windowDays expectedVersion =
     withPool e pool c (\<lambda>t w.
       bind_res (sql_update e t
           (\<lambda>r. liveRow tenantID did r \<and> d_RecordVersion r = expectedVersion
                \<and> d_Status r = DelegationActive \<and> d_EndsAt r = None)
           (extendRow windowDays) w)
         (\<lambda>rows w. case rows of
            d # _ \<Rightarrow> (Inr d, w)
          | [] \<Rightarrow>
              bind_res (sql_select e t (liveRow tenantID did) w)
                (\<lambda>probe w. case probe of
                   [] \<Rightarrow> (Inl notFound, w)
                 | d # _ \<Rightarrow>
                     if d_EndsAt d \<noteq> None
                     then (Inl (domainErr ErrNotReviewTracked ''extend only applies to open-ended delegations (ends_at IS NULL)''), w)
                     else if d_Status d \<noteq> DelegationActive then (Inl notFound, w)
                     else (Inl (versionConflict (d_RecordVersion d)), w))))"

definition DelegationRepository_MarkReviewWarned :: "env \<Rightarrow> pool \<Rightarrow> ctx \<Rightarrow> uuid \<Rightarrow> uuid \<Rightarrow> int \<Rightarrow> int \<Rightarrow> world \<Rightarrow> (error, unit, world) outcome" where
  "DelegationRepository_MarkReviewWarned e pool c tenantID did bucket expectedVersion =
     withPool e pool c (\<lambda>t w.
       bind_res (sql_update e t
           (\<lambda>r. liveRow tenantID did r \<and> d_RecordVersion r = expectedVersion \<and> d_Status r = DelegationActive)
           (\<lambda>r. r\<lparr>d_ReviewLastWarnedBucket := Some bucket\<rparr>) w)
         (\<lambda>rows w. if rows = [] then probeVersionConflict e t tenantID did w else (Inr (), w)))"

definition DelegationRepository_EndForUser :: "env \<Rightarrow> pool \<Rightarrow> ctx \<Rightarrow> uuid \<Rightarrow> uuid \<Rightarrow> world \<Rightarrow> (error, Delegation list, world) outcome" where
  "DelegationRepository_EndForUser e pool c tenantID userID =
     withPool e pool c (\<lambda>t. sql_update e t
       (\<lambda>r. d_TenantID r = tenantID \<and> (d_DelegatorID r = userID \<or> d_DelegateID r = userID)
            \<and> openStatus (d_Status r) \<and> d_DeletedAt r = None)
       (\<lambda>r. r\<lparr>d_Status := DelegationEnded, d_DeletedAt := Some (tx_now t)\<rparr>))"

definition DelegationRepository_EndForDisabledDelegate :: "env \<Rightarrow> pool \<Rightarrow> ctx \<Rightarrow> uuid \<Rightarrow> uuid \<Rightarrow> world \<Rightarrow> (error, Delegation list, world) outcome" where
  "DelegationRepository_EndForDisabledDelegate e pool c tenantID delegateID =
     withPool e pool c (\<lambda>t. sql_update e t
       (\<lambda>r. d_TenantID r = tenantID \<and> d_DelegateID r = delegateID
            \<and> openStatus (d_Status r) \<and> d_DeletedAt r = None)
       (\<lambda>r. r\<lparr>d_Status := DelegationEnded\<rparr>))"

definition DelegationRepository_SoftDeleteTenant :: "env \<Rightarrow> pool \<Rightarrow> ctx \<Rightarrow> uuid \<Rightarrow> world \<Rightarrow> (error, unit, world) outcome" where
  "DelegationRepository_SoftDeleteTenant e pool c tenantID =
     withPool e pool c (\<lambda>t w.
       bind_res (sql_update e t (\<lambda>r. d_TenantID r = tenantID \<and> d_DeletedAt r = None)
           (\<lambda>r. r\<lparr>d_DeletedAt := Some (tx_now t)\<rparr>) w)
         (\<lambda>_ w. (Inr (), w)))"

definition purgeableRow :: "time \<Rightarrow> Delegation \<Rightarrow> bool" where
  "purgeableRow before r \<longleftrightarrow> (case d_DeletedAt r of None \<Rightarrow> False | Some t \<Rightarrow> t < before)"

definition DelegationRepository_HardPurgeSoftDeletedBefore :: "env \<Rightarrow> pool \<Rightarrow> ctx \<Rightarrow> time \<Rightarrow> int \<Rightarrow> world \<Rightarrow> (error, int, world) outcome" where
  "DelegationRepository_HardPurgeSoftDeletedBefore e pool c before limit =
     withPool e pool c (\<lambda>t. stmt e (\<lambda>w.
       (let rows = delegations (db w);
            victims = order_limit (\<lambda>r. the (d_DeletedAt r)) (limitOrDefault limit)
                        (rows_matching (\<lambda>r. rls_visible t (d_TenantID r) \<and> purgeableRow before r) rows);
            gone = (\<lambda>r. rls_visible t (d_TenantID r) \<and> d_ID r \<in> d_ID ` set victims)
        in (Inr (int (length (rows_matching gone rows))),
            w\<lparr>db := (db w)\<lparr>delegations := rows_matching (\<lambda>r. \<not> gone r) rows\<rparr>\<rparr>))))"

section \<open>Every write moves rows forward\<close>

lemma step_update:
  assumes "\<And>t r. P t r \<Longrightarrow> legal_change r (f t r)"
    and "\<And>t rows w1. db (snd (k t rows w1)) = db w1"
  shows "db_step (db w) (db (snd (withPool e pool c (\<lambda>t w. bind_res (sql_update e t (P t) (f t) w) (k t)) w)))"
  by (intro step.w.frame_withPool step.w.frame_bind sql_update_step) (simp_all add: assms step.db_refl)

lemma bind_select_db [simp]:
  "(\<And>rows w1. db (snd (k rows w1)) = db w1) \<Longrightarrow> db (snd (bind_res (sql_select e t P w) k)) = db w"
  by (rule bind_res_cases [of "sql_select e t P w" k]) (use sql_select_db [of e t P w] in auto)

lemma probe_db [simp]: "db (snd (probeVersionConflict e t T i w)) = db w"
  unfolding probeVersionConflict_def by (auto split: list.split)

lemma listWhere_db [simp]:
  "db (snd (DelegationRepository_listWhere e pool c P ord w)) = db w"
  unfolding DelegationRepository_listWhere_def
  by (rule same_db.w.frame_withPool) simp

lemma FindByID_db [simp]: "db (snd (DelegationRepository_FindByID e pool c T i w)) = db w"
  unfolding DelegationRepository_FindByID_def
  by (rule same_db.w.frame_withPool) (auto split: list.split)

lemma Insert_step: "db_step (db w) (db (snd (DelegationRepository_Insert e pool c d w)))"
  unfolding DelegationRepository_Insert_def Let_def
  by (intro step.w.frame_withPool sql_insert_step)

lemma legal_change_status:
  "d_DeletedAt r = None \<Longrightarrow> openStatus (d_Status r) \<Longrightarrow> st \<noteq> DelegationScheduled \<Longrightarrow>
     legal_change r (r\<lparr>d_Status := st\<rparr>)"
  by (simp add: legal_change_def same_grant_def legal_status_change_def)

lemma End_step:
  "st \<noteq> DelegationScheduled \<Longrightarrow> db_step (db w) (db (snd (DelegationRepository_End e pool c T i st v w)))"
  unfolding DelegationRepository_End_def
  by (rule step_update) (auto simp: liveRow_def legal_change_status split: list.split)

lemma Activate_step: "db_step (db w) (db (snd (DelegationRepository_Activate e pool c T i v w)))"
  unfolding DelegationRepository_Activate_def
  by (rule step_update) (auto simp: liveRow_def legal_change_status split: list.split)

lemma ExtendReview_step: "db_step (db w) (db (snd (DelegationRepository_ExtendReview e pool c T i n v w)))"
  unfolding DelegationRepository_ExtendReview_def
  by (rule step_update)
     (auto simp: liveRow_def extendRow_def legal_change_def same_grant_def legal_status_change_def split: list.split)

lemma MarkReviewWarned_step: "db_step (db w) (db (snd (DelegationRepository_MarkReviewWarned e pool c T i b v w)))"
  unfolding DelegationRepository_MarkReviewWarned_def
  by (rule step_update)
     (auto simp: liveRow_def legal_change_def same_grant_def legal_status_change_def)

lemma EndForUser_step: "db_step (db w) (db (snd (DelegationRepository_EndForUser e pool c T u w)))"
  unfolding DelegationRepository_EndForUser_def
  by (intro step.w.frame_withPool sql_update_step)
     (auto simp: legal_change_def same_grant_def legal_status_change_def)

lemma EndForDisabledDelegate_step:
  "db_step (db w) (db (snd (DelegationRepository_EndForDisabledDelegate e pool c T u w)))"
  unfolding DelegationRepository_EndForDisabledDelegate_def
  by (intro step.w.frame_withPool sql_update_step) (auto simp: legal_change_status)

lemma SoftDeleteTenant_step: "db_step (db w) (db (snd (DelegationRepository_SoftDeleteTenant e pool c T w)))"
  unfolding DelegationRepository_SoftDeleteTenant_def
  by (rule step_update) (auto simp: legal_change_def same_grant_def legal_status_change_def)

lemmas repository_step =
  Insert_step End_step Activate_step ExtendReview_step MarkReviewWarned_step
  EndForUser_step EndForDisabledDelegate_step SoftDeleteTenant_step

section \<open>Tenant isolation\<close>

lemma iso_update:
  assumes "tenant_ctx T c" "\<And>t r. P t r \<Longrightarrow> d_TenantID (f t r) = d_TenantID r"
    and "\<And>t rows w1. db (snd (k t rows w1)) = db w1"
  shows "other_tenants_kept T (db w)
           (db (snd (withPool e AppPool c (\<lambda>t w. bind_res (sql_update e t (P t) (f t) w) (k t)) w)))"
  by (intro iso.w.frame_withPool iso.w.frame_bind sql_update_iso tenant_ctx_pool_tx [OF assms(1)])
     (simp_all add: assms iso.db_refl)

lemma Insert_iso:
  "tenant_ctx T c \<Longrightarrow> other_tenants_kept T (db w) (db (snd (DelegationRepository_Insert e AppPool c d w)))"
  unfolding DelegationRepository_Insert_def Let_def
  by (intro iso.w.frame_withPool sql_insert_iso tenant_ctx_pool_tx)

lemma End_iso:
  "tenant_ctx T c \<Longrightarrow> other_tenants_kept T (db w) (db (snd (DelegationRepository_End e AppPool c T' i st v w)))"
  unfolding DelegationRepository_End_def by (rule iso_update) (auto split: list.split)

lemma Activate_iso:
  "tenant_ctx T c \<Longrightarrow> other_tenants_kept T (db w) (db (snd (DelegationRepository_Activate e AppPool c T' i v w)))"
  unfolding DelegationRepository_Activate_def by (rule iso_update) (auto split: list.split)

lemma ExtendReview_iso:
  "tenant_ctx T c \<Longrightarrow> other_tenants_kept T (db w) (db (snd (DelegationRepository_ExtendReview e AppPool c T' i n v w)))"
  unfolding DelegationRepository_ExtendReview_def
  by (rule iso_update) (auto simp: extendRow_def split: list.split)

lemma MarkReviewWarned_iso:
  "tenant_ctx T c \<Longrightarrow> other_tenants_kept T (db w) (db (snd (DelegationRepository_MarkReviewWarned e AppPool c T' i b v w)))"
  unfolding DelegationRepository_MarkReviewWarned_def by (rule iso_update) auto

lemma EndForUser_iso:
  "tenant_ctx T c \<Longrightarrow> other_tenants_kept T (db w) (db (snd (DelegationRepository_EndForUser e AppPool c T' u w)))"
  unfolding DelegationRepository_EndForUser_def
  by (intro iso.w.frame_withPool sql_update_iso tenant_ctx_pool_tx) auto

lemma EndForDisabledDelegate_iso:
  "tenant_ctx T c \<Longrightarrow>
     other_tenants_kept T (db w) (db (snd (DelegationRepository_EndForDisabledDelegate e AppPool c T' u w)))"
  unfolding DelegationRepository_EndForDisabledDelegate_def
  by (intro iso.w.frame_withPool sql_update_iso tenant_ctx_pool_tx) auto

lemma SoftDeleteTenant_iso:
  "tenant_ctx T c \<Longrightarrow> other_tenants_kept T (db w) (db (snd (DelegationRepository_SoftDeleteTenant e AppPool c T' w)))"
  unfolding DelegationRepository_SoftDeleteTenant_def by (rule iso_update) auto

lemmas repository_iso =
  Insert_iso End_iso Activate_iso ExtendReview_iso MarkReviewWarned_iso
  EndForUser_iso EndForDisabledDelegate_iso SoftDeleteTenant_iso

section \<open>What a successful write did\<close>

text \<open>
  A write by id and version, seen from its result: the row it found, and the row it left in
  its place. Nothing else changed.
\<close>

definition wrote_row :: "db \<Rightarrow> db \<Rightarrow> Delegation \<Rightarrow> Delegation \<Rightarrow> bool" where
  "wrote_row d d' r r' \<longleftrightarrow>
     r \<in> set (delegations d) \<and> d_ID r' = d_ID r
     \<and> d' = d\<lparr>delegations := map (\<lambda>x. if d_ID x = d_ID r then r' else x) (delegations d)\<rparr>"

lemma distinct_key_eq: "distinct (map d_ID rs) \<Longrightarrow> r \<in> set rs \<Longrightarrow> x \<in> set rs \<Longrightarrow> d_ID x = d_ID r \<Longrightarrow> x = r"
  by (simp add: distinct_map inj_on_def)

lemma update_one_row:
  assumes inv: "db_inv d" and id: "\<And>r. P r \<Longrightarrow> d_ID r = i" "\<And>r. d_ID (f r) = d_ID r"
    and hit: "rows_matching P (delegations d) = r # rs"
  shows "wrote_row d (d\<lparr>delegations := update_rows P f (delegations d)\<rparr>) r (f r)" and "rs = []"
proof -
  from inv have dist: "distinct (map d_ID (delegations d))" by (simp add: db_inv_def)
  from hit have r: "r \<in> set (delegations d)" "P r"
    by (auto simp: rows_matching_def filter_eq_Cons_iff)
  have P: "P x \<longleftrightarrow> d_ID x = d_ID r" if "x \<in> set (delegations d)" for x
    using that r id distinct_key_eq [OF dist r(1)] by metis
  have "update_rows P f (delegations d) = map (\<lambda>x. if d_ID x = d_ID r then f r else x) (delegations d)"
    unfolding update_rows_def using P distinct_key_eq [OF dist r(1)] by (intro map_cong) auto
  then show "wrote_row d (d\<lparr>delegations := update_rows P f (delegations d)\<rparr>) r (f r)"
    using r id by (simp add: wrote_row_def)
  have "distinct (map d_ID (r # rs))"
    using dist hit [symmetric] by (simp add: rows_matching_def distinct_map_filter)
  moreover have "\<forall>x \<in> set (r # rs). P x"
    unfolding hit [symmetric] by (simp add: rows_matching_def)
  then have "\<forall>x \<in> set (r # rs). d_ID x = i"
    using id(1) by simp
  ultimately show "rs = []" by (rule distinct_same_key)
qed

lemma guarded_update_ok:
  assumes inv: "db_inv (db w)"
    and run: "withPool e pool c (\<lambda>t w. bind_res (sql_update e t P f w) (k t)) w = (Inr a, w')"
    and none: "\<And>t w1. fst (k t [] w1) \<noteq> Inr a"
    and some: "\<And>t d ds w1. k t (d # ds) w1 = (Inr (g d), w1)"
    and id: "\<And>r. P r \<Longrightarrow> d_ID r = i" "\<And>r. d_ID (f r) = d_ID r"
  obtains t r where "pool_tx pool c t" "rls_visible t (d_TenantID r)" "P r"
    "a = g (touch_row (tx_now t) r (f r))"
    "wrote_row (db w) (db w') r (touch_row (tx_now t) r (f r))"
proof -
  from run obtain t w0 w1 where t: "pool_tx pool c t" "db w0 = db w" "db w' = db w1"
    and b: "bind_res (sql_update e t P f w0) (k t) = (Inr a, w1)"
    by (rule withPool_ok)
  from b obtain rows w2 where u: "sql_update e t P f w0 = (Inr rows, w2)" and k: "k t rows w2 = (Inr a, w1)"
    by (auto simp: res_iff)
  let ?hit = "\<lambda>r. rls_visible t (d_TenantID r) \<and> P r"
  let ?upd = "\<lambda>r. touch_row (tx_now t) r (f r)"
  note u' = sql_update_ok [OF u, unfolded t(2)]
  from k none have "rows \<noteq> []" by (metis fst_conv)
  with u'(1) obtain r rs where r: "rows_matching ?hit (delegations (db w)) = r # rs"
    by (cases "rows_matching ?hit (delegations (db w))") auto
  then have "?hit r" by (auto simp: rows_matching_def filter_eq_Cons_iff)
  moreover have "a = g (?upd r)" "db w1 = db w2"
    using k some u'(1) r by auto
  moreover have "wrote_row (db w) (db w2) r (?upd r)"
    unfolding u'(2) by (rule update_one_row(1) [OF inv _ _ r]) (use id in auto)
  ultimately show ?thesis using that t by metis
qed

lemma probe_not_Inr [simp]: "fst (probeVersionConflict e t T i w) \<noteq> Inr a"
  by (auto simp: probeVersionConflict_def bind_res_def split: prod.splits sum.splits list.splits)

lemma End_ok:
  assumes "db_inv (db w)" "DelegationRepository_End e pool c T i st v w = (Inr d, w')"
  obtains t r where "pool_tx pool c t" "rls_visible t T" "liveRow T i r" "d_RecordVersion r = v"
    "openStatus (d_Status r)" "d = touch_row (tx_now t) r (r\<lparr>d_Status := st\<rparr>)" "wrote_row (db w) (db w') r d"
  by (rule guarded_update_ok [OF assms(1) assms(2)[unfolded DelegationRepository_End_def], of "\<lambda>d. d" i])
     (auto simp: liveRow_def intro: that)

lemma Activate_ok:
  assumes "db_inv (db w)" "DelegationRepository_Activate e pool c T i v w = (Inr (Some d), w')"
  obtains t r where "pool_tx pool c t" "rls_visible t T" "liveRow T i r" "d_RecordVersion r = v"
    "d_Status r = DelegationScheduled" "d = touch_row (tx_now t) r (r\<lparr>d_Status := DelegationActive\<rparr>)"
    "wrote_row (db w) (db w') r d"
  by (rule guarded_update_ok [OF assms(1) assms(2)[unfolded DelegationRepository_Activate_def], of Some i])
     (auto simp: liveRow_def intro: that)

lemma ExtendReview_ok:
  assumes "db_inv (db w)" "DelegationRepository_ExtendReview e pool c T i n v w = (Inr d, w')"
  obtains t r where "pool_tx pool c t" "rls_visible t T" "liveRow T i r" "d_RecordVersion r = v"
    "d_Status r = DelegationActive" "d_EndsAt r = None" "d = touch_row (tx_now t) r (extendRow n r)"
    "wrote_row (db w) (db w') r d"
proof (rule guarded_update_ok [OF assms(1) assms(2)[unfolded DelegationRepository_ExtendReview_def], of "\<lambda>d. d" i], goal_cases)
  case (1 t w1)
  then show ?case
    by (auto simp: bind_res_def split: prod.splits sum.splits list.splits)
next
  case (5 t r)
  then show ?case by (intro that [of t r]) (auto simp: liveRow_def)
qed (auto simp: liveRow_def extendRow_def)

lemma MarkReviewWarned_ok:
  assumes "db_inv (db w)" "DelegationRepository_MarkReviewWarned e pool c T i b v w = (Inr (), w')"
  obtains t r where "pool_tx pool c t" "rls_visible t T" "liveRow T i r" "d_RecordVersion r = v"
    "d_Status r = DelegationActive"
    "wrote_row (db w) (db w') r (touch_row (tx_now t) r (r\<lparr>d_ReviewLastWarnedBucket := Some b\<rparr>))"
  by (rule guarded_update_ok [OF assms(1) assms(2)[unfolded DelegationRepository_MarkReviewWarned_def], of "\<lambda>_. ()" i])
     (auto simp: liveRow_def intro: that)

lemma Insert_ok:
  assumes "DelegationRepository_Insert e pool c d w = (Inr r, w')"
  obtains t where "pool_tx pool c t" "rls_visible t (d_TenantID d)" "delegationRowOK r"
    "d_ID r \<notin> d_ID ` set (delegations (db w))"
    "db w' = (db w)\<lparr>delegations := delegations (db w) @ [r]\<rparr>"
    "r = d\<lparr>d_ID := (if d_ID d = 0 then new_uuid e (tick w) else d_ID d),
           d_StartsAt := (if d_StartsAt d = zeroTime then clock e (tick w) else d_StartsAt d),
           d_Status := (if d_Status d = StatusZero then DelegationActive else d_Status d),
           d_RecordVersion := 1, d_CreatedAt := tx_now t, d_UpdatedAt := tx_now t,
           d_DeletedAt := None, d_ReviewLastWarnedBucket := None\<rparr>"
proof -
  let ?r = "\<lambda>t. d\<lparr>d_ID := (if d_ID d = 0 then new_uuid e (tick w) else d_ID d),
           d_StartsAt := (if d_StartsAt d = zeroTime then clock e (tick w) else d_StartsAt d),
           d_Status := (if d_Status d = StatusZero then DelegationActive else d_Status d),
           d_RecordVersion := 1, d_CreatedAt := tx_now t, d_UpdatedAt := tx_now t,
           d_DeletedAt := None, d_ReviewLastWarnedBucket := None\<rparr>"
  have "withPool e pool c (\<lambda>t. sql_insert e t (?r t)) w = (Inr r, w')"
    using assms by (simp add: DelegationRepository_Insert_def Let_def if_distrib cong: if_cong) (auto split: if_splits)
  then obtain t w0 w1 where "pool_tx pool c t" "db w0 = db w" "db w' = db w1"
    and u: "sql_insert e t (?r t) w0 = (Inr r, w1)"
    by (rule withPool_ok)
  with sql_insert_ok [OF u] show ?thesis by (intro that [of t]) auto
qed

lemma FindByID_ok:
  assumes "DelegationRepository_FindByID e pool c T i w = (Inr d, w')"
  shows "d \<in> set (delegations (db w))" "liveRow T i d"
proof -
  from assms obtain t w0 w1 where t: "db w0 = db w"
    and u: "bind_res (sql_select e t (liveRow T i) w0)
       (\<lambda>rows w. case rows of [] \<Rightarrow> (Inl notFound, w) | d # _ \<Rightarrow> (Inr d, w)) = (Inr d, w1)"
    unfolding DelegationRepository_FindByID_def by (rule withPool_ok)
  then obtain rows w2 where "sql_select e t (liveRow T i) w0 = (Inr rows, w2)"
    and rows: "(case rows of [] \<Rightarrow> (Inl notFound, w2) | d # _ \<Rightarrow> (Inr d, w2)) = (Inr d, w1)"
    unfolding res_iff by blast
  then have "rows = rows_matching (\<lambda>r. rls_visible t (d_TenantID r) \<and> liveRow T i r) (delegations (db w))"
    using t by (auto dest: sql_select_ok)
  moreover from rows obtain rs where "rows = d # rs" by (cases rows) auto
  ultimately have "rows_matching (\<lambda>r. rls_visible t (d_TenantID r) \<and> liveRow T i r) (delegations (db w)) = d # rs"
    by simp
  then show "d \<in> set (delegations (db w))" "liveRow T i d"
    by (auto simp: rows_matching_def filter_eq_Cons_iff)
qed

section \<open>The tenant's ledger\<close>

text \<open>
  What a caller of the repository sees: the live rows of a tenant by id. The outcome of each
  guarded write, errors included, is a function of the ledger entry (\<open>End_outcome\<close>,
  \<open>Activate_outcome\<close>, \<open>ExtendReview_outcome\<close>).
\<close>

definition ledger :: "uuid \<Rightarrow> db \<Rightarrow> uuid \<Rightarrow> Delegation option" where
  "ledger T d i = find (liveRow T i) (delegations d)"

definition stamped :: "time \<Rightarrow> Delegation \<Rightarrow> Delegation" where
  "stamped now r = r\<lparr>d_UpdatedAt := now, d_RecordVersion := d_RecordVersion r + 1\<rparr>"

definition End_outcome :: "time \<Rightarrow> DelegationStatus \<Rightarrow> int \<Rightarrow> Delegation option \<Rightarrow> error + Delegation" where
  "End_outcome now st v entry =
     (case entry of
        None \<Rightarrow> Inl notFound
      | Some r \<Rightarrow>
          if \<not> openStatus (d_Status r) then Inl notFound
          else if d_RecordVersion r \<noteq> v then Inl (versionConflict (d_RecordVersion r))
          else Inr (stamped now (r\<lparr>d_Status := st\<rparr>)))"

definition Activate_outcome :: "time \<Rightarrow> int \<Rightarrow> Delegation option \<Rightarrow> error + Delegation option" where
  "Activate_outcome now v entry =
     (case entry of
        None \<Rightarrow> Inr None
      | Some r \<Rightarrow>
          if d_Status r = DelegationScheduled \<and> d_RecordVersion r = v
          then Inr (Some (stamped now (r\<lparr>d_Status := DelegationActive\<rparr>))) else Inr None)"

definition ExtendReview_outcome :: "time \<Rightarrow> int \<Rightarrow> int \<Rightarrow> Delegation option \<Rightarrow> error + Delegation" where
  "ExtendReview_outcome now n v entry =
     (case entry of
        None \<Rightarrow> Inl notFound
      | Some r \<Rightarrow>
          if d_EndsAt r \<noteq> None
          then Inl (domainErr ErrNotReviewTracked ''extend only applies to open-ended delegations (ends_at IS NULL)'')
          else if d_Status r \<noteq> DelegationActive then Inl notFound
          else if d_RecordVersion r \<noteq> v then Inl (versionConflict (d_RecordVersion r))
          else Inr (touch_row now r (extendRow n r)))"

lemma ledger_SomeD: "ledger T d i = Some r \<Longrightarrow> r \<in> set (delegations d) \<and> liveRow T i r"
  by (auto simp: ledger_def find_Some_iff)

lemma ledger_Some: "db_inv d \<Longrightarrow> r \<in> set (delegations d) \<Longrightarrow> liveRow T i r \<Longrightarrow> ledger T d i = Some r"
proof -
  assume inv: "db_inv d" and r: "r \<in> set (delegations d)" "liveRow T i r"
  then obtain x where x: "ledger T d i = Some x"
    by (cases "ledger T d i") (auto simp: ledger_def find_None_iff)
  with r have "d_ID x = d_ID r" "x \<in> set (delegations d)"
    by (auto dest: ledger_SomeD simp: liveRow_def)
  with inv r have "x = r" by (auto simp: db_inv_def dest: distinct_key_eq)
  with x show ?thesis by simp
qed

lemma rows_matching_find:
  assumes "distinct (map d_ID rs)"
  shows "rows_matching (\<lambda>r. liveRow T i r \<and> Q r) rs =
    (case find (liveRow T i) rs of None \<Rightarrow> [] | Some r \<Rightarrow> if Q r then [r] else [])"
  using assms
proof (induction rs)
  case Nil
  show ?case by (simp add: rows_matching_def)
next
  case (Cons x rs)
  have "rows_matching (\<lambda>r. liveRow T i r \<and> Q r) rs = []" if "liveRow T i x"
    using that Cons.prems unfolding rows_matching_def liveRow_def filter_empty_conv
    by simp (metis imageI)
  with Cons show ?case by (auto simp: rows_matching_def)
qed

lemma select_ledger:
  assumes "db_inv d" "rls_visible t T"
  shows "rows_matching (\<lambda>r. rls_visible t (d_TenantID r) \<and> liveRow T i r \<and> Q r) (delegations d) =
    (case ledger T d i of None \<Rightarrow> [] | Some r \<Rightarrow> if Q r then [r] else [])"
proof -
  have "(\<lambda>r. rls_visible t (d_TenantID r) \<and> liveRow T i r \<and> Q r) = (\<lambda>r. liveRow T i r \<and> Q r)"
    using assms(2) by (auto simp: liveRow_def)
  with assms(1) show ?thesis by (simp add: rows_matching_find db_inv_def ledger_def)
qed

lemma select_ledger_plain:
  assumes "db_inv d" "rls_visible t T"
  shows "rows_matching (\<lambda>r. rls_visible t (d_TenantID r) \<and> liveRow T i r) (delegations d) =
    (case ledger T d i of None \<Rightarrow> [] | Some r \<Rightarrow> [r])"
  using select_ledger [OF assms, of i "\<lambda>_. True"] by (simp cong: option.case_cong)

lemma ledger_rowOK: "db_inv d \<Longrightarrow> ledger T d i = Some r \<Longrightarrow> delegationRowOK r"
  by (auto simp: db_inv_def list_all_iff dest: ledger_SomeD)

lemma sql_update_miss:
  assumes "no_faults e" "rows_matching (\<lambda>r. rls_visible t (d_TenantID r) \<and> P r) (delegations (db w)) = []"
  shows "sql_update e t P f w = (Inr [], bump w)"
proof -
  have "update_rows (\<lambda>r. rls_visible t (d_TenantID r) \<and> P r) g (delegations (db w)) = delegations (db w)" for g
    using assms(2) by (intro update_rows_id) (auto simp: rows_matching_def filter_empty_conv)
  with assms show ?thesis by (simp add: sql_update_def Let_def)
qed

lemma guarded_update_ledger:
  assumes "no_faults e" "db_inv (db w)" "rls_visible t T"
    and k: "\<And>d w1. k [d] w1 = (Inr (g d), w1)"
    and ok: "\<And>r. ledger T (db w) i = Some r \<Longrightarrow> Q r \<Longrightarrow> delegationRowOK (touch_row (tx_now t) r (f r))"
  shows "fst (bind_res (sql_update e t (\<lambda>r. liveRow T i r \<and> Q r) f w) k) =
    (case ledger T (db w) i of
       None \<Rightarrow> fst (k [] (bump w))
     | Some r \<Rightarrow> if Q r then Inr (g (touch_row (tx_now t) r (f r))) else fst (k [] (bump w)))"
proof -
  note sel = select_ledger [OF assms(2,3), of i Q]
  consider r where "ledger T (db w) i = Some r" "Q r"
    | "rows_matching (\<lambda>r. rls_visible t (d_TenantID r) \<and> liveRow T i r \<and> Q r) (delegations (db w)) = []"
      "\<forall>r. ledger T (db w) i = Some r \<longrightarrow> \<not> Q r"
    using sel by (cases "ledger T (db w) i") auto
  then show ?thesis
  proof cases
    case 1
    with assms(1) sel ok have "\<exists>w1. sql_update e t (\<lambda>r. liveRow T i r \<and> Q r) f w
        = (Inr [touch_row (tx_now t) r (f r)], w1)"
      by (simp add: sql_update_def Let_def)
    with 1 k show ?thesis by auto
  next
    case 2
    with sql_update_miss [OF assms(1) 2(1)] show ?thesis by (simp split: option.split)
  qed
qed

lemma sql_select_ledger:
  assumes "no_faults e" "db_inv (db w)" "rls_visible t T"
  shows "sql_select e t (liveRow T i) w =
    (Inr (case ledger T (db w) i of None \<Rightarrow> [] | Some r \<Rightarrow> [r]), bump w)"
  using assms by (simp add: sql_select_def select_ledger_plain)

text \<open>A call of the service: no transaction bound, the tenant bound on the context.\<close>

definition request_ctx :: "uuid \<Rightarrow> ctx \<Rightarrow> bool" where
  "request_ctx T c \<longleftrightarrow> c_tx c = None \<and> c_guc c = Some T"

lemma request_bound: "request_ctx T c \<Longrightarrow> bound_ctx T c"
  by (simp add: request_ctx_def bound_ctx_def)

lemma fst_bind_res: "fst (bind_res p k) = (case p of (Inl e, s) \<Rightarrow> Inl e | (Inr a, s) \<Rightarrow> fst (k a s))"
  by (simp add: bind_res_def split: prod.split sum.split)

lemma wrapConnErr_repository [simp]:
  "wrapConnErr notFound = notFound" "wrapConnErr (versionConflict v) = versionConflict v"
  "wrapConnErr (domainErr s m) = domainErr s m"
  by (simp_all add: notFound_def versionConflict_def)

lemma rowOK_touch:
  assumes "delegationRowOK r" "legal_change r r'" "d_Status r' \<noteq> StatusZero"
    and "d_ReviewLastWarnedBucket r' \<in> insert None (Some ` {1..3})"
    and "d_ReviewWindowDays r' \<in> insert None (Some ` {1..180})"
  shows "delegationRowOK (touch_row now r r')"
proof -
  have "0 < d_RecordVersion (touch_row now r r')"
    using assms(1,2) by (simp add: touch_row_def delegationRowOK_def legal_change_def)
  moreover have "case d_EndsAt (touch_row now r r') of None \<Rightarrow> True | Some t \<Rightarrow> d_StartsAt (touch_row now r r') < t"
    using assms(1,2) by (simp add: delegationRowOK_def legal_change_def same_grant_def cong: option.case_cong)
  moreover have "chk_scope_id (touch_row now r r')"
    using assms(1,2) by (simp add: delegationRowOK_def chk_scope_id_def legal_change_def same_grant_def)
  ultimately show ?thesis
    using assms by (auto simp: delegationRowOK_def legal_change_def same_grant_def)
qed

lemma rowOK_ranges:
  "delegationRowOK r \<Longrightarrow> d_ReviewLastWarnedBucket r \<in> insert None (Some ` {1..3})"
  "delegationRowOK r \<Longrightarrow> d_ReviewWindowDays r \<in> insert None (Some ` {1..180})"
  by (auto simp: delegationRowOK_def split: option.splits)

lemma rowOK_status:
  assumes "delegationRowOK r" "d_DeletedAt r = None" "openStatus (d_Status r)" "st \<noteq> DelegationScheduled" "st \<noteq> StatusZero"
  shows "delegationRowOK (touch_row now r (r\<lparr>d_Status := st\<rparr>))"
  using assms rowOK_ranges [OF assms(1)] by (intro rowOK_touch legal_change_status) auto

lemma touch_status:
  assumes "d_Status r \<noteq> st"
  shows "touch_row now r (r\<lparr>d_Status := st\<rparr>) = stamped now (r\<lparr>d_Status := st\<rparr>)"
proof -
  have "d_Status (r\<lparr>d_Status := st\<rparr>) \<noteq> d_Status r" using assms by simp
  then have "r\<lparr>d_Status := st\<rparr> \<noteq> r" by metis
  then show ?thesis by (simp add: touch_row_def stamped_def)
qed

lemma touch_close:
  assumes "openStatus (d_Status r)" "\<not> openStatus st"
  shows "touch_row now r (r\<lparr>d_Status := st\<rparr>) = stamped now (r\<lparr>d_Status := st\<rparr>)"
  using assms by (intro touch_status) auto

lemma FindByID_outcome:
  assumes "no_faults e" "request_ctx T c" "db_inv (db w)"
  shows "fst (DelegationRepository_FindByID e AppPool c T i w) =
    (case ledger T (db w) i of None \<Rightarrow> Inl notFound | Some r \<Rightarrow> Inr r)"
proof -
  let ?t = "\<lparr>tx_pool = AppPool, tx_guc = Some T, tx_now = pg_clock e (tick w)\<rparr>"
  have vis: "rls_visible ?t T" by (simp add: rls_visible_def)
  have "sql_select e ?t (liveRow T i) (bump w) = (Inr (case ledger T (db w) i of None \<Rightarrow> [] | Some r \<Rightarrow> [r]), bump (bump w))"
    using sql_select_ledger [OF assms(1) _ vis, of "bump w" i] assms(3) by simp
  with assms show ?thesis
    by (simp add: DelegationRepository_FindByID_def withPool_no_faults request_ctx_def split: option.split)
qed

lemma probe_ledger:
  assumes "no_faults e" "db_inv (db w)" "rls_visible t T"
  shows "fst (probeVersionConflict e t T i w) =
    (case ledger T (db w) i of
       None \<Rightarrow> Inl notFound
     | Some r \<Rightarrow> if openStatus (d_Status r) then Inl (versionConflict (d_RecordVersion r)) else Inl notFound)"
  using assms by (simp add: probeVersionConflict_def sql_select_ledger split: option.split)

lemma guarded_write_outcome:
  assumes "no_faults e" "request_ctx T c" "db_inv (db w)"
    and k: "\<And>t d w1. k t [d] w1 = (Inr (g d), w1)"
    and ok: "\<And>r now. ledger T (db w) i = Some r \<Longrightarrow> Q r \<Longrightarrow> delegationRowOK (touch_row now r (f r))"
    and miss: "\<And>t w1. rls_visible t T \<Longrightarrow> db w1 = db w \<Longrightarrow> fst (k t [] w1) = m"
    and plain: "\<And>err. m = Inl err \<Longrightarrow> wrapConnErr err = err"
  shows "fst (withPool e AppPool c (\<lambda>t w. bind_res (sql_update e t (\<lambda>r. liveRow T i r \<and> Q r) f w) (k t)) w) =
    (case ledger T (db w) i of
       None \<Rightarrow> m
     | Some r \<Rightarrow> if Q r then Inr (g (touch_row (pg_clock e (tick w)) r (f r))) else m)"
proof -
  let ?t = "\<lparr>tx_pool = AppPool, tx_guc = Some T, tx_now = pg_clock e (tick w)\<rparr>"
  have vis: "rls_visible ?t T" by (simp add: rls_visible_def)
  have "fst (bind_res (sql_update e ?t (\<lambda>r. liveRow T i r \<and> Q r) f (bump w)) (k ?t)) =
    (case ledger T (db w) i of
       None \<Rightarrow> m
     | Some r \<Rightarrow> if Q r then Inr (g (touch_row (pg_clock e (tick w)) r (f r))) else m)"
    using guarded_update_ledger [of e "bump w" ?t T "k ?t" g i Q f] assms vis
    by (simp split: option.split)
  with assms(1,2) plain show ?thesis
    by (auto simp: withPool_no_faults request_ctx_def split: option.split sum.split)
qed

lemma End_outcome:
  assumes "no_faults e" "request_ctx T c" "db_inv (db w)" "\<not> openStatus st" "st \<noteq> StatusZero"
  shows "fst (DelegationRepository_End e AppPool c T i st v w)
       = End_outcome (pg_clock e (tick w)) st v (ledger T (db w) i)"
proof -
  have ok: "delegationRowOK (touch_row now r (r\<lparr>d_Status := st\<rparr>))"
    if "ledger T (db w) i = Some r" "d_RecordVersion r = v \<and> openStatus (d_Status r)" for r now
    using that assms(3,4,5) ledger_SomeD [of T "db w" i r] ledger_rowOK [of "db w" T i r]
    by (intro rowOK_status) (auto simp: liveRow_def)
  let ?m = "case ledger T (db w) i of None \<Rightarrow> Inl notFound
     | Some r \<Rightarrow> if openStatus (d_Status r) then Inl (versionConflict (d_RecordVersion r)) else Inl notFound"
  have st: "touch_row now r (r\<lparr>d_Status := st\<rparr>) = stamped now (r\<lparr>d_Status := st\<rparr>)"
    if "openStatus (d_Status r)" for r now
    using that assms(4) by (intro touch_status) auto
  show ?thesis
    unfolding DelegationRepository_End_def
    by (subst guarded_write_outcome [OF assms(1-3), where g = "\<lambda>d. d" and m = ?m])
       (use ok assms in \<open>auto simp: st probe_ledger End_outcome_def split: option.splits if_splits\<close>)
qed

lemma Activate_outcome:
  assumes "no_faults e" "request_ctx T c" "db_inv (db w)"
  shows "fst (DelegationRepository_Activate e AppPool c T i v w)
       = Activate_outcome (pg_clock e (tick w)) v (ledger T (db w) i)"
proof -
  have ok: "delegationRowOK (touch_row now r (r\<lparr>d_Status := DelegationActive\<rparr>))"
    if "ledger T (db w) i = Some r" "d_RecordVersion r = v \<and> d_Status r = DelegationScheduled" for r now
    using that assms(3) ledger_SomeD [of T "db w" i r] ledger_rowOK [of "db w" T i r]
    by (intro rowOK_status) (auto simp: liveRow_def)
  show ?thesis
    unfolding DelegationRepository_Activate_def
    by (subst guarded_write_outcome [OF assms, where g = Some and m = "Inr None"])
       (use ok in \<open>auto simp: touch_status Activate_outcome_def split: option.split\<close>)
qed

lemma ExtendReview_outcome:
  assumes "no_faults e" "request_ctx T c" "db_inv (db w)" "1 \<le> n" "n \<le> 180"
  shows "fst (DelegationRepository_ExtendReview e AppPool c T i n v w)
       = ExtendReview_outcome (pg_clock e (tick w)) n v (ledger T (db w) i)"
proof -
  have ok: "delegationRowOK (touch_row now r (extendRow n r))"
    if "ledger T (db w) i = Some r"
       "d_RecordVersion r = v \<and> d_Status r = DelegationActive \<and> d_EndsAt r = None" for r now
    using that assms(3-5) ledger_SomeD [of T "db w" i r] ledger_rowOK [of "db w" T i r]
    by (intro rowOK_touch)
       (auto simp: liveRow_def extendRow_def legal_change_def same_grant_def legal_status_change_def)
  let ?m = "case ledger T (db w) i of
       None \<Rightarrow> Inl notFound
     | Some d \<Rightarrow> if d_EndsAt d \<noteq> None
        then Inl (domainErr ErrNotReviewTracked ''extend only applies to open-ended delegations (ends_at IS NULL)'')
        else if d_Status d \<noteq> DelegationActive then Inl notFound
        else Inl (versionConflict (d_RecordVersion d))"
  show ?thesis
    unfolding DelegationRepository_ExtendReview_def
    by (subst guarded_write_outcome [OF assms(1-3), where g = "\<lambda>d. d" and m = ?m])
       (use ok assms in \<open>auto simp: sql_select_ledger ExtendReview_outcome_def split: option.splits if_splits\<close>)
qed

section \<open>Bulk writes\<close>

definition involves :: "uuid \<Rightarrow> uuid \<Rightarrow> Delegation \<Rightarrow> bool" where
  "involves T u r \<longleftrightarrow> d_TenantID r = T \<and> (d_DelegatorID r = u \<or> d_DelegateID r = u)
     \<and> openStatus (d_Status r) \<and> d_DeletedAt r = None"

lemma withPool_update_ok:
  assumes "withPool e pool c (\<lambda>t. sql_update e t P (f t)) w = (Inr rows, w')"
  obtains t where "pool_tx pool c t"
    "rows = map (\<lambda>r. touch_row (tx_now t) r (f t r)) (rows_matching (\<lambda>r. rls_visible t (d_TenantID r) \<and> P r) (delegations (db w)))"
    "db w' = (db w)\<lparr>delegations := update_rows (\<lambda>r. rls_visible t (d_TenantID r) \<and> P r)
              (\<lambda>r. touch_row (tx_now t) r (f t r)) (delegations (db w))\<rparr>"
proof -
  from assms obtain t w0 w1 where "pool_tx pool c t" "db w0 = db w" "db w' = db w1"
    and u: "sql_update e t P (f t) w0 = (Inr rows, w1)"
    by (rule withPool_ok)
  with that sql_update_ok [OF u] show ?thesis by simp
qed

lemma EndForUser_alt:
  "DelegationRepository_EndForUser e pool c T u =
     withPool e pool c (\<lambda>t. sql_update e t (involves T u) (\<lambda>r. r\<lparr>d_Status := DelegationEnded, d_DeletedAt := Some (tx_now t)\<rparr>))"
  by (simp add: DelegationRepository_EndForUser_def involves_def [abs_def])

lemma EndForUser_ok:
  assumes "DelegationRepository_EndForUser e pool c T u w = (Inr rows, w')"
  obtains t where "pool_tx pool c t"
    "rows = map (\<lambda>r. touch_row (tx_now t) r (r\<lparr>d_Status := DelegationEnded, d_DeletedAt := Some (tx_now t)\<rparr>))
              (rows_matching (\<lambda>r. rls_visible t (d_TenantID r) \<and> involves T u r) (delegations (db w)))"
    "db w' = (db w)\<lparr>delegations := update_rows (\<lambda>r. rls_visible t (d_TenantID r) \<and> involves T u r)
              (\<lambda>r. touch_row (tx_now t) r (r\<lparr>d_Status := DelegationEnded, d_DeletedAt := Some (tx_now t)\<rparr>))
              (delegations (db w))\<rparr>"
  by (rule withPool_update_ok [OF assms [unfolded EndForUser_alt]]) (rule that)

definition delegateOpen :: "uuid \<Rightarrow> uuid \<Rightarrow> Delegation \<Rightarrow> bool" where
  "delegateOpen T u r \<longleftrightarrow> d_TenantID r = T \<and> d_DelegateID r = u
     \<and> openStatus (d_Status r) \<and> d_DeletedAt r = None"

lemma EndForDisabledDelegate_alt:
  "DelegationRepository_EndForDisabledDelegate e pool c T u =
     withPool e pool c (\<lambda>t. sql_update e t (delegateOpen T u) (\<lambda>r. r\<lparr>d_Status := DelegationEnded\<rparr>))"
  by (simp add: DelegationRepository_EndForDisabledDelegate_def delegateOpen_def [abs_def])

lemma EndForDisabledDelegate_ok:
  assumes "DelegationRepository_EndForDisabledDelegate e pool c T u w = (Inr rows, w')"
  obtains t where "pool_tx pool c t"
    "rows = map (\<lambda>r. touch_row (tx_now t) r (r\<lparr>d_Status := DelegationEnded\<rparr>))
              (rows_matching (\<lambda>r. rls_visible t (d_TenantID r) \<and> delegateOpen T u r) (delegations (db w)))"
    "db w' = (db w)\<lparr>delegations := update_rows (\<lambda>r. rls_visible t (d_TenantID r) \<and> delegateOpen T u r)
              (\<lambda>r. touch_row (tx_now t) r (r\<lparr>d_Status := DelegationEnded\<rparr>)) (delegations (db w))\<rparr>"
  by (rule withPool_update_ok [OF assms [unfolded EndForDisabledDelegate_alt]]) (rule that)

text \<open>In a context bound to the tenant, with the trigger's stamp written out.\<close>

definition removedRow :: "time \<Rightarrow> Delegation \<Rightarrow> Delegation" where
  "removedRow now r = stamped now (r\<lparr>d_Status := DelegationEnded, d_DeletedAt := Some now\<rparr>)"

definition endedRow :: "time \<Rightarrow> Delegation \<Rightarrow> Delegation" where
  "endedRow now r = stamped now (r\<lparr>d_Status := DelegationEnded\<rparr>)"

lemma touch_removed: "openStatus (d_Status r) \<Longrightarrow>
    touch_row now r (r\<lparr>d_Status := DelegationEnded, d_DeletedAt := Some now\<rparr>) = removedRow now r"
proof -
  assume "openStatus (d_Status r)"
  then have "d_Status (r\<lparr>d_Status := DelegationEnded, d_DeletedAt := Some now\<rparr>) \<noteq> d_Status r" by auto
  then have "r\<lparr>d_Status := DelegationEnded, d_DeletedAt := Some now\<rparr> \<noteq> r" by metis
  then show ?thesis by (simp add: touch_row_def removedRow_def stamped_def)
qed

lemma EndForUser_bound:
  assumes "bound_ctx T c" "DelegationRepository_EndForUser e AppPool c T u w = (Inr rows, w')"
  obtains now where "rows = map (removedRow now) (rows_matching (involves T u) (delegations (db w)))"
    "db w' = (db w)\<lparr>delegations := update_rows (involves T u) (removedRow now) (delegations (db w))\<rparr>"
proof -
  obtain t where t: "pool_tx AppPool c t"
    and rows: "rows = map (\<lambda>r. touch_row (tx_now t) r (r\<lparr>d_Status := DelegationEnded, d_DeletedAt := Some (tx_now t)\<rparr>))
              (rows_matching (\<lambda>r. rls_visible t (d_TenantID r) \<and> involves T u r) (delegations (db w)))"
    and db: "db w' = (db w)\<lparr>delegations := update_rows (\<lambda>r. rls_visible t (d_TenantID r) \<and> involves T u r)
              (\<lambda>r. touch_row (tx_now t) r (r\<lparr>d_Status := DelegationEnded, d_DeletedAt := Some (tx_now t)\<rparr>))
              (delegations (db w))\<rparr>"
    by (rule EndForUser_ok [OF assms(2)]) (rule that)
  have vis: "(rls_visible t (d_TenantID r) \<and> involves T u r) = involves T u r" for r
    using bound_ctx_visible [OF assms(1) t] by (auto simp: involves_def)
  have tch: "involves T u r \<Longrightarrow>
      touch_row (tx_now t) r (r\<lparr>d_Status := DelegationEnded, d_DeletedAt := Some (tx_now t)\<rparr>) = removedRow (tx_now t) r" for r
    by (rule touch_removed) (simp add: involves_def)
  from rows db show ?thesis
    by (intro that [of "tx_now t"]) (auto simp: vis rows_matching_def update_rows_def tch)
qed

lemma EndForDisabledDelegate_bound:
  assumes "bound_ctx T c" "DelegationRepository_EndForDisabledDelegate e AppPool c T u w = (Inr rows, w')"
  obtains now where "rows = map (endedRow now) (rows_matching (delegateOpen T u) (delegations (db w)))"
    "db w' = (db w)\<lparr>delegations := update_rows (delegateOpen T u) (endedRow now) (delegations (db w))\<rparr>"
proof -
  obtain t where t: "pool_tx AppPool c t"
    and rows: "rows = map (\<lambda>r. touch_row (tx_now t) r (r\<lparr>d_Status := DelegationEnded\<rparr>))
              (rows_matching (\<lambda>r. rls_visible t (d_TenantID r) \<and> delegateOpen T u r) (delegations (db w)))"
    and db: "db w' = (db w)\<lparr>delegations := update_rows (\<lambda>r. rls_visible t (d_TenantID r) \<and> delegateOpen T u r)
              (\<lambda>r. touch_row (tx_now t) r (r\<lparr>d_Status := DelegationEnded\<rparr>)) (delegations (db w))\<rparr>"
    by (rule EndForDisabledDelegate_ok [OF assms(2)]) (rule that)
  have vis: "(rls_visible t (d_TenantID r) \<and> delegateOpen T u r) = delegateOpen T u r" for r
    using bound_ctx_visible [OF assms(1) t] by (auto simp: delegateOpen_def)
  have tch: "delegateOpen T u r \<Longrightarrow>
      touch_row (tx_now t) r (r\<lparr>d_Status := DelegationEnded\<rparr>) = endedRow (tx_now t) r" for r
    by (simp add: touch_close endedRow_def delegateOpen_def)
  from rows db show ?thesis
    by (intro that [of "tx_now t"]) (auto simp: vis rows_matching_def update_rows_def tch)
qed

lemma listWhere_ok:
  assumes "DelegationRepository_listWhere e pool c P ord w = (Inr rows, w')"
  obtains t where "pool_tx pool c t"
    "rows = ord (rows_matching (\<lambda>r. rls_visible t (d_TenantID r) \<and> P r) (delegations (db w)))"
proof -
  from assms obtain t w0 w1 where t: "pool_tx pool c t" "db w0 = db w"
    and u: "bind_res (sql_select e t P w0) (\<lambda>rows w. (Inr (ord rows), w)) = (Inr rows, w1)"
    unfolding DelegationRepository_listWhere_def by (rule withPool_ok)
  from u obtain rs w2 where "sql_select e t P w0 = (Inr rs, w2)" "rows = ord rs"
    by (auto simp: res_iff)
  with that [OF t(1)] t(2) show ?thesis by (auto dest: sql_select_ok)
qed

text \<open>
  The hard purge: what it removes was soft-deleted before the cutoff, at most \<open>limit\<close> rows go,
  oldest deletion first, and it reports how many went.
\<close>

lemma HardPurge_ok:
  assumes inv: "db_inv (db w)"
    and run: "DelegationRepository_HardPurgeSoftDeletedBefore e pool c before limit w = (Inr n, w')"
  obtains t gone where "pool_tx pool c t"
    "gone = order_limit (\<lambda>r. the (d_DeletedAt r)) (limitOrDefault limit)
       (rows_matching (\<lambda>r. rls_visible t (d_TenantID r) \<and> purgeableRow before r) (delegations (db w)))"
    "db w' = (db w)\<lparr>delegations := filter (\<lambda>r. r \<notin> set gone) (delegations (db w))\<rparr>" "n = int (length gone)"
proof -
  from run obtain t w0 w1 where t: "pool_tx pool c t" "db w0 = db w" "db w' = db w1"
    and u: "stmt e (\<lambda>w.
       (let rows = delegations (db w);
            victims = order_limit (\<lambda>r. the (d_DeletedAt r)) (limitOrDefault limit)
                        (rows_matching (\<lambda>r. rls_visible t (d_TenantID r) \<and> purgeableRow before r) rows);
            gone = (\<lambda>r. rls_visible t (d_TenantID r) \<and> d_ID r \<in> d_ID ` set victims)
        in (Inr (int (length (rows_matching gone rows))),
            w\<lparr>db := (db w)\<lparr>delegations := rows_matching (\<lambda>r. \<not> gone r) rows\<rparr>\<rparr>))) w0 = (Inr n, w1)"
    unfolding DelegationRepository_HardPurgeSoftDeletedBefore_def by (rule withPool_ok)
  define rows where "rows = delegations (db w)"
  define hit where "hit = (\<lambda>r. rls_visible t (d_TenantID r) \<and> purgeableRow before r)"
  define gone where "gone = order_limit (\<lambda>r. the (d_DeletedAt r)) (limitOrDefault limit) (rows_matching hit rows)"
  let ?G = "\<lambda>r. rls_visible t (d_TenantID r) \<and> d_ID r \<in> d_ID ` set gone"
  have dist: "distinct (map d_ID rows)" using inv by (simp add: db_inv_def rows_def)
  have sub: "set gone \<subseteq> {r \<in> set rows. hit r}"
    using set_order_limit [of _ _ "rows_matching hit rows"] by (auto simp: gone_def rows_matching_def)
  have G: "?G r \<longleftrightarrow> r \<in> set gone" if "r \<in> set rows" for r
    using that sub dist by (auto simp: hit_def dest: distinct_key_eq)
  have "distinct (map d_ID gone)" using dist by (simp add: gone_def distinct_map_filter_take)
  then have "length gone = card (set gone)" by (metis distinct_card distinct_map)
  also have "set gone = set (filter (\<lambda>r. r \<in> set gone) rows)" using sub by auto
  also have "card \<dots> = length (filter (\<lambda>r. r \<in> set gone) rows)"
    using dist by (intro distinct_card) (auto simp: distinct_map)
  finally have len: "length (rows_matching ?G rows) = length gone"
    using G by (simp add: rows_matching_def cong: filter_cong)
  have keep: "rows_matching (\<lambda>r. \<not> ?G r) rows = filter (\<lambda>r. r \<notin> set gone) rows"
    unfolding rows_matching_def using G by (intro filter_cong) auto
  from u t(2) have "n = int (length (rows_matching ?G rows))"
     "db w1 = (db w)\<lparr>delegations := rows_matching (\<lambda>r. \<not> ?G r) rows\<rparr>"
    by (auto simp: stmt_def Let_def gone_def hit_def rows_def split: option.splits)
  with len keep that [OF t(1) gone_def [unfolded hit_def rows_def]] t(3) show ?thesis
    by (simp add: rows_def)
qed

section \<open>Only the database\<close>

lemma same_ext_refl [simp]: "same_ext w w"
  by (rule ext.frame_refl)

lemma same_ext_db [simp]: "same_ext w (w\<lparr>db := d\<rparr>)"
  by (simp add: same_ext_def)

lemma probe_ext [simp]: "same_ext w (snd (probeVersionConflict e t T i w))"
  unfolding probeVersionConflict_def by (rule ext.frame_bind) (auto split: list.split)

lemma ext_update [simp]:
  assumes "\<And>t rows w1. same_ext w1 (snd (k t rows w1))"
  shows "same_ext w (snd (withPool e pool c (\<lambda>t w. bind_res (sql_update e t (P t) (f t) w) (k t)) w))"
  by (intro ext.frame_withPool ext.frame_bind) (simp_all add: assms)

lemma ext_select [simp]:
  assumes "\<And>t rows w1. same_ext w1 (snd (k t rows w1))"
  shows "same_ext w (snd (withPool e pool c (\<lambda>t w. bind_res (sql_select e t (P t) w) (k t)) w))"
  by (intro ext.frame_withPool ext.frame_bind) (simp_all add: assms)

lemma repository_ext [simp]:
  "same_ext w (snd (DelegationRepository_listWhere e pool c P ord w))"
  "same_ext w (snd (DelegationRepository_FindByID e pool c T i w))"
  "same_ext w (snd (DelegationRepository_Insert e pool c d w))"
  "same_ext w (snd (DelegationRepository_End e pool c T i st v w))"
  "same_ext w (snd (DelegationRepository_Activate e pool c T i v w))"
  "same_ext w (snd (DelegationRepository_MarkReviewWarned e pool c T i b v w))"
  "same_ext w (snd (DelegationRepository_SoftDeleteTenant e pool c T w))"
  "same_ext w (snd (DelegationRepository_EndForUser e pool c T u w))"
  "same_ext w (snd (DelegationRepository_EndForDisabledDelegate e pool c T u w))"
  by (auto simp: DelegationRepository_listWhere_def DelegationRepository_FindByID_def DelegationRepository_Insert_def
      DelegationRepository_End_def DelegationRepository_Activate_def DelegationRepository_MarkReviewWarned_def
      DelegationRepository_SoftDeleteTenant_def DelegationRepository_EndForUser_def
      DelegationRepository_EndForDisabledDelegate_def Let_def
      intro!: ext_update ext_select ext.frame_withPool split: list.split)

lemma ExtendReview_ext [simp]: "same_ext w (snd (DelegationRepository_ExtendReview e pool c T i n v w))"
  unfolding DelegationRepository_ExtendReview_def
  by (rule ext_update) (auto split: list.split intro!: ext.frame_bind)

section \<open>The ledger after a write\<close>

text \<open>
  The ledgers as functions, after one row is written: the entry is the new row, and every other
  entry, of this tenant and of the others, is what it was.
\<close>

lemma find_map_same: "(\<And>x. x \<in> set xs \<Longrightarrow> P (g x) \<longleftrightarrow> P x) \<Longrightarrow> find P (map g xs) = map_option g (find P xs)"
  by (induction xs) auto

lemma ledger_wrote_row:
  assumes "db_inv d" "wrote_row d d' r x" "liveRow T i r" "liveRow T i x"
  shows "ledger T' d' j = (if T' = T \<and> j = i then Some x else ledger T' d j)"
proof -
  let ?g = "\<lambda>y. if d_ID y = i then x else y"
  have r: "r \<in> set (delegations d)" and id: "d_ID r = i"
    using assms by (simp_all add: wrote_row_def liveRow_def)
  have same: "y = r" if "y \<in> set (delegations d)" "d_ID y = i" for y
    using that r id assms(1) by (auto simp: db_inv_def intro: distinct_key_eq)
  have keep: "liveRow T' j (?g y) \<longleftrightarrow> liveRow T' j y" if "y \<in> set (delegations d)" for y
    using same [OF that] assms(3,4) by (cases "d_ID y = i") (auto simp: liveRow_def)
  have "ledger T' d' j = map_option ?g (ledger T' d j)"
    using assms(2) id keep unfolding ledger_def wrote_row_def by (auto intro: find_map_same)
  also have "\<dots> = (if T' = T \<and> j = i then Some x else ledger T' d j)"
  proof (cases "T' = T \<and> j = i")
    case True
    with ledger_Some [OF assms(1) r assms(3)] id show ?thesis by simp
  next
    case False
    have "?g y = y" if "ledger T' d j = Some y" for y
      using False ledger_SomeD [OF that] same assms(3) by (auto simp: liveRow_def)
    with False show ?thesis by (cases "ledger T' d j") auto
  qed
  finally show ?thesis .
qed

lemma End_state:
  assumes "request_ctx T c" "db_inv (db w)" "\<not> openStatus st" "DelegationRepository_End e AppPool c T i st v w = (res, w')"
  shows "db w' = (case res of Inl err \<Rightarrow> db w
      | Inr d \<Rightarrow> (db w)\<lparr>delegations := map (\<lambda>x. if d_ID x = i then d else x) (delegations (db w))\<rparr>)"
    "ledger T' (db w') j = (case res of Inl err \<Rightarrow> ledger T' (db w) j
      | Inr d \<Rightarrow> if T' = T \<and> j = i then Some d else ledger T' (db w) j)"
proof -
  have err: "db w' = db w" if "res = Inl err" for err
    using assms(1,4) that unfolding DelegationRepository_End_def
    by (auto simp: request_ctx_def dest: withPool_error)
  have ok: "db w' = (db w)\<lparr>delegations := map (\<lambda>x. if d_ID x = i then d else x) (delegations (db w))\<rparr>"
    "ledger T' (db w') j = (if T' = T \<and> j = i then Some d else ledger T' (db w) j)" if d: "res = Inr d" for d
  proof -
    obtain t :: tx and r where r: "liveRow T i r" "d = touch_row (tx_now t) r (r\<lparr>d_Status := st\<rparr>)" "wrote_row (db w) (db w') r d"
      by (rule End_ok [OF assms(2) assms(4) [unfolded d]]) (rule that)
    then have "liveRow T i d" by (auto simp: liveRow_def touch_row_def)
    with r show "ledger T' (db w') j = (if T' = T \<and> j = i then Some d else ledger T' (db w) j)"
      by (intro ledger_wrote_row [OF assms(2)])
    show "db w' = (db w)\<lparr>delegations := map (\<lambda>x. if d_ID x = i then d else x) (delegations (db w))\<rparr>"
      using r by (simp add: wrote_row_def liveRow_def)
  qed
  show "db w' = (case res of Inl err \<Rightarrow> db w
      | Inr d \<Rightarrow> (db w)\<lparr>delegations := map (\<lambda>x. if d_ID x = i then d else x) (delegations (db w))\<rparr>)"
    using err ok(1) by (cases res) auto
  show "ledger T' (db w') j = (case res of Inl err \<Rightarrow> ledger T' (db w) j
      | Inr d \<Rightarrow> if T' = T \<and> j = i then Some d else ledger T' (db w) j)"
    using err ok(2) by (cases res) auto
qed

end
