(* ===== verification/Repositories.thy ===== *)
theory Repositories
  imports DelegationRepository
begin

text \<open>
  The other Postgres repositories: \<^verbatim>\<open>settings_repository.go\<close> (the tenant's policy row),
  \<^verbatim>\<open>processed_events.go\<close> (the ledger that deduplicates consumed events; exempt from
  row-level security) and \<^verbatim>\<open>gauge_repository.go\<close> (the count behind the active-delegations
  gauge), with the thin \<^verbatim>\<open>core/service/settings_service.go\<close> above the first.

  The locale \<open>event_ledger\<close> is what the consumer relies on of the processed-events
  repository; it is interpreted on it.
\<close>

section \<open>Settings\<close>

definition SettingsRepository_Get :: "env \<Rightarrow> ctx \<Rightarrow> uuid \<Rightarrow> world \<Rightarrow> (error, DelegationTenantSettings, world) outcome" where
  "SettingsRepository_Get e c tenantID =
     withPool e AppPool c (\<lambda>t. stmt e (\<lambda>w.
       case (if rls_visible t tenantID then tenant_settings (db w) tenantID else None) of
         None \<Rightarrow> (Inr (DefaultDelegationTenantSettings tenantID), w)
       | Some s \<Rightarrow> (Inr s, w)))"

text \<open>The row \<open>INSERT ... ON CONFLICT (tenant_id) DO UPDATE\<close> leaves, the trigger included.\<close>

definition upsertedSettings :: "time \<Rightarrow> uuid \<Rightarrow> int \<Rightarrow> int \<Rightarrow> DelegationTenantSettings option \<Rightarrow> DelegationTenantSettings" where
  "upsertedSettings now tenantID maxDurationDays reviewWindowDays old =
     (case old of
        None \<Rightarrow> \<lparr>s_TenantID = tenantID, s_MaxDurationDays = maxDurationDays,
                 s_ReviewWindowDays = reviewWindowDays, s_RecordVersion = 1,
                 s_CreatedAt = now, s_UpdatedAt = now\<rparr>
      | Some s \<Rightarrow>
          (let s' = s\<lparr>s_MaxDurationDays := maxDurationDays, s_ReviewWindowDays := reviewWindowDays\<rparr>
           in if s' = s then s
              else s'\<lparr>s_UpdatedAt := now, s_RecordVersion := s_RecordVersion s + 1\<rparr>))"

definition SettingsRepository_Upsert :: "env \<Rightarrow> ctx \<Rightarrow> uuid \<Rightarrow> int \<Rightarrow> int \<Rightarrow> world \<Rightarrow> (error, DelegationTenantSettings, world) outcome" where
  "SettingsRepository_Upsert e c tenantID maxDurationDays reviewWindowDays =
     withPool e AppPool c (\<lambda>t. stmt e (\<lambda>w.
       (let row = upsertedSettings (tx_now t) tenantID maxDurationDays reviewWindowDays (tenant_settings (db w) tenantID)
        in if \<not> rls_visible t tenantID then (Inl rlsViolation, w)
           else if \<not> settingsRowOK row then (Inl checkViolation, w)
           else (Inr row, w\<lparr>db := (db w)\<lparr>tenant_settings := (tenant_settings (db w))(tenantID \<mapsto> row)\<rparr>\<rparr>))))"

definition SettingsRepository_SoftDeleteTenant :: "env \<Rightarrow> ctx \<Rightarrow> uuid \<Rightarrow> world \<Rightarrow> (error, unit, world) outcome" where
  "SettingsRepository_SoftDeleteTenant e c tenantID =
     withPool e AppPool c (\<lambda>t. stmt e (\<lambda>w.
       (Inr (), if rls_visible t tenantID
                then w\<lparr>db := (db w)\<lparr>tenant_settings := (tenant_settings (db w))(tenantID := None)\<rparr>\<rparr> else w)))"

definition SettingsService_Get :: "env \<Rightarrow> ctx \<Rightarrow> uuid \<Rightarrow> world \<Rightarrow> (error, DelegationTenantSettings, world) outcome" where
  "SettingsService_Get e c tenantID = SettingsRepository_Get e c tenantID"

definition SettingsService_Set :: "env \<Rightarrow> ctx \<Rightarrow> uuid \<Rightarrow> int \<Rightarrow> int \<Rightarrow> world \<Rightarrow> (error, DelegationTenantSettings, world) outcome" where
  "SettingsService_Set e c tenantID maxDurationDays reviewWindowDays w =
     (if maxDurationDays < PolicyDaysMin \<or> maxDurationDays > PolicyDaysMax
      then (Inl (domainErr ErrInvalidDelegationMaxDurationDays ''max_duration_days must be between 1 and 180''), w)
      else if reviewWindowDays < PolicyDaysMin \<or> reviewWindowDays > PolicyDaysMax
      then (Inl (domainErr ErrInvalidDelegationReviewWindow ''review_window_days must be between 1 and 180''), w)
      else SettingsRepository_Upsert e c tenantID maxDurationDays reviewWindowDays w)"

section \<open>Processed events\<close>

definition ProcessedEventsRepository_IsProcessed :: "env \<Rightarrow> ctx \<Rightarrow> string \<Rightarrow> string \<Rightarrow> world \<Rightarrow> (error, bool, world) outcome" where
  "ProcessedEventsRepository_IsProcessed e c consumer eventID =
     withPool e SysPool c (\<lambda>t. stmt e (\<lambda>w.
       (Inr ((eventID, consumer) \<in> processedKey ` set (processed_events (db w))), w)))"

definition ProcessedEventsRepository_MarkProcessed :: "env \<Rightarrow> ctx \<Rightarrow> string \<Rightarrow> string \<Rightarrow> world \<Rightarrow> (error, unit, world) outcome" where
  "ProcessedEventsRepository_MarkProcessed e c consumer eventID =
     withPool e SysPool c (\<lambda>t. stmt e (\<lambda>w.
       (Inr (), if (eventID, consumer) \<in> processedKey ` set (processed_events (db w)) then w
                else w\<lparr>db := (db w)\<lparr>processed_events := processed_events (db w) @ [(eventID, consumer, tx_now t)]\<rparr>\<rparr>)))"

definition ProcessedEventsRepository_CleanupExpired :: "env \<Rightarrow> ctx \<Rightarrow> duration \<Rightarrow> world \<Rightarrow> (error, unit, world) outcome" where
  "ProcessedEventsRepository_CleanupExpired e c olderThan =
     withPool e SysPool c (\<lambda>t. stmt e (\<lambda>w.
       (Inr (), w\<lparr>db := (db w)\<lparr>processed_events :=
          filter (\<lambda>p. \<not> snd (snd p) < tx_now t - olderThan) (processed_events (db w))\<rparr>\<rparr>)))"

definition negativeLimit :: error where
  "negativeLimit = pgError ''2201W'' ''ERROR: LIMIT must not be negative (SQLSTATE 2201W)''"

definition ProcessedEventsRepository_Prune :: "env \<Rightarrow> ctx \<Rightarrow> int \<Rightarrow> int \<Rightarrow> world \<Rightarrow> (error, int, world) outcome" where
  "ProcessedEventsRepository_Prune e c ttlDays limit =
     withPool e SysPool c (\<lambda>t. stmt e (\<lambda>w.
       (let rows = processed_events (db w);
            old = take (nat limit) (filter (\<lambda>p. snd (snd p) < tx_now t - ttlDays * day) rows);
            gone = (\<lambda>p. processedKey p \<in> processedKey ` set old)
        in if limit < 0 then (Inl negativeLimit, w)
           else (Inr (int (length (filter gone rows))),
                 w\<lparr>db := (db w)\<lparr>processed_events := filter (\<lambda>p. \<not> gone p) rows\<rparr>\<rparr>))))"

section \<open>The gauge\<close>

definition GaugeRepository_CountActiveByTenant :: "env \<Rightarrow> world \<Rightarrow> (error, uuid \<Rightarrow> nat option, world) outcome" where
  "GaugeRepository_CountActiveByTenant e w =
     wrap_out (stmt e (\<lambda>w.
       (let act = filter (\<lambda>r. d_Status r = DelegationActive \<and> d_DeletedAt r = None) (delegations (db w))
        in (Inr (\<lambda>T. let n = length (filter (\<lambda>r. d_TenantID r = T) act) in if n = 0 then None else Some n), w))) w)"

section \<open>Frames\<close>

lemma Settings_Get_db [simp]: "db (snd (SettingsRepository_Get e c T w)) = db w"
  unfolding SettingsRepository_Get_def
  by (intro same_db.w.frame_withPool same_db.w.frame_stmt) (auto split: option.split)

lemma upsertedSettings_TenantID:
  "(\<And>s. old = Some s \<Longrightarrow> s_TenantID s = T) \<Longrightarrow> s_TenantID (upsertedSettings now T m r old) = T"
  by (auto simp: upsertedSettings_def Let_def split: option.split)

lemma db_evolves_other [simp]:
  "db_evolves d (d\<lparr>tenant_settings := x\<rparr>)" "db_evolves d (d\<lparr>processed_events := y\<rparr>)"
  by (auto simp: db_evolves_def)

lemma Settings_Upsert_step: "db_step (db w) (db (snd (SettingsRepository_Upsert e c T m r w)))"
  unfolding SettingsRepository_Upsert_def
  by (intro step.w.frame_withPool step.w.frame_stmt)
     (auto simp: Let_def db_step_def db_inv_def upsertedSettings_TenantID)

lemma Settings_SoftDeleteTenant_step: "db_step (db w) (db (snd (SettingsRepository_SoftDeleteTenant e c T w)))"
  unfolding SettingsRepository_SoftDeleteTenant_def
  by (intro step.w.frame_withPool step.w.frame_stmt) (auto simp: db_step_def db_inv_def)

lemma IsProcessed_db [simp]: "db (snd (ProcessedEventsRepository_IsProcessed e c k i w)) = db w"
  unfolding ProcessedEventsRepository_IsProcessed_def
  by (intro same_db.w.frame_withPool same_db.w.frame_stmt) auto

lemma MarkProcessed_step: "db_step (db w) (db (snd (ProcessedEventsRepository_MarkProcessed e c k i w)))"
  unfolding ProcessedEventsRepository_MarkProcessed_def
proof (intro step.w.frame_withPool step.w.frame_stmt)
  fix t :: tx and w1 :: world
  show "db_step (db (bump w1)) (db (snd (Inr (), if (i, k) \<in> processedKey ` set (processed_events (db (bump w1))) then bump w1
      else (bump w1)\<lparr>db := (db (bump w1))\<lparr>processed_events := processed_events (db (bump w1)) @ [(i, k, tx_now t)]\<rparr>\<rparr>)))"
    by (simp add: db_step_def db_inv_def processedKey_def)
qed

lemma distinct_map_filterI: "distinct (map f xs) \<Longrightarrow> distinct (map f (filter P xs))"
  by (rule distinct_map_filter)

lemma CleanupExpired_step: "db_step (db w) (db (snd (ProcessedEventsRepository_CleanupExpired e c d w)))"
  unfolding ProcessedEventsRepository_CleanupExpired_def
  by (intro step.w.frame_withPool step.w.frame_stmt) (auto simp: db_step_def db_inv_def distinct_map_filterI)

lemma Prune_step: "db_step (db w) (db (snd (ProcessedEventsRepository_Prune e c n l w)))"
  unfolding ProcessedEventsRepository_Prune_def
  by (intro step.w.frame_withPool step.w.frame_stmt)
     (auto simp: Let_def db_step_def db_inv_def distinct_map_filterI)

lemma Settings_Upsert_iso:
  "tenant_ctx T c \<Longrightarrow> other_tenants_kept T (db w) (db (snd (SettingsRepository_Upsert e c T' m r w)))"
  unfolding SettingsRepository_Upsert_def
  by (intro iso.w.frame_withPool iso.w.frame_stmt)
     (auto simp: Let_def other_tenants_kept_def dest: tenant_ctx_pool_tx tenant_tx_visible)

lemma Settings_SoftDeleteTenant_iso:
  "tenant_ctx T c \<Longrightarrow> other_tenants_kept T (db w) (db (snd (SettingsRepository_SoftDeleteTenant e c T' w)))"
  unfolding SettingsRepository_SoftDeleteTenant_def
  by (intro iso.w.frame_withPool iso.w.frame_stmt)
     (auto simp: other_tenants_kept_def dest: tenant_ctx_pool_tx tenant_tx_visible)

lemma MarkProcessed_iso: "other_tenants_kept T (db w) (db (snd (ProcessedEventsRepository_MarkProcessed e c k i w)))"
  unfolding ProcessedEventsRepository_MarkProcessed_def
  by (intro iso.w.frame_withPool iso.w.frame_stmt) (auto simp: other_tenants_kept_def)

section \<open>Outcomes\<close>

lemma Settings_Get_ok:
  assumes inv: "db_inv (db w)" and run: "SettingsRepository_Get e c T w = (Inr s, w')"
  shows "s_TenantID s = T" "1 \<le> s_MaxDurationDays s" "s_MaxDurationDays s \<le> 180"
    "1 \<le> s_ReviewWindowDays s" "s_ReviewWindowDays s \<le> 180"
proof -
  from run obtain t w0 w1 where "db w0 = db w"
    and u: "stmt e (\<lambda>w. case (if rls_visible t T then tenant_settings (db w) T else None) of
         None \<Rightarrow> (Inr (DefaultDelegationTenantSettings T), w) | Some s \<Rightarrow> (Inr s, w)) w0 = (Inr s, w1)"
    unfolding SettingsRepository_Get_def by (rule withPool_ok)
  then have "s = DefaultDelegationTenantSettings T \<or> tenant_settings (db w) T = Some s"
    by (auto simp: stmt_def split: option.splits if_splits)
  then have "s_TenantID s = T \<and> 1 \<le> s_MaxDurationDays s \<and> s_MaxDurationDays s \<le> 180
    \<and> 1 \<le> s_ReviewWindowDays s \<and> s_ReviewWindowDays s \<le> 180"
    using inv
    by (auto simp: db_inv_def settingsRowOK_def DefaultDelegationTenantSettings_def
        DefaultMaxDurationDays_def DefaultReviewWindowDays_def)
  then show "s_TenantID s = T" "1 \<le> s_MaxDurationDays s" "s_MaxDurationDays s \<le> 180"
    "1 \<le> s_ReviewWindowDays s" "s_ReviewWindowDays s \<le> 180" by simp_all
qed

lemma Settings_Upsert_ok:
  assumes "SettingsRepository_Upsert e c T m r w = (Inr s, w')"
  shows "s_MaxDurationDays s = m \<and> s_ReviewWindowDays s = r \<and> settingsRowOK s
    \<and> tenant_settings (db w') T = Some s"
proof -
  have fields: "s_MaxDurationDays (upsertedSettings now T m r old) = m \<and>
    s_ReviewWindowDays (upsertedSettings now T m r old) = r" for now old
  proof (cases old)
    case (Some x)
    have "x\<lparr>s_MaxDurationDays := m, s_ReviewWindowDays := r\<rparr> = x \<Longrightarrow> s_MaxDurationDays x = m \<and> s_ReviewWindowDays x = r"
      by (metis DelegationTenantSettings.select_convs(2,3) DelegationTenantSettings.surjective DelegationTenantSettings.update_convs(2,3))
    with Some show ?thesis by (auto simp: upsertedSettings_def Let_def)
  qed (simp add: upsertedSettings_def)
  show ?thesis
    using assms unfolding SettingsRepository_Upsert_def
    by (elim withPool_ok) (auto simp: stmt_def Let_def fields split: option.splits if_splits)
qed

definition event_seen :: "string \<Rightarrow> string \<Rightarrow> db \<Rightarrow> bool" where
  "event_seen consumer eventID d \<longleftrightarrow> (eventID, consumer) \<in> processedKey ` set (processed_events d)"

locale event_ledger =
  fixes is_processed :: "ctx \<Rightarrow> string \<Rightarrow> string \<Rightarrow> world \<Rightarrow> (error, bool, world) outcome"
    and mark_processed :: "ctx \<Rightarrow> string \<Rightarrow> string \<Rightarrow> world \<Rightarrow> (error, unit, world) outcome"
    and seen :: "string \<Rightarrow> string \<Rightarrow> db \<Rightarrow> bool"
  assumes is_processed_ok: "is_processed c k i w = (Inr b, w') \<Longrightarrow> b = seen k i (db w)"
    and is_processed_db: "db (snd (is_processed c k i w)) = db w"
    and mark_ok: "mark_processed c k i w = (Inr u, w') \<Longrightarrow> seen k i (db w')"
    and mark_keeps: "mark_processed c k i w = (Inr u, w') \<Longrightarrow> seen k' i' (db w) \<Longrightarrow> seen k' i' (db w')"
begin

lemma marked_is_seen:
  assumes "mark_processed c k i w = (Inr u, w1)" "is_processed c' k i w1 = (Inr b, w2)"
  shows b
  using is_processed_ok [OF assms(2)] mark_ok [OF assms(1)] by simp

lemma unseen_stays_unseen:
  "is_processed c k i w = (Inr False, w') \<Longrightarrow> \<not> seen k i (db w')"
  using is_processed_ok is_processed_db by (metis snd_conv)

end

interpretation ledger: event_ledger "ProcessedEventsRepository_IsProcessed e" "ProcessedEventsRepository_MarkProcessed e" event_seen
proof unfold_locales
  fix c k i w b w'
  assume "ProcessedEventsRepository_IsProcessed e c k i w = (Inr b, w')"
  then show "b = event_seen k i (db w)"
    unfolding ProcessedEventsRepository_IsProcessed_def
    by (elim withPool_ok) (auto simp: stmt_def event_seen_def split: option.splits)
next
  fix c k i w and u :: unit and w' k' i'
  assume "ProcessedEventsRepository_MarkProcessed e c k i w = (Inr u, w')"
  then have "processedKey ` set (processed_events (db w')) = insert (i, k) (processedKey ` set (processed_events (db w)))"
    unfolding ProcessedEventsRepository_MarkProcessed_def
    by (elim withPool_ok) (auto simp: stmt_def processedKey_def insert_absorb split: option.splits if_splits)
  then show "event_seen k i (db w')" "event_seen k' i' (db w) \<Longrightarrow> event_seen k' i' (db w')"
    by (simp_all add: event_seen_def)
qed simp

text \<open>Pruning never drops a ledger entry younger than the retention, so redelivery within it stays deduplicated.\<close>

lemma Prune_ok:
  assumes inv: "db_inv (db w)" and run: "ProcessedEventsRepository_Prune e c n l w = (Inr m, w')"
  obtains t where "pool_tx SysPool c t" "0 \<le> l" "m \<le> l"
    "\<And>p. p \<in> set (processed_events (db w)) \<Longrightarrow> snd (snd p) \<ge> tx_now t - n * day \<Longrightarrow> p \<in> set (processed_events (db w'))"
    "set (processed_events (db w')) \<subseteq> set (processed_events (db w))"
proof -
  from run obtain t w0 w1 where t: "pool_tx SysPool c t" "db w0 = db w" "db w' = db w1"
    and u: "stmt e (\<lambda>w.
       (let rows = processed_events (db w);
            old = take (nat l) (filter (\<lambda>p. snd (snd p) < tx_now t - n * day) rows);
            gone = (\<lambda>p. processedKey p \<in> processedKey ` set old)
        in if l < 0 then (Inl negativeLimit, w)
           else (Inr (int (length (filter gone rows))),
                 w\<lparr>db := (db w)\<lparr>processed_events := filter (\<lambda>p. \<not> gone p) rows\<rparr>\<rparr>))) w0 = (Inr m, w1)"
    unfolding ProcessedEventsRepository_Prune_def by (rule withPool_ok)
  define rows where "rows = processed_events (db w)"
  define old where "old = take (nat l) (filter (\<lambda>p. snd (snd p) < tx_now t - n * day) rows)"
  have dist: "distinct (map processedKey rows)" using inv by (simp add: db_inv_def rows_def)
  have sub: "set old \<subseteq> {p \<in> set rows. snd (snd p) < tx_now t - n * day}"
    by (auto simp: old_def dest: in_set_takeD)
  have G: "processedKey p \<in> processedKey ` set old \<longleftrightarrow> p \<in> set old" if "p \<in> set rows" for p
    using that sub dist by (auto simp: distinct_map dest: inj_onD)
  have "filter (\<lambda>p. processedKey p \<in> processedKey ` set old) rows = filter (\<lambda>p. p \<in> set old) rows"
    using G by (intro filter_cong) auto
  moreover have "length (filter (\<lambda>p. p \<in> set old) rows) = card (set old)"
  proof -
    have "distinct (filter (\<lambda>p. p \<in> set old) rows)" using dist by (simp add: distinct_map)
    then have "length (filter (\<lambda>p. p \<in> set old) rows) = card (set (filter (\<lambda>p. p \<in> set old) rows))"
      by (simp only: distinct_card)
    also have "set (filter (\<lambda>p. p \<in> set old) rows) = set old" using sub by auto
    finally show ?thesis .
  qed
  moreover have "int (card (set old)) \<le> l" if "0 \<le> l"
    using card_length [of old] that by (auto simp: old_def)
  moreover have young: "p \<notin> set old" if "snd (snd p) \<ge> tx_now t - n * day" for p
    using that sub by auto
  moreover from u t(2) have "0 \<le> l" "m = int (length (filter (\<lambda>p. processedKey p \<in> processedKey ` set old) rows))"
     "processed_events (db w1) = filter (\<lambda>p. processedKey p \<notin> processedKey ` set old) rows"
    by (auto simp: stmt_def Let_def old_def rows_def split: option.splits if_splits)
  ultimately show ?thesis using t(3) G by (intro that [OF t(1)]) (auto simp: rows_def)
qed

section \<open>Only the database\<close>

lemma other_repositories_ext [simp]:
  "same_ext w (snd (SettingsRepository_Get e c T w))"
  "same_ext w (snd (SettingsRepository_Upsert e c T m r w))"
  "same_ext w (snd (SettingsRepository_SoftDeleteTenant e c T w))"
  "same_ext w (snd (ProcessedEventsRepository_IsProcessed e c k i w))"
  "same_ext w (snd (ProcessedEventsRepository_MarkProcessed e c k i w))"
  "same_ext w (snd (ProcessedEventsRepository_Prune e c n l w))"
  by (auto simp: SettingsRepository_Get_def SettingsRepository_Upsert_def SettingsRepository_SoftDeleteTenant_def
      ProcessedEventsRepository_IsProcessed_def ProcessedEventsRepository_MarkProcessed_def
      ProcessedEventsRepository_Prune_def Let_def
      intro!: ext.frame_withPool ext.frame_stmt split: option.split)

section \<open>The policy in force\<close>

definition effectiveSettings :: "uuid \<Rightarrow> db \<Rightarrow> DelegationTenantSettings" where
  "effectiveSettings T d = (case tenant_settings d T of None \<Rightarrow> DefaultDelegationTenantSettings T | Some s \<Rightarrow> s)"

lemma Settings_Get_bound:
  assumes "bound_ctx T c" "SettingsRepository_Get e c T w = (Inr s, w')"
  shows "s = effectiveSettings T (db w)"
proof -
  from assms(2) obtain t w0 w1 where t: "pool_tx AppPool c t" "db w0 = db w"
    and u: "stmt e (\<lambda>w. case (if rls_visible t T then tenant_settings (db w) T else None) of
         None \<Rightarrow> (Inr (DefaultDelegationTenantSettings T), w) | Some s \<Rightarrow> (Inr s, w)) w0 = (Inr s, w1)"
    unfolding SettingsRepository_Get_def by (rule withPool_ok)
  have "rls_visible t T" using bound_ctx_visible [OF assms(1) t(1)] by simp
  with u t(2) show ?thesis by (auto simp: stmt_def effectiveSettings_def split: option.splits)
qed

end
