(* ===== verification/Eventbus.thy ===== *)
theory Eventbus
  imports Repositories
begin

text \<open>
  The outbox publisher (\<^verbatim>\<open>src/internal/adapter/outbound/eventbus/publisher.go\<close>) and the
  \<open>enqueue\<close> helper of the core services (\<^verbatim>\<open>core/service/delegation_service.go\<close>): an event is
  validated and appended to the outbox in the caller's transaction, or the caller fails.
\<close>

definition schemaViolation :: RawError where
  "schemaViolation = (plainError ''validate event'')\<lparr>raw_SchemaViolation := True\<rparr>"

definition Publisher_EnqueueCtx :: "env \<Rightarrow> ctx \<Rightarrow> DomainEvent \<Rightarrow> world \<Rightarrow> (error, unit, world) outcome" where
  "Publisher_EnqueueCtx e c evt w =
     (if \<not> schema_valid e evt then (Inl (Raw schemaViolation), w)
      else case c_tx c of
        None \<Rightarrow> (Inl (Raw (plainError ''event enqueue requires an open RunInTx transaction'')), w)
      | Some t \<Rightarrow> stmt e (\<lambda>w. (Inr (), w\<lparr>db := (db w)\<lparr>outbox := outbox (db w) @ [evt]\<rparr>\<rparr>)) w)"

definition makeEvent :: "env \<Rightarrow> ctx \<Rightarrow> uuid \<Rightarrow> uuid \<Rightarrow> Actor \<Rightarrow> EventData \<Rightarrow> world \<Rightarrow> DomainEvent" where
  "makeEvent e c tenantID subject actor data w =
     \<lparr>ev_TenantID = tenantID, ev_Subject = subject, ev_Actor = actor, ev_OccurredAt = clock e (tick w),
      ev_Data = data,
      ev_IPAddress = (case c_rc c of Some rc \<Rightarrow> rc_ClientIP rc | None \<Rightarrow> ''''),
      ev_UserAgent = (case c_rc c of Some rc \<Rightarrow> rc_UserAgent rc | None \<Rightarrow> '''')\<rparr>"

definition enqueue :: "env \<Rightarrow> ctx \<Rightarrow> uuid \<Rightarrow> uuid \<Rightarrow> Actor \<Rightarrow> EventData \<Rightarrow> world \<Rightarrow> (error, unit, world) outcome" where
  "enqueue e c tenantID subject actor data w =
     (if \<not> c_publisher c then (Inr (), w)
      else Publisher_EnqueueCtx e c (makeEvent e c tenantID subject actor data w) w)"

section \<open>Frames and outcomes\<close>

lemma EnqueueCtx_step: "db_step (db w) (db (snd (Publisher_EnqueueCtx e c evt w)))"
proof -
  have "db_step (db w1) (db (snd (stmt e (\<lambda>w. (Inr (), w\<lparr>db := (db w)\<lparr>outbox := outbox (db w) @ [evt]\<rparr>\<rparr>)) w1)))" for w1
    by (rule step.w.frame_stmt) (auto simp: db_step_def db_inv_def db_evolves_def)
  then show ?thesis by (simp add: Publisher_EnqueueCtx_def step.db_refl split: option.split)
qed

lemma enqueue_step: "db_step (db w) (db (snd (enqueue e c T s a x w)))"
  by (simp add: enqueue_def EnqueueCtx_step step.db_refl)

lemma enqueue_iso: "other_tenants_kept T (db w) (db (snd (enqueue e c T' s a x w)))"
  by (auto simp: enqueue_def Publisher_EnqueueCtx_def stmt_def other_tenants_kept_def split: option.split)

lemma enqueue_ext: "same_ext w (snd (enqueue e c T s a x w))"
  by (auto simp: enqueue_def Publisher_EnqueueCtx_def stmt_def same_ext_def split: option.split)

text \<open>The payloads an outbox holds, in order.\<close>

definition outboxData :: "db \<Rightarrow> EventData list" where
  "outboxData d = map ev_Data (outbox d)"

text \<open>
  What a transaction of the service changes: the delegation rows and the outbox, nothing else.
\<close>

definition changed :: "db \<Rightarrow> Delegation list \<Rightarrow> EventData list \<Rightarrow> db \<Rightarrow> bool" where
  "changed d rows evs d' \<longleftrightarrow>
     delegations d' = rows \<and> outboxData d' = outboxData d @ evs
     \<and> tenant_settings d' = tenant_settings d \<and> processed_events d' = processed_events d"

lemma enqueue_ok:
  assumes "enqueue e c T s a x w = (Inr u, w')"
  shows "db w' = (if c_publisher c then (db w)\<lparr>outbox := outbox (db w) @ [makeEvent e c T s a x w]\<rparr> else db w)"
    and "c_publisher c \<Longrightarrow> schema_valid e (makeEvent e c T s a x w)"
  using assms by (auto simp: enqueue_def Publisher_EnqueueCtx_def stmt_def split: if_splits option.splits)

lemma makeEvent_simps [simp]:
  "ev_Data (makeEvent e c T s a x w) = x" "ev_TenantID (makeEvent e c T s a x w) = T"
  "ev_Subject (makeEvent e c T s a x w) = s" "ev_Actor (makeEvent e c T s a x w) = a"
  by (simp_all add: makeEvent_def)

lemma enqueue_changed:
  assumes "enqueue e c T s a x w = (Inr u, w')" "changed d rows evs (db w)"
  shows "changed d rows (evs @ (if c_publisher c then [x] else [])) (db w')"
  using enqueue_ok(1) [OF assms(1)] assms(2) by (simp add: changed_def outboxData_def)

text \<open>What reaches the outbox: nothing when no publisher is bound.\<close>

definition published :: "bool \<Rightarrow> EventData list \<Rightarrow> EventData list" where
  "published b evs = (if b then evs else [])"

lemma published_simps [simp]:
  "published b [] = []" "published True evs = evs" "published False evs = []"
  "published b xs @ published b ys = published b (xs @ ys)"
  by (simp_all add: published_def)

lemma enqueue_published:
  assumes "enqueue e c T s a x w = (Inr u, w')" "changed d rows evs (db w)"
  shows "changed d rows (evs @ published (c_publisher c) [x]) (db w')"
  using enqueue_changed [OF assms] by (simp add: published_def)

lemma changed_rows: "changed d rows [] (d\<lparr>delegations := rows\<rparr>)"
  by (simp add: changed_def outboxData_def)

section \<open>What the use cases rely on of the repositories\<close>

text \<open>
  A relation between databases that every write of the repositories and the outbox respects,
  in a context that satisfies \<open>okc\<close>, an insert only for the tenant and the delegator of \<open>okg\<close>. The use cases, the consumer and the cron jobs respect
  it then too: their lemmas are proved once below this locale. It is interpreted on \<open>db_step\<close>
  (any context) and on the isolation of a tenant (contexts bound to it).
\<close>

locale repo_frame = db_frame R for R :: "db \<Rightarrow> db \<Rightarrow> bool" +
  fixes okc :: "ctx \<Rightarrow> bool" and okg :: "uuid \<Rightarrow> uuid \<Rightarrow> bool"
  assumes ok_opened: "okc c \<Longrightarrow> opened_ctx c c' \<Longrightarrow> okc c'"
    and r_Insert: "okc c \<Longrightarrow> okg (d_TenantID d) (d_DelegatorID d) \<Longrightarrow> R (db w) (db (snd (DelegationRepository_Insert e AppPool c d w)))"
    and r_End: "okc c \<Longrightarrow> st \<noteq> DelegationScheduled \<Longrightarrow> R (db w) (db (snd (DelegationRepository_End e AppPool c T i st v w)))"
    and r_Activate: "okc c \<Longrightarrow> R (db w) (db (snd (DelegationRepository_Activate e AppPool c T i v w)))"
    and r_ExtendReview: "okc c \<Longrightarrow> R (db w) (db (snd (DelegationRepository_ExtendReview e AppPool c T i n v w)))"
    and r_MarkReviewWarned: "okc c \<Longrightarrow> R (db w) (db (snd (DelegationRepository_MarkReviewWarned e AppPool c T i n v w)))"
    and r_EndForUser: "okc c \<Longrightarrow> R (db w) (db (snd (DelegationRepository_EndForUser e AppPool c T i w)))"
    and r_EndForDisabledDelegate: "okc c \<Longrightarrow> R (db w) (db (snd (DelegationRepository_EndForDisabledDelegate e AppPool c T i w)))"
    and r_SoftDeleteTenant: "okc c \<Longrightarrow> R (db w) (db (snd (DelegationRepository_SoftDeleteTenant e AppPool c T w)))"
    and r_SettingsSoftDelete: "okc c \<Longrightarrow> R (db w) (db (snd (SettingsRepository_SoftDeleteTenant e c T w)))"
    and r_Upsert: "okc c \<Longrightarrow> R (db w) (db (snd (SettingsRepository_Upsert e c T n m w)))"
    and r_MarkProcessed: "okc c \<Longrightarrow> R (db w) (db (snd (ProcessedEventsRepository_MarkProcessed e c key ev w)))"
    and r_enqueue: "okc c \<Longrightarrow> R (db w) (db (snd (enqueue e c T i a x w)))"

interpretation rstep: repo_frame db_step "\<lambda>_. True" "\<lambda>_ _. True"
  by unfold_locales
     (auto intro: repository_step Settings_SoftDeleteTenant_step Settings_Upsert_step MarkProcessed_step enqueue_step)

interpretation riso: repo_frame "other_tenants_kept T" "tenant_ctx T" "\<lambda>_ _. True" for T
  by unfold_locales
     (auto intro: repository_iso Settings_SoftDeleteTenant_iso Settings_Upsert_iso MarkProcessed_iso enqueue_iso tenant_ctx_opened)

end
