(* ===== verification/Valkey.thy ===== *)
theory Valkey
  imports World
begin

text \<open>
  The Valkey adapter (\<^verbatim>\<open>src/internal/adapter/outbound/valkey\<close>): the advisory list cache
  (\<^verbatim>\<open>cache.go\<close>) and the create-idempotency store (\<^verbatim>\<open>idempotency.go\<close>) over the commands
  GET, SET, SET NX and DEL with their expiry. A command consults the fault of its interaction;
  an entry is live strictly before its expiry. An entry that does not decode is
  \<open>KVUndecodable\<close>, which the program itself never writes.

  The locale \<open>reservation_store\<close> is the contract \<open>Create\<close> relies on: a key is granted at most
  once while it is held, and a saved record is what a later \<open>Get\<close> returns.
\<close>

section \<open>Commands\<close>

definition kv_lookup :: "time \<Rightarrow> (KVKey \<Rightarrow> (KVValue \<times> time) option) \<Rightarrow> KVKey \<Rightarrow> KVValue option" where
  "kv_lookup now m k = (case m k of None \<Rightarrow> None | Some (v, exp) \<Rightarrow> if now < exp then Some v else None)"

definition kv_cmd :: "env \<Rightarrow> (time \<Rightarrow> world \<Rightarrow> 'a \<times> world) \<Rightarrow> world \<Rightarrow> (RawError + 'a) \<times> world" where
  "kv_cmd e f w =
     (case kv_fault e (tick w) of
        Some r \<Rightarrow> (Inl r, bump w)
      | None \<Rightarrow> (case f (clock e (tick w)) (bump w) of (a, w') \<Rightarrow> (Inr a, w')))"

definition redis_Get :: "env \<Rightarrow> KVKey \<Rightarrow> world \<Rightarrow> (RawError + KVValue option) \<times> world" where
  "redis_Get e k = kv_cmd e (\<lambda>now w. (kv_lookup now (kv w) k, w))"

definition redis_Set :: "env \<Rightarrow> KVKey \<Rightarrow> KVValue \<Rightarrow> duration \<Rightarrow> world \<Rightarrow> (RawError + unit) \<times> world" where
  "redis_Set e k v ttl = kv_cmd e (\<lambda>now w. ((), w\<lparr>kv := (kv w)(k \<mapsto> (v, now + ttl))\<rparr>))"

definition redis_SetNX :: "env \<Rightarrow> KVKey \<Rightarrow> KVValue \<Rightarrow> duration \<Rightarrow> world \<Rightarrow> (RawError + bool) \<times> world" where
  "redis_SetNX e k v ttl = kv_cmd e (\<lambda>now w.
     if kv_lookup now (kv w) k = None then (True, w\<lparr>kv := (kv w)(k \<mapsto> (v, now + ttl))\<rparr>) else (False, w))"

definition redis_Del :: "env \<Rightarrow> KVKey \<Rightarrow> world \<Rightarrow> (RawError + unit) \<times> world" where
  "redis_Del e k = kv_cmd e (\<lambda>now w. ((), w\<lparr>kv := (kv w)(k := None)\<rparr>))"

section \<open>The list cache\<close>

definition listTTL :: duration where "listTTL = 60 * second"

definition Cache_GetDelegatorList :: "env \<Rightarrow> uuid \<Rightarrow> uuid \<Rightarrow> world \<Rightarrow> Delegation list option \<times> world" where
  "Cache_GetDelegatorList e tenantID delegatorID w =
     (case redis_Get e (KeyList tenantID delegatorID) w of
        (Inl _, w') \<Rightarrow> (None, w')
      | (Inr (Some (KVList l)), w') \<Rightarrow> (Some l, w')
      | (Inr _, w') \<Rightarrow> (None, w'))"

definition Cache_SetDelegatorList :: "env \<Rightarrow> uuid \<Rightarrow> uuid \<Rightarrow> Delegation list \<Rightarrow> world \<Rightarrow> world" where
  "Cache_SetDelegatorList e tenantID delegatorID l w =
     snd (redis_Set e (KeyList tenantID delegatorID) (KVList l) listTTL w)"

definition Cache_InvalidateDelegatorList :: "env \<Rightarrow> uuid \<Rightarrow> uuid \<Rightarrow> world \<Rightarrow> world" where
  "Cache_InvalidateDelegatorList e tenantID delegatorID w =
     snd (redis_Del e (KeyList tenantID delegatorID) w)"

section \<open>The idempotency store\<close>

definition idempotencyTTL :: duration where "idempotencyTTL = 24 * 3600 * second"

definition IdempotencyStore_Get :: "env \<Rightarrow> uuid \<Rightarrow> string \<Rightarrow> world \<Rightarrow> (RawError + IdempotencyRecord option) \<times> world" where
  "IdempotencyStore_Get e tenantID key w =
     (case redis_Get e (KeyIdem tenantID key) w of
        (Inl r, w') \<Rightarrow> (Inl r, w')
      | (Inr None, w') \<Rightarrow> (Inr None, w')
      | (Inr (Some (KVIdem rec)), w') \<Rightarrow> (Inr (Some rec), w')
      | (Inr (Some _), w') \<Rightarrow> (Inl (plainError ''decode idempotency record''), w'))"

definition IdempotencyStore_Save :: "env \<Rightarrow> uuid \<Rightarrow> string \<Rightarrow> IdempotencyRecord \<Rightarrow> world \<Rightarrow> (RawError + unit) \<times> world" where
  "IdempotencyStore_Save e tenantID key rec =
     redis_Set e (KeyIdem tenantID key) (KVIdem rec) idempotencyTTL"

definition pendingRecord :: IdempotencyRecord where
  "pendingRecord = \<lparr>ir_DelegationID = 0, ir_Status = ''pending''\<rparr>"

definition IdempotencyStore_Reserve :: "env \<Rightarrow> uuid \<Rightarrow> string \<Rightarrow> world \<Rightarrow> (RawError + bool) \<times> world" where
  "IdempotencyStore_Reserve e tenantID key =
     redis_SetNX e (KeyIdem tenantID key) (KVIdem pendingRecord) idempotencyTTL"

definition IdempotencyStore_Release :: "env \<Rightarrow> uuid \<Rightarrow> string \<Rightarrow> world \<Rightarrow> (RawError + unit) \<times> world" where
  "IdempotencyStore_Release e tenantID key = redis_Del e (KeyIdem tenantID key)"

section \<open>Frames\<close>

lemma kv_cmd_keeps:
  assumes "\<And>now w1. db (snd (f now w1)) = db w1 \<and> up_log (snd (f now w1)) = up_log w1 \<and> metric_log (snd (f now w1)) = metric_log w1"
  shows "db (snd (kv_cmd e f w)) = db w" "up_log (snd (kv_cmd e f w)) = up_log w"
    "metric_log (snd (kv_cmd e f w)) = metric_log w"
  using assms [of "clock e (tick w)" "bump w"] by (auto simp: kv_cmd_def split: option.split prod.splits)

lemma redis_keeps [simp]:
  "db (snd (redis_Get e k w)) = db w" "up_log (snd (redis_Get e k w)) = up_log w"
  "db (snd (redis_Set e k v ttl w)) = db w" "up_log (snd (redis_Set e k v ttl w)) = up_log w"
  "db (snd (redis_SetNX e k v ttl w)) = db w" "up_log (snd (redis_SetNX e k v ttl w)) = up_log w"
  "db (snd (redis_Del e k w)) = db w" "up_log (snd (redis_Del e k w)) = up_log w"
  by (simp_all add: redis_Get_def redis_Set_def redis_SetNX_def redis_Del_def kv_cmd_keeps)

lemma redis_Get_keeps: "redis_Get e k w = (r, w') \<Longrightarrow> db w' = db w \<and> up_log w' = up_log w"
  using redis_keeps(1,2) [of e k w] by simp

lemma valkey_keeps [simp]:
  "db (snd (Cache_GetDelegatorList e t u w)) = db w"
  "up_log (snd (Cache_GetDelegatorList e t u w)) = up_log w"
  "db (Cache_SetDelegatorList e t u l w) = db w" "up_log (Cache_SetDelegatorList e t u l w) = up_log w"
  "db (Cache_InvalidateDelegatorList e t u w) = db w" "up_log (Cache_InvalidateDelegatorList e t u w) = up_log w"
  "db (snd (IdempotencyStore_Get e t key w)) = db w" "up_log (snd (IdempotencyStore_Get e t key w)) = up_log w"
  "db (snd (IdempotencyStore_Save e t key rec w)) = db w" "up_log (snd (IdempotencyStore_Save e t key rec w)) = up_log w"
  "db (snd (IdempotencyStore_Reserve e t key w)) = db w" "up_log (snd (IdempotencyStore_Reserve e t key w)) = up_log w"
  "db (snd (IdempotencyStore_Release e t key w)) = db w" "up_log (snd (IdempotencyStore_Release e t key w)) = up_log w"
  by (auto simp: Cache_GetDelegatorList_def Cache_SetDelegatorList_def Cache_InvalidateDelegatorList_def
      IdempotencyStore_Get_def IdempotencyStore_Save_def IdempotencyStore_Reserve_def IdempotencyStore_Release_def
      dest: redis_Get_keeps split: prod.splits sum.splits option.splits KVValue.splits)

section \<open>The contract of the idempotency store\<close>

text \<open>
  \<open>holds m t key now\<close>: the record a \<open>Get\<close> at \<open>now\<close> would find. The laws speak of the Valkey
  map alone, whatever else happens to the world in between.
\<close>

type_synonym kvmap = "KVKey \<Rightarrow> (KVValue \<times> time) option"

definition idem_holds :: "time \<Rightarrow> kvmap \<Rightarrow> uuid \<Rightarrow> string \<Rightarrow> IdempotencyRecord option" where
  "idem_holds now m t key = (case kv_lookup now m (KeyIdem t key) of Some (KVIdem rec) \<Rightarrow> Some rec | _ \<Rightarrow> None)"

definition idem_taken :: "time \<Rightarrow> kvmap \<Rightarrow> uuid \<Rightarrow> string \<Rightarrow> bool" where
  "idem_taken now m t key \<longleftrightarrow> kv_lookup now m (KeyIdem t key) \<noteq> None"

locale reservation_store =
  fixes clk :: "nat \<Rightarrow> time"
    and get :: "uuid \<Rightarrow> string \<Rightarrow> world \<Rightarrow> (RawError + IdempotencyRecord option) \<times> world"
    and save :: "uuid \<Rightarrow> string \<Rightarrow> IdempotencyRecord \<Rightarrow> world \<Rightarrow> (RawError + unit) \<times> world"
    and reserve :: "uuid \<Rightarrow> string \<Rightarrow> world \<Rightarrow> (RawError + bool) \<times> world"
    and release :: "uuid \<Rightarrow> string \<Rightarrow> world \<Rightarrow> (RawError + unit) \<times> world"
    and ttl :: duration
    and holds :: "time \<Rightarrow> kvmap \<Rightarrow> uuid \<Rightarrow> string \<Rightarrow> IdempotencyRecord option"
    and taken :: "time \<Rightarrow> kvmap \<Rightarrow> uuid \<Rightarrow> string \<Rightarrow> bool"
  assumes get_ok: "get t key w = (Inr r, w') \<Longrightarrow> r = holds (clk (tick w)) (kv w) t key \<and> kv w' = kv w"
    and save_ok: "save t key rec w = (Inr u, w') \<Longrightarrow> now < clk (tick w) + ttl \<Longrightarrow> holds now (kv w') t key = Some rec"
    and reserve_free: "reserve t key w = (Inr True, w') \<Longrightarrow> \<not> taken (clk (tick w)) (kv w) t key"
    and reserve_taken: "reserve t key w = (Inr False, w') \<Longrightarrow> taken (clk (tick w)) (kv w) t key"
    and reserve_ok: "reserve t key w = (Inr True, w') \<Longrightarrow> now < clk (tick w) + ttl \<Longrightarrow> taken now (kv w') t key"
    and release_ok: "release t key w = (Inr u, w') \<Longrightarrow> \<not> taken now (kv w') t key"
    and holds_taken: "holds now m t key = Some rec \<Longrightarrow> taken now m t key"
begin

lemma reserve_exclusive:
  assumes "reserve t key w = (Inr True, w1)"
    and "kv w2 = kv w1" "clk (tick w2) < clk (tick w) + ttl"
    and "reserve t key w2 = (Inr b, w3)"
  shows "\<not> b"
  using assms reserve_ok reserve_free by (metis (full_types))

lemma saved_blocks:
  assumes "save t key rec w = (Inr u, w1)"
    and "kv w2 = kv w1" "clk (tick w2) < clk (tick w) + ttl"
    and "reserve t key w2 = (Inr b, w3)"
  shows "\<not> b"
  using assms save_ok holds_taken reserve_free by (metis (full_types))

lemma save_get:
  assumes "save t key rec w = (Inr u, w1)"
    and "kv w2 = kv w1" "clk (tick w2) < clk (tick w) + ttl"
    and "get t key w2 = (Inr r, w3)"
  shows "r = Some rec"
  using assms save_ok get_ok by metis

lemma released_can_reserve:
  assumes "release t key w = (Inr u, w1)" "kv w2 = kv w1" "reserve t key w2 = (Inr b, w3)"
  shows b
  using assms release_ok reserve_taken by (metis (full_types))

end

lemma kv_cmd_ok:
  assumes "kv_cmd e f w = (Inr a, w')"
  shows "f (clock e (tick w)) (bump w) = (a, w')"
  using assms by (auto simp: kv_cmd_def split: option.splits prod.splits)

interpretation idem: reservation_store "clock e" "IdempotencyStore_Get e" "IdempotencyStore_Save e"
  "IdempotencyStore_Reserve e" "IdempotencyStore_Release e" idempotencyTTL idem_holds idem_taken
  by unfold_locales
     (auto simp: IdempotencyStore_Get_def IdempotencyStore_Save_def IdempotencyStore_Reserve_def
       IdempotencyStore_Release_def redis_Get_def redis_Set_def redis_SetNX_def redis_Del_def
       idem_holds_def idem_taken_def kv_lookup_def
       dest!: kv_cmd_ok split: prod.splits sum.splits option.splits KVValue.splits if_splits)

end
