(* ===== verification/Utf8.thy ===== *)
theory Utf8
  imports Prelude
begin

text \<open>
  What the code uses of Go's \<^verbatim>\<open>unicode/utf8\<close>: decoding the first rune of a byte string and
  counting runes. A string is its list of bytes; an invalid or truncated sequence decodes to
  \<open>RuneError\<close> (U+FFFD) of width one, as in Go. The accepted ranges of the second byte exclude
  overlong forms, surrogates and values above U+10FFFF.
\<close>

definition RuneError :: nat where "RuneError = 0xFFFD"

abbreviation byte_at :: "string \<Rightarrow> nat \<Rightarrow> nat" where
  "byte_at s i \<equiv> (if i < length s then of_char (s ! i) else 0)"

definition cont :: "nat \<Rightarrow> bool" where "cont b \<longleftrightarrow> 0x80 \<le> b \<and> b \<le> 0xBF"

text \<open>The width a leading byte announces and the range of the byte after it.\<close>

definition lead :: "nat \<Rightarrow> nat \<times> nat \<times> nat" where
  "lead b =
     (if 0xC2 \<le> b \<and> b \<le> 0xDF then (2, 0x80, 0xBF)
      else if b = 0xE0 then (3, 0xA0, 0xBF)
      else if b = 0xED then (3, 0x80, 0x9F)
      else if 0xE1 \<le> b \<and> b \<le> 0xEF then (3, 0x80, 0xBF)
      else if b = 0xF0 then (4, 0x90, 0xBF)
      else if 0xF1 \<le> b \<and> b \<le> 0xF3 then (4, 0x80, 0xBF)
      else if b = 0xF4 then (4, 0x80, 0x8F)
      else (1, 0, 0))"

definition DecodeRuneInString :: "string \<Rightarrow> nat \<times> nat" where
  "DecodeRuneInString s =
     (if s = [] then (RuneError, 0)
      else let b0 = byte_at s 0; b1 = byte_at s 1; b2 = byte_at s 2; b3 = byte_at s 3
           in if b0 < 0x80 then (b0, 1)
              else case lead b0 of (n, lo, hi) \<Rightarrow>
                if n = 1 \<or> length s < n \<or> \<not> (lo \<le> b1 \<and> b1 \<le> hi) then (RuneError, 1)
                else if n = 2 then ((b0 - 0xC0) * 64 + (b1 - 0x80), 2)
                else if \<not> cont b2 then (RuneError, 1)
                else if n = 3 then ((b0 - 0xE0) * 4096 + (b1 - 0x80) * 64 + (b2 - 0x80), 3)
                else if \<not> cont b3 then (RuneError, 1)
                else ((b0 - 0xF0) * 262144 + (b1 - 0x80) * 4096 + (b2 - 0x80) * 64 + (b3 - 0x80), 4))"

lemma lead_width: "fst (lead b) \<in> {1, 2, 3, 4}"
  by (simp add: lead_def)

lemma DecodeRune_width:
  assumes "s \<noteq> []"
  shows "0 < snd (DecodeRuneInString s)" "snd (DecodeRuneInString s) \<le> length s"
proof -
  from assms have "0 < length s" by simp
  moreover obtain n lo hi where "lead (of_char (s ! 0)) = (n, lo, hi)" by (metis prod_cases3)
  moreover from this have "n \<in> {1, 2, 3, 4}" using lead_width [of "of_char (s ! 0)"] by simp
  ultimately show "0 < snd (DecodeRuneInString s)" "snd (DecodeRuneInString s) \<le> length s"
    by (auto simp: DecodeRuneInString_def Let_def not_less le_Suc_eq)
qed

function RuneCountInString :: "string \<Rightarrow> nat" where
  "RuneCountInString s = (if s = [] then 0 else Suc (RuneCountInString (drop (snd (DecodeRuneInString s)) s)))"
  by pat_completeness auto
termination
  by (relation "measure length") (use DecodeRune_width in \<open>auto\<close>)

declare RuneCountInString.simps [simp del]

lemma RuneCount_Nil [simp]: "RuneCountInString [] = 0"
  by (simp add: RuneCountInString.simps)

lemma RuneCount_le_length: "RuneCountInString s \<le> length s"
proof (induction s rule: RuneCountInString.induct)
  case (1 s)
  show ?case
  proof (cases "s = []")
    case False
    from 1 False have "RuneCountInString (drop (snd (DecodeRuneInString s)) s) \<le> length s - snd (DecodeRuneInString s)"
      by simp
    with DecodeRune_width [OF False] False show ?thesis
      by (subst RuneCountInString.simps) simp
  qed simp
qed

lemma RuneCount_ascii:
  assumes "\<forall>c \<in> set s. of_char c < (0x80 :: nat)"
  shows "RuneCountInString s = length s"
  using assms
proof (induction s)
  case (Cons c s)
  then have "DecodeRuneInString (c # s) = (of_char c, 1)"
    by (simp add: DecodeRuneInString_def Let_def)
  with Cons show ?case by (subst RuneCountInString.simps) simp
qed simp

end
