(* ===== verification/DelegationService.thy ===== *)
theory DelegationService
  imports Eventbus Valkey Utf8
begin

text \<open>
  \<^verbatim>\<open>src/internal/core/service/delegation_service.go\<close>: the use cases List, Create, Cancel,
  Extend and Reassign. \<open>Create\<close> is split where its comments split it: the idempotency gate,
  the checks that precede any write (ending in a plan), and the write with its compensation.
\<close>

section \<open>Definitions\<close>

definition skewTolerance :: duration where "skewTolerance = 5 * second"
definition maxFutureStart :: duration where "maxFutureStart = 365 * day"

definition DelegationService_List :: "env \<Rightarrow> ctx \<Rightarrow> uuid \<Rightarrow> uuid \<Rightarrow> world \<Rightarrow> (error, Delegation list, world) outcome" where
  "DelegationService_List e c tenantID delegatorID w =
     (case (if hasCache e then Cache_GetDelegatorList e tenantID delegatorID w else (None, w)) of
        (Some cached, w) \<Rightarrow> (Inr cached, w)
      | (None, w) \<Rightarrow>
          bind_res (DelegationRepository_ListByDelegator e AppPool c tenantID delegatorID w)
            (\<lambda>list w. (Inr list, if hasCache e then Cache_SetDelegatorList e tenantID delegatorID list w else w)))"

record CreateInput =
  ci_DelegateID :: uuid
  ci_Scope :: string
  ci_ScopeID :: "uuid option"
  ci_Reason :: string
  ci_StartsAt :: "time option"
  ci_EndsAt :: "time option"

definition validateCreateInput :: "uuid \<Rightarrow> CreateInput \<Rightarrow> error option" where
  "validateCreateInput delegatorID req =
     (let scope = toScope (ci_Scope req)
      in if delegatorID = ci_DelegateID req then Some (domainErr ErrSelfDelegation ''cannot delegate to yourself'')
         else if scope \<noteq> ScopeAll \<and> scope \<noteq> ScopeDepartment \<and> scope \<noteq> ScopeTender
         then Some (domainErr ErrInvalidDelegationScope ''invalid scope'')
         else if scope \<noteq> ScopeAll \<and> ci_ScopeID req = None
         then Some (domainErr ErrScopeIDRequired ''scope_id is required for department/tender scope'')
         else if scope = ScopeAll \<and> ci_ScopeID req \<noteq> None
         then Some (domainErr ErrInvalidScopeID ''scope_id must be omitted when scope is all'')
         else if RuneCountInString (ci_Reason req) > 500
         then Some (domainErr ErrReasonTooLong ''reason must not exceed 500 characters'')
         else None)"

definition inFlight :: error where
  "inFlight = domainErr ErrIdempotencyKeyInFlight ''a request with this idempotency key is already in progress''"

text \<open>
  The gate: a replay returns the stored delegation, a key in use is refused, and otherwise the
  call proceeds, holding a reservation or (Valkey unavailable) without one.
\<close>

datatype Gate = GateReturn "error + Delegation" | GateProceed bool

definition Create_reserve :: "env \<Rightarrow> uuid \<Rightarrow> string \<Rightarrow> world \<Rightarrow> Gate \<times> world" where
  "Create_reserve e tenantID key w =
     (case IdempotencyStore_Reserve e tenantID key w of
        (Inl _, w) \<Rightarrow> (GateProceed False, w)
      | (Inr True, w) \<Rightarrow> (GateProceed True, w)
      | (Inr False, w) \<Rightarrow> (GateReturn (Inl inFlight), w))"

definition Create_gate :: "env \<Rightarrow> ctx \<Rightarrow> uuid \<Rightarrow> string \<Rightarrow> world \<Rightarrow> Gate \<times> world" where
  "Create_gate e c tenantID key w =
     (if key = '''' \<or> \<not> hasIdempotency e then (GateProceed False, w)
      else case IdempotencyStore_Get e tenantID key w of
        (Inr (Some rec), w) \<Rightarrow>
          if ir_Status rec = ''created'' then
            (case DelegationRepository_FindByID e AppPool c tenantID (ir_DelegationID rec) w of
               (Inr existing, w) \<Rightarrow> (GateReturn (Inr existing), record_metric e MIdempotencyHit w)
             | (Inl _, w) \<Rightarrow> Create_reserve e tenantID key w)
          else (GateReturn (Inl inFlight), w)
      | (Inr None, w) \<Rightarrow> Create_reserve e tenantID key w
      | (Inl _, w) \<Rightarrow> Create_reserve e tenantID key w)"

definition Create_catalog :: "env \<Rightarrow> CreateInput \<Rightarrow> world \<Rightarrow> (error, unit, world) outcome" where
  "Create_catalog e req w =
     (case (toScope (ci_Scope req) = ScopeDepartment, ci_ScopeID req, departmentActive e) of
        (True, Some sid, Some client) \<Rightarrow>
          (case client (tick w) sid of
             Inl _ \<Rightarrow> (Inl (domainErr ErrCatalogAdminUnavailable ''catalog admin service is unavailable''), bump w)
           | Inr (exists, active) \<Rightarrow>
               if \<not> exists \<or> \<not> active
               then (Inl (domainErr ErrInvalidScopeID ''scope_id does not reference an active department in the catalog''), bump w)
               else (Inr (), bump w))
      | _ \<Rightarrow> (Inr (), w))"

definition Create_window :: "time \<Rightarrow> CreateInput \<Rightarrow> error + time" where
  "Create_window now req =
     (let starts = (case ci_StartsAt req of None \<Rightarrow> now | Some s \<Rightarrow> s)
      in if ci_StartsAt req \<noteq> None \<and> starts < now - skewTolerance
         then Inl (domainErr ErrDelegationStartInPast ''starts_at must not be in the past'')
         else if ci_StartsAt req \<noteq> None \<and> starts > now + maxFutureStart
         then Inl (domainErr ErrDelegationStartTooFarFuture ''starts_at must be within 1 year from now'')
         else case ci_EndsAt req of
           None \<Rightarrow> Inr starts
         | Some ends \<Rightarrow>
             if \<not> ends > starts then Inl (domainErr ErrDelegationWindowInverted ''ends_at must be after starts_at'')
             else Inr starts)"

definition Create_span :: "DelegationTenantSettings \<Rightarrow> time \<Rightarrow> CreateInput \<Rightarrow> error option" where
  "Create_span settings starts req =
     (case ci_EndsAt req of
        None \<Rightarrow> None
      | Some ends \<Rightarrow>
          if time_Sub ends starts > s_MaxDurationDays settings * day
          then Some (Domain (WithDetails
                 (NewError ErrDelegationWindowTooLong ''delegation span exceeds the tenant's max_duration_days'')
                 [(''max_duration_days'', s_MaxDurationDays settings)]))
          else None)"

text \<open>Two concurrent calls: each is an interaction of its own, and both answers are awaited.\<close>

definition checkBothMemberships :: "env \<Rightarrow> uuid \<Rightarrow> uuid \<Rightarrow> uuid \<Rightarrow> world \<Rightarrow> (error, uuid \<times> uuid, world) outcome" where
  "checkBothMemberships e tenantID delegatorID delegateID w =
     (let dgt = membershipExists e (tick w) tenantID delegatorID;
          dt = membershipExists e (tick (bump w)) tenantID delegateID;
          w' = bump (bump w)
      in case (dgt, dt) of
           (Inr (dgtActive, dgtID), Inr (dtActive, dtID)) \<Rightarrow>
             if \<not> dgtActive \<or> \<not> dtActive
             then (Inl (domainErr ErrInvalidDelegate ''delegator or delegate is not an active member''), w')
             else (Inr (dgtID, dtID), w')
         | _ \<Rightarrow> (Inl (domainErr ErrOrgMembershipUnavailable ''membership check unavailable''), w'))"

definition Create_delegateFree :: "env \<Rightarrow> uuid \<Rightarrow> uuid \<Rightarrow> bool \<Rightarrow> time \<Rightarrow> world \<Rightarrow> (error, unit, world) outcome" where
  "Create_delegateFree e tenantID delegateID isScheduled starts w =
     (case up_GetAvailability e tenantID delegateID w of
        (Inl _, w) \<Rightarrow>
          (Inl (domainErr ErrUserProfileUnavailable ''user profile unavailable''), record_metric e (MUPFailure ''create'') w)
      | (Inr snap, w) \<Rightarrow>
          if snap_Status snap = ''ooo''
             \<and> (\<not> isScheduled \<or> (case snap_OOOUntil snap of None \<Rightarrow> False | Some u \<Rightarrow> u > starts))
          then (Inl (domainErr ErrDelegateUnavailable ''delegate is currently unavailable (OOO)''), w)
          else (Inr (), w))"

record CreatePlan =
  pl_now :: time
  pl_starts :: time
  pl_settings :: DelegationTenantSettings
  pl_delegatorMembershipID :: uuid
  pl_delegateMembershipID :: uuid
  pl_isScheduled :: bool
  pl_reviewDueAt :: "time option"

definition Create_plan :: "env \<Rightarrow> ctx \<Rightarrow> uuid \<Rightarrow> uuid \<Rightarrow> CreateInput \<Rightarrow> world \<Rightarrow> (error, CreatePlan, world) outcome" where
  "Create_plan e c tenantID delegatorID req w =
     bind_res (check_res (validateCreateInput delegatorID req) w) (\<lambda>_ w.
     bind_res (Create_catalog e req w) (\<lambda>_ w.
     (let now = clock e (tick w)
      in
     bind_res (Create_window now req, w) (\<lambda>starts w.
     bind_res (SettingsRepository_Get e c tenantID w) (\<lambda>settings w.
     bind_res (check_res (Create_span settings starts req) w) (\<lambda>_ w.
     bind_res (checkBothMemberships e tenantID delegatorID (ci_DelegateID req) w) (\<lambda>ids w.
     (let isScheduled = starts > now
      in
     bind_res (Create_delegateFree e tenantID (ci_DelegateID req) isScheduled starts w) (\<lambda>_ w.
       (Inr \<lparr>pl_now = now, pl_starts = starts, pl_settings = settings,
             pl_delegatorMembershipID = fst ids, pl_delegateMembershipID = snd ids,
             pl_isScheduled = isScheduled,
             pl_reviewDueAt = (if ci_EndsAt req = None
                               then Some (starts + s_ReviewWindowDays settings * day) else None)\<rparr>, w))))))))))"

definition oooRequest :: "uuid \<Rightarrow> uuid \<Rightarrow> time \<Rightarrow> time option \<Rightarrow> uuid \<Rightarrow> string \<Rightarrow> SetAvailabilityRequest" where
  "oooRequest tenantID userID from until delegateID note =
     \<lparr>sa_TenantID = tenantID, sa_UserID = userID, sa_Status = Some ''ooo'', sa_OOOFrom = Some from,
      sa_OOOUntil = until, sa_DelegateID = Some delegateID, sa_Note = note\<rparr>"

definition Create_setOOO :: "env \<Rightarrow> uuid \<Rightarrow> uuid \<Rightarrow> CreateInput \<Rightarrow> CreatePlan \<Rightarrow> world \<Rightarrow> (error, unit, world) outcome" where
  "Create_setOOO e tenantID delegatorID req p w =
     (if pl_isScheduled p then (Inr (), w)
      else
        (let oooFrom = (if pl_starts p < pl_now p then pl_now p else pl_starts p);
             oooUntil = (case ci_EndsAt req of None \<Rightarrow> pl_reviewDueAt p | Some u \<Rightarrow> Some u)
         in case up_SetAvailability e (oooRequest tenantID delegatorID oooFrom oooUntil (ci_DelegateID req) (ci_Reason req)) w of
              (None, w) \<Rightarrow> (Inr (), w)
            | (Some err, w) \<Rightarrow>
                (let w = record_metric e (MUPFailure ''create'') w
                 in if isDependencyUnavailable err
                    then (Inl (domainErr ErrUserProfileUnavailable ''user profile unavailable''), w)
                    else (Inl (domainErr ErrInvalidDelegate ''delegate validation failed via user profile''), w))))"

definition newDelegation :: "uuid \<Rightarrow> uuid \<Rightarrow> CreateInput \<Rightarrow> CreatePlan \<Rightarrow> Delegation" where
  "newDelegation tenantID delegatorID req p =
     \<lparr>d_ID = 0, d_TenantID = tenantID, d_DelegatorID = delegatorID, d_DelegateID = ci_DelegateID req,
      d_DelegatorMembershipID = pl_delegatorMembershipID p, d_DelegateMembershipID = pl_delegateMembershipID p,
      d_Scope = toScope (ci_Scope req), d_ScopeID = ci_ScopeID req, d_Reason = ci_Reason req,
      d_StartsAt = pl_starts p, d_EndsAt = ci_EndsAt req,
      d_Status = (if pl_isScheduled p then DelegationScheduled else DelegationActive),
      d_RecordVersion = 0, d_CreatedAt = zeroTime, d_UpdatedAt = zeroTime, d_DeletedAt = None,
      d_ReviewDueAt = pl_reviewDueAt p, d_ReviewLastWarnedBucket = None,
      d_ReviewWindowDays = Some (s_ReviewWindowDays (pl_settings p))\<rparr>"

definition startedPayload :: "uuid \<Rightarrow> Delegation \<Rightarrow> uuid \<Rightarrow> EventData" where
  "startedPayload tenantID d actorID =
     DelegationStarted \<lparr>st_DelegationID = d_ID d, st_TenantID = tenantID, st_DelegatorID = d_DelegatorID d,
       st_DelegateID = d_DelegateID d, st_Scope = d_Scope d, st_ScopeID = d_ScopeID d,
       st_StartsAt = d_StartsAt d, st_EndsAt = d_EndsAt d, st_ActorID = actorID\<rparr>"

definition endedPayload :: "uuid \<Rightarrow> Delegation \<Rightarrow> EndReason \<Rightarrow> uuid \<Rightarrow> EventData" where
  "endedPayload tenantID d reason actorID =
     DelegationEndedEv \<lparr>en_DelegationID = d_ID d, en_TenantID = tenantID, en_DelegatorID = d_DelegatorID d,
       en_DelegateID = d_DelegateID d, en_Scope = d_Scope d, en_ScopeID = d_ScopeID d,
       en_EndedReason = reason, en_ActorID = actorID\<rparr>"

text \<open>
  The event is built from the request, whose fields are those of the row inserted from it.
\<close>

definition Create_tx :: "env \<Rightarrow> uuid \<Rightarrow> uuid \<Rightarrow> CreateInput \<Rightarrow> CreatePlan \<Rightarrow> ctx \<Rightarrow> world \<Rightarrow> (error, Delegation, world) outcome" where
  "Create_tx e tenantID delegatorID req p txCtx w =
     bind_res (DelegationRepository_Insert e AppPool txCtx (newDelegation tenantID delegatorID req p) w) (\<lambda>out w.
       if pl_isScheduled p then (Inr out, w)
       else bind_res (enqueue e txCtx tenantID (d_ID out) (ActorUser delegatorID)
              (DelegationStarted \<lparr>st_DelegationID = d_ID out, st_TenantID = tenantID, st_DelegatorID = delegatorID,
                 st_DelegateID = ci_DelegateID req, st_Scope = toScope (ci_Scope req), st_ScopeID = ci_ScopeID req,
                 st_StartsAt = pl_starts p, st_EndsAt = ci_EndsAt req, st_ActorID = delegatorID\<rparr>) w)
            (\<lambda>_ w. (Inr out, w)))"

definition Create_commit :: "env \<Rightarrow> ctx \<Rightarrow> uuid \<Rightarrow> uuid \<Rightarrow> CreateInput \<Rightarrow> CreatePlan \<Rightarrow> world \<Rightarrow> (error, Delegation, world) outcome" where
  "Create_commit e c tenantID delegatorID req p w =
     (case TxRunner_RunInTx e c (Create_tx e tenantID delegatorID req p) w of
        (Inl err, w) \<Rightarrow>
          (Inl err, if \<not> pl_isScheduled p then snd (up_ClearDelegatePointer e tenantID delegatorID w) else w)
      | (Inr created, w) \<Rightarrow> (Inr created, w))"

definition Create_finish :: "env \<Rightarrow> uuid \<Rightarrow> uuid \<Rightarrow> string \<Rightarrow> Delegation \<Rightarrow> world \<Rightarrow> world" where
  "Create_finish e tenantID delegatorID key created w =
     (let w = (if hasIdempotency e \<and> key \<noteq> ''''
               then snd (IdempotencyStore_Save e tenantID key \<lparr>ir_DelegationID = d_ID created, ir_Status = ''created''\<rparr> w) else w);
          w = (if hasCache e then Cache_InvalidateDelegatorList e tenantID delegatorID w else w)
      in record_metric e (MCreated (d_Scope created)) w)"

definition Create_body :: "env \<Rightarrow> ctx \<Rightarrow> uuid \<Rightarrow> uuid \<Rightarrow> string \<Rightarrow> CreateInput \<Rightarrow> world \<Rightarrow> (error, Delegation, world) outcome" where
  "Create_body e c tenantID delegatorID key req w =
     bind_res (Create_plan e c tenantID delegatorID req w) (\<lambda>p w.
     bind_res (Create_setOOO e tenantID delegatorID req p w) (\<lambda>_ w.
     bind_res (Create_commit e c tenantID delegatorID req p w) (\<lambda>created w.
       (Inr created, Create_finish e tenantID delegatorID key created w))))"

definition DelegationService_Create :: "env \<Rightarrow> ctx \<Rightarrow> uuid \<Rightarrow> uuid \<Rightarrow> string \<Rightarrow> CreateInput \<Rightarrow> world \<Rightarrow> (error, Delegation, world) outcome" where
  "DelegationService_Create e c tenantID delegatorID key req w =
     (case Create_gate e c tenantID key w of
        (GateReturn r, w) \<Rightarrow> (r, w)
      | (GateProceed reserved, w) \<Rightarrow>
          (case Create_body e c tenantID delegatorID key req w of
             (Inl err, w) \<Rightarrow> (Inl err, if reserved then snd (IdempotencyStore_Release e tenantID key w) else w)
           | (Inr d, w) \<Rightarrow> (Inr d, w)))"

definition cancelActor :: "env \<Rightarrow> ctx \<Rightarrow> Delegation \<Rightarrow> uuid" where
  "cancelActor e c d =
     (case c_rc c of
        None \<Rightarrow> d_DelegatorID d
      | Some rc \<Rightarrow> (case uuid_Parse e (rc_UserID rc) of Some u \<Rightarrow> u | None \<Rightarrow> d_DelegatorID d))"

definition cancelTx :: "env \<Rightarrow> ctx \<Rightarrow> uuid \<Rightarrow> uuid \<Rightarrow> int \<Rightarrow> EndReason \<Rightarrow> Delegation \<Rightarrow> ctx \<Rightarrow> world \<Rightarrow> (error, Delegation, world) outcome" where
  "cancelTx e c tenantID did expectedVersion endReason d txCtx w =
     bind_res (DelegationRepository_End e AppPool txCtx tenantID did DelegationCancelled expectedVersion w) (\<lambda>out w.
     bind_res (enqueue e txCtx tenantID did (ActorUser (d_DelegatorID d))
         (DelegationEndedEv \<lparr>en_DelegationID = did, en_TenantID = tenantID, en_DelegatorID = d_DelegatorID d,
            en_DelegateID = d_DelegateID d, en_Scope = d_Scope d, en_ScopeID = d_ScopeID d,
            en_EndedReason = endReason, en_ActorID = cancelActor e c d\<rparr>) w)
       (\<lambda>_ w. (Inr out, w)))"

definition cancelInternal :: "env \<Rightarrow> ctx \<Rightarrow> uuid \<Rightarrow> uuid \<Rightarrow> int \<Rightarrow> EndReason \<Rightarrow> world \<Rightarrow> (error, Delegation, world) outcome" where
  "cancelInternal e c tenantID did expectedVersion endReason w =
     bind_res (DelegationRepository_FindByID e AppPool c tenantID did w) (\<lambda>d w.
     bind_res (TxRunner_RunInTx e c (cancelTx e c tenantID did expectedVersion endReason d)
                 (clearFailOpen e ''cancel'' tenantID (d_DelegatorID d) w)) (\<lambda>ended w.
       (Inr ended,
        record_metric e (MEnded EndReasonCancelled)
          (if hasCache e then Cache_InvalidateDelegatorList e tenantID (d_DelegatorID d) w else w))))"

definition DelegationService_Cancel :: "env \<Rightarrow> ctx \<Rightarrow> uuid \<Rightarrow> uuid \<Rightarrow> int \<Rightarrow> world \<Rightarrow> (error, Delegation, world) outcome" where
  "DelegationService_Cancel e c tenantID did expectedVersion =
     cancelInternal e c tenantID did expectedVersion EndReasonCancelled"

definition extendWindow :: "DelegationTenantSettings \<Rightarrow> Delegation \<Rightarrow> int option \<Rightarrow> int" where
  "extendWindow settings d extendDays =
     (case extendDays of
        Some n \<Rightarrow> n
      | None \<Rightarrow> (case d_ReviewWindowDays d of Some n \<Rightarrow> n | None \<Rightarrow> s_ReviewWindowDays settings))"

definition extendDaysCheck :: "int option \<Rightarrow> error option" where
  "extendDaysCheck extendDays =
     (case extendDays of
        None \<Rightarrow> None
      | Some n \<Rightarrow>
          if n < PolicyDaysMin \<or> n > PolicyDaysMax
          then Some (domainErr ErrExtendDaysOutOfRange ''extend_days must be between 1 and 180'') else None)"

definition extendGuard :: "Delegation \<Rightarrow> error option" where
  "extendGuard d =
     (if d_Status d \<noteq> DelegationActive then Some notFound
      else if d_EndsAt d \<noteq> None
      then Some (domainErr ErrNotReviewTracked ''extend only applies to open-ended delegations'')
      else None)"

definition DelegationService_Extend :: "env \<Rightarrow> ctx \<Rightarrow> uuid \<Rightarrow> uuid \<Rightarrow> int option \<Rightarrow> int \<Rightarrow> world \<Rightarrow> (error, Delegation, world) outcome" where
  "DelegationService_Extend e c tenantID did extendDays expectedVersion w =
     bind_res (check_res (extendDaysCheck extendDays) w) (\<lambda>_ w.
     bind_res (DelegationRepository_FindByID e AppPool c tenantID did w) (\<lambda>d w.
     bind_res (check_res (extendGuard d) w) (\<lambda>_ w.
     bind_res (SettingsRepository_Get e c tenantID w) (\<lambda>settings w.
     bind_res (DelegationRepository_ExtendReview e AppPool c tenantID did (extendWindow settings d extendDays) expectedVersion w) (\<lambda>out w.
       (Inr out,
        setFailOpen e ''extend''
          (oooRequest tenantID (d_DelegatorID out) (d_StartsAt out) (d_ReviewDueAt out) (d_DelegateID out) (d_Reason out))
          (if hasCache e then Cache_InvalidateDelegatorList e tenantID (d_DelegatorID out) w else w)))))))"

record ReassignInput =
  ri_NewDelegateID :: "uuid option"
  ri_Scope :: "string option"
  ri_ScopeID :: "uuid option"
  ri_ScopeIDSet :: bool
  ri_EndsAt :: "time option"
  ri_EndsAtProvided :: bool
  ri_Reason :: "string option"

definition reassignCreate :: "Delegation \<Rightarrow> ReassignInput \<Rightarrow> CreateInput" where
  "reassignCreate existing req =
     \<lparr>ci_DelegateID = (case ri_NewDelegateID req of Some u \<Rightarrow> u | None \<Rightarrow> d_DelegateID existing),
      ci_Scope = (case ri_Scope req of Some s \<Rightarrow> s | None \<Rightarrow> scopeString (d_Scope existing)),
      ci_ScopeID = (if ri_ScopeIDSet req then ri_ScopeID req else d_ScopeID existing),
      ci_Reason = (case ri_Reason req of Some s \<Rightarrow> s | None \<Rightarrow> d_Reason existing),
      ci_StartsAt = None,
      ci_EndsAt = (if ri_EndsAtProvided req then ri_EndsAt req else d_EndsAt existing)\<rparr>"

definition DelegationService_Reassign :: "env \<Rightarrow> ctx \<Rightarrow> uuid \<Rightarrow> uuid \<Rightarrow> int \<Rightarrow> ReassignInput \<Rightarrow> world \<Rightarrow> (error, Delegation, world) outcome" where
  "DelegationService_Reassign e c tenantID did expectedVersion req w =
     bind_res (DelegationRepository_FindByID e AppPool c tenantID did w) (\<lambda>existing w.
     bind_res (check_res (if d_Status existing \<noteq> DelegationActive then Some notFound else None) w) (\<lambda>_ w.
     bind_res (cancelInternal e c tenantID did expectedVersion EndReasonReassigned w) (\<lambda>_ w.
       DelegationService_Create e c tenantID (d_DelegatorID existing) '''' (reassignCreate existing req) w)))"

section \<open>Frames\<close>

text \<open>
  The calls that move a delegate pointer, and the relation "neither the database nor a
  pointer has changed".
\<close>

fun isPointerCall :: "UPCall \<Rightarrow> bool" where
  "isPointerCall (UPGet _ _) = False"
| "isPointerCall (UPSet _ _) = True"
| "isPointerCall (UPClear _ _ _) = True"

definition pointerCalls :: "world \<Rightarrow> UPCall list" where
  "pointerCalls w = filter isPointerCall (up_log w)"

definition quiet :: "world \<Rightarrow> world \<Rightarrow> bool" where
  "quiet w w' \<longleftrightarrow> db w' = db w \<and> pointerCalls w' = pointerCalls w"

interpretation quiet: frame quiet
  by unfold_locales (auto simp: quiet_def)

lemma quietI: "db w' = db w \<Longrightarrow> up_log w' = up_log w \<Longrightarrow> quiet w w'"
  by (simp add: quiet_def pointerCalls_def)

lemma quiet_ext: "db w' = db w \<Longrightarrow> same_ext w w' \<Longrightarrow> quiet w w'"
  by (simp add: same_ext_def quietI)

lemma pointerCalls_simps [simp]:
  "pointerCalls (bump w) = pointerCalls w" "pointerCalls (record_metric e m w) = pointerCalls w"
  "pointerCalls (Cache_InvalidateDelegatorList e T u w) = pointerCalls w"
  "pointerCalls (Cache_SetDelegatorList e T u l w) = pointerCalls w"
  "pointerCalls (snd (IdempotencyStore_Save e T key rec w)) = pointerCalls w"
  "pointerCalls (snd (IdempotencyStore_Release e T key w)) = pointerCalls w"
  "pointerCalls (w\<lparr>db := x\<rparr>) = pointerCalls w"
  by (simp_all add: pointerCalls_def)

lemma quiet_refl [simp]: "quiet w w"
  by (rule quiet.frame_refl)

lemma quiet_FindByID: "DelegationRepository_FindByID e pool c T i w = (r, w') \<Longrightarrow> quiet w w'"
  by (metis FindByID_db quiet_ext repository_ext(2) snd_conv)

lemma quiet_Settings_Get: "SettingsRepository_Get e c T w = (r, w') \<Longrightarrow> quiet w w'"
  by (metis Settings_Get_db quiet_ext other_repositories_ext(1) snd_conv)

lemma quiet_GetAvailability: "up_GetAvailability e T u w = (r, w') \<Longrightarrow> quiet w w'"
  by (auto simp: up_GetAvailability_def quiet_def pointerCalls_def)

lemma quiet_Idem_Get: "IdempotencyStore_Get e T key w = (r, w') \<Longrightarrow> quiet w w'"
  by (metis quietI snd_conv valkey_keeps(7,8))

lemma quiet_Idem_Reserve: "IdempotencyStore_Reserve e T key w = (r, w') \<Longrightarrow> quiet w w'"
  by (metis quietI snd_conv valkey_keeps(11,12))

lemma quiet_Cache_Get: "Cache_GetDelegatorList e T u w = (r, w') \<Longrightarrow> quiet w w'"
  by (metis quietI snd_conv valkey_keeps(1,2))

lemmas quiet_dests = quiet_FindByID quiet_Settings_Get quiet_GetAvailability quiet_Idem_Get
  quiet_Idem_Reserve quiet_Cache_Get

lemma quiet_Create_reserve: "Create_reserve e T key w = (r, w') \<Longrightarrow> quiet w w'"
  by (auto simp: Create_reserve_def split: prod.splits sum.splits bool.splits dest!: quiet_dests)

lemma quiet_Create_gate: "Create_gate e c T key w = (r, w') \<Longrightarrow> quiet w w'"
  by (auto simp: Create_gate_def quiet_def split: prod.splits sum.splits option.splits if_splits
      dest!: quiet_dests quiet_Create_reserve)

lemma quiet_Create_catalog: "Create_catalog e req w = (r, w') \<Longrightarrow> quiet w w'"
  by (auto simp: Create_catalog_def quiet_def split: prod.splits sum.splits option.splits bool.splits if_splits)

lemma quiet_memberships: "checkBothMemberships e T u v w = (r, w') \<Longrightarrow> quiet w w'"
  by (auto simp: checkBothMemberships_def Let_def quiet_def split: prod.splits sum.splits if_splits)

lemma quiet_delegateFree: "Create_delegateFree e T u b s w = (r, w') \<Longrightarrow> quiet w w'"
  by (auto simp: Create_delegateFree_def quiet_def split: prod.splits sum.splits if_splits dest!: quiet_dests)

section \<open>The plan\<close>

text \<open>What a plan promises: the checks of lines 152 to 264 have passed.\<close>

definition plan_ok :: "uuid \<Rightarrow> uuid \<Rightarrow> CreateInput \<Rightarrow> CreatePlan \<Rightarrow> bool" where
  "plan_ok T u req p \<longleftrightarrow>
     validateCreateInput u req = None
     \<and> Create_window (pl_now p) req = Inr (pl_starts p)
     \<and> Create_span (pl_settings p) (pl_starts p) req = None
     \<and> pl_isScheduled p = (pl_starts p > pl_now p)
     \<and> pl_reviewDueAt p = (if ci_EndsAt req = None
         then Some (pl_starts p + s_ReviewWindowDays (pl_settings p) * day) else None)
     \<and> s_TenantID (pl_settings p) = T
     \<and> 1 \<le> s_MaxDurationDays (pl_settings p) \<and> s_MaxDurationDays (pl_settings p) \<le> 180
     \<and> 1 \<le> s_ReviewWindowDays (pl_settings p) \<and> s_ReviewWindowDays (pl_settings p) \<le> 180"

lemma Create_plan_ok:
  assumes "db_inv (db w)" "Create_plan e c T u req w = (Inr p, w')"
  shows "plan_ok T u req p"
proof -
  from assms(2) obtain w1 w2 starts settings where
    v: "validateCreateInput u req = None" and cat: "Create_catalog e req w = (Inr (), w1)"
    and win: "Create_window (pl_now p) req = Inr starts"
    and get: "SettingsRepository_Get e c T w1 = (Inr settings, w2)"
    and span: "Create_span settings starts req = None"
    and p: "pl_starts p = starts" "pl_settings p = settings" "pl_isScheduled p = (starts > pl_now p)"
      "pl_reviewDueAt p = (if ci_EndsAt req = None then Some (starts + s_ReviewWindowDays settings * day) else None)"
    unfolding Create_plan_def Let_def res_iff by auto
  from cat assms(1) have "db_inv (db w1)" by (auto dest!: quiet_Create_catalog simp: quiet_def)
  from Settings_Get_ok [OF this get] v win span p show ?thesis by (simp add: plan_ok_def)
qed

lemma quiet_Create_plan: "Create_plan e c T u req w = (r, w') \<Longrightarrow> quiet w w'"
proof -
  have "quiet w (snd (Create_plan e c T u req w))"
    unfolding Create_plan_def Let_def
    by (intro quiet.frame_bind)
       (auto simp: check_res_def split: option.split intro: quiet_dests quiet_Create_catalog quiet_memberships quiet_delegateFree prod.collapse [symmetric])
  then show "Create_plan e c T u req w = (r, w') \<Longrightarrow> quiet w w'" by simp
qed

section \<open>Create\<close>

text \<open>The clock is past the Unix epoch, in particular never near Go's zero time.\<close>

definition sane_clock :: "env \<Rightarrow> bool" where
  "sane_clock e \<longleftrightarrow> (\<forall>n. 0 \<le> clock e n)"

definition granted :: "uuid \<Rightarrow> uuid \<Rightarrow> CreateInput \<Rightarrow> CreatePlan \<Rightarrow> Delegation \<Rightarrow> bool" where
  "granted T u req p d \<longleftrightarrow>
     d_TenantID d = T \<and> d_DelegatorID d = u \<and> d_DelegateID d = ci_DelegateID req
     \<and> d_DelegatorMembershipID d = pl_delegatorMembershipID p
     \<and> d_DelegateMembershipID d = pl_delegateMembershipID p
     \<and> d_Scope d = toScope (ci_Scope req) \<and> d_ScopeID d = ci_ScopeID req \<and> d_Reason d = ci_Reason req
     \<and> d_StartsAt d = pl_starts p \<and> d_EndsAt d = ci_EndsAt req
     \<and> d_Status d = (if pl_isScheduled p then DelegationScheduled else DelegationActive)
     \<and> d_RecordVersion d = 1 \<and> d_DeletedAt d = None \<and> d_ReviewDueAt d = pl_reviewDueAt p
     \<and> d_ReviewLastWarnedBucket d = None
     \<and> d_ReviewWindowDays d = Some (s_ReviewWindowDays (pl_settings p))"

definition appended :: "db \<Rightarrow> Delegation \<Rightarrow> EventData list \<Rightarrow> db \<Rightarrow> bool" where
  "appended d r evs d' \<longleftrightarrow> changed d (delegations d @ [r]) evs d'"

lemma Create_tx_ok:
  assumes "Create_tx e T u req p c w = (Inr d, w')" "pl_starts p \<noteq> zeroTime"
  shows "granted T u req p d" "delegationRowOK d" "d_ID d \<notin> d_ID ` set (delegations (db w))"
    "appended (db w) d (if pl_isScheduled p \<or> \<not> c_publisher c then [] else [startedPayload T d u]) (db w')"
proof -
  from assms(1) obtain w1 where ins: "DelegationRepository_Insert e AppPool c (newDelegation T u req p) w = (Inr d, w1)"
    and ev: "pl_isScheduled p \<and> w' = w1 \<or> \<not> pl_isScheduled p \<and> (\<exists>x. enqueue e c T (d_ID d) (ActorUser u)
              (DelegationStarted \<lparr>st_DelegationID = d_ID d, st_TenantID = T, st_DelegatorID = u,
                 st_DelegateID = ci_DelegateID req, st_Scope = toScope (ci_Scope req), st_ScopeID = ci_ScopeID req,
                 st_StartsAt = pl_starts p, st_EndsAt = ci_EndsAt req, st_ActorID = u\<rparr>) w1 = (Inr x, w'))"
    unfolding Create_tx_def res_iff by (auto simp: res_iff split: if_splits)
  from ins show g: "granted T u req p d" and "delegationRowOK d" and "d_ID d \<notin> d_ID ` set (delegations (db w))"
    by (rule Insert_ok; simp add: granted_def newDelegation_def assms(2))+
  have w1: "changed (db w) (delegations (db w) @ [d]) [] (db w1)"
    using ins by (rule Insert_ok) (simp add: changed_rows)
  show "appended (db w) d (if pl_isScheduled p \<or> \<not> c_publisher c then [] else [startedPayload T d u]) (db w')"
    unfolding appended_def
    using ev w1 g by (auto simp: granted_def startedPayload_def dest!: enqueue_changed [OF _ w1])
qed

lemma Create_tx_ext: "same_ext w (snd (Create_tx e T u req p c w))"
  unfolding Create_tx_def by (intro ext.frame_bind) (auto intro!: ext.frame_bind enqueue_ext)

lemma RunInTx_pointerCalls:
  assumes "\<And>c' w1. same_ext w1 (snd (f c' w1))" "TxRunner_RunInTx e c f w = (r, w')"
  shows "pointerCalls w' = pointerCalls w" "kv w' = kv w"
  using ext.frame_RunInTx [of c f w e] assms by (auto simp: same_ext_def pointerCalls_def)

lemma Create_commit_error:
  assumes "c_tx c = None" "Create_commit e c T u req p w = (Inl err, w')"
  shows "db w' = db w"
    "pointerCalls w' = pointerCalls w @ (if pl_isScheduled p then [] else [UPClear T u (clearDelegatePointer e (tick w' - 1) T u = None)])"
proof -
  from assms(2) obtain w1 where tx: "TxRunner_RunInTx e c (Create_tx e T u req p) w = (Inl err, w1)"
    and w': "w' = (if \<not> pl_isScheduled p then snd (up_ClearDelegatePointer e T u w1) else w1)"
    by (auto simp: Create_commit_def split: prod.splits sum.splits)
  from RunInTx_error [OF assms(1) tx] w' show "db w' = db w" by simp
  from RunInTx_pointerCalls [OF Create_tx_ext tx] w'
  show "pointerCalls w' = pointerCalls w @ (if pl_isScheduled p then [] else [UPClear T u (clearDelegatePointer e (tick w' - 1) T u = None)])"
    by (auto simp: pointerCalls_def up_ClearDelegatePointer_def Let_def)
qed

lemma Create_commit_ok:
  assumes "c_tx c = None" "Create_commit e c T u req p w = (Inr d, w')" "pl_starts p \<noteq> zeroTime"
  shows "granted T u req p d" "delegationRowOK d" "d_ID d \<notin> d_ID ` set (delegations (db w))"
    "appended (db w) d (if pl_isScheduled p \<or> \<not> (hasPublisher e \<or> c_publisher c) then [] else [startedPayload T d u]) (db w')"
    "pointerCalls w' = pointerCalls w"
proof -
  from assms(2) have tx: "TxRunner_RunInTx e c (Create_tx e T u req p) w = (Inr d, w')"
    by (auto simp: Create_commit_def split: prod.splits sum.splits)
  then obtain c' w0 w1 where *: "c_publisher c' = (hasPublisher e \<or> c_publisher c)"
    "db w0 = db w" "Create_tx e T u req p c' w0 = (Inr d, w1)" "w' = bump w1"
    using RunInTx_ok [OF assms(1)] by metis
  from Create_tx_ok [OF *(3) assms(3)] * show "granted T u req p d" "delegationRowOK d"
    "d_ID d \<notin> d_ID ` set (delegations (db w))"
    "appended (db w) d (if pl_isScheduled p \<or> \<not> (hasPublisher e \<or> c_publisher c) then [] else [startedPayload T d u]) (db w')"
    by auto
  from RunInTx_pointerCalls [OF Create_tx_ext tx] show "pointerCalls w' = pointerCalls w" by simp
qed

lemma quiet_finish: "quiet w (Create_finish e T u key d w)"
  by (simp add: Create_finish_def Let_def quiet_def)

text \<open>The User Profile request of a create that is effective at once.\<close>

definition createOOO :: "uuid \<Rightarrow> uuid \<Rightarrow> CreateInput \<Rightarrow> CreatePlan \<Rightarrow> SetAvailabilityRequest" where
  "createOOO T u req p =
     oooRequest T u (max (pl_starts p) (pl_now p))
       (case ci_EndsAt req of None \<Rightarrow> pl_reviewDueAt p | Some x \<Rightarrow> Some x) (ci_DelegateID req) (ci_Reason req)"

lemma Create_setOOO_result:
  assumes "Create_setOOO e T u req p w = (r, w')"
  shows "db w' = db w"
    "pointerCalls w' = pointerCalls w @ (if pl_isScheduled p then [] else [UPSet (createOOO T u req p) (\<not> isl r)])"
    "pl_isScheduled p \<Longrightarrow> \<not> isl r"
proof -
  have m: "(if a < b then b else a) = max a b" for a b :: int by simp
  show "db w' = db w" "pl_isScheduled p \<Longrightarrow> \<not> isl r"
    "pointerCalls w' = pointerCalls w @ (if pl_isScheduled p then [] else [UPSet (createOOO T u req p) (\<not> isl r)])"
    using assms
    by (auto simp: Create_setOOO_def Let_def up_SetAvailability_def pointerCalls_def m createOOO_def
        split: option.splits if_splits)
qed

lemma plan_starts_sane:
  assumes "sane_clock e" "Create_plan e c T u req w = (Inr p, w')"
  shows "pl_starts p \<noteq> zeroTime"
proof -
  from assms(2) obtain n where "pl_now p = clock e n" and win: "Create_window (pl_now p) req = Inr (pl_starts p)"
    unfolding Create_plan_def Let_def res_iff by auto
  with assms(1) have "0 \<le> pl_now p" by (simp add: sane_clock_def)
  with win show ?thesis
    by (auto simp: Create_window_def Let_def skewTolerance_def second_def zeroTime_def split: option.splits if_splits)
qed

text \<open>
  How a failed create may have left User Profile: untouched, a refused update, or an accepted
  update followed by the attempt to clear it.
\<close>

definition compensated :: "uuid \<Rightarrow> uuid \<Rightarrow> UPCall list \<Rightarrow> bool" where
  "compensated T u cs \<longleftrightarrow>
     cs = [] \<or> (\<exists>r. cs = [UPSet r False]) \<or> (\<exists>r ok. cs = [UPSet r True, UPClear T u ok])"

lemma Create_body_error:
  assumes "c_tx c = None" "Create_body e c T u key req w = (Inl err, w')"
  shows "db w' = db w \<and> (\<exists>cs. pointerCalls w' = pointerCalls w @ cs \<and> compensated T u cs)"
proof -
  from assms(2) consider
      "Create_plan e c T u req w = (Inl err, w')"
    | p w1 where "Create_plan e c T u req w = (Inr p, w1)" "Create_setOOO e T u req p w1 = (Inl err, w')"
    | p w1 x w2 where "Create_plan e c T u req w = (Inr p, w1)" "Create_setOOO e T u req p w1 = (Inr x, w2)"
        "Create_commit e c T u req p w2 = (Inl err, w')"
    unfolding Create_body_def res_iff by auto
  then show ?thesis
  proof cases
    case 1
    then show ?thesis by (auto dest!: quiet_Create_plan simp: quiet_def compensated_def)
  next
    case 2
    from quiet_Create_plan [OF 2(1)] Create_setOOO_result [OF 2(2)] show ?thesis
      by (auto simp: quiet_def compensated_def split: if_splits)
  next
    case 3
    from quiet_Create_plan [OF 3(1)] Create_setOOO_result [OF 3(2)] Create_commit_error [OF assms(1) 3(3)]
    show ?thesis by (auto simp: quiet_def compensated_def split: if_splits)
  qed
qed

lemma Create_body_ok:
  assumes "c_tx c = None" "sane_clock e" "db_inv (db w)" "Create_body e c T u key req w = (Inr d, w')"
  obtains p where "plan_ok T u req p" "granted T u req p d" "delegationRowOK d"
    "d_ID d \<notin> d_ID ` set (delegations (db w))"
    "appended (db w) d (if pl_isScheduled p \<or> \<not> (hasPublisher e \<or> c_publisher c) then [] else [startedPayload T d u]) (db w')"
    "pointerCalls w' = pointerCalls w @ (if pl_isScheduled p then [] else [UPSet (createOOO T u req p) True])"
proof -
  from assms(4) obtain p w1 x w2 w3 where
      p: "Create_plan e c T u req w = (Inr p, w1)" and s: "Create_setOOO e T u req p w1 = (Inr x, w2)"
    and k: "Create_commit e c T u req p w2 = (Inr d, w3)" and f: "w' = Create_finish e T u key d w3"
    unfolding Create_body_def res_iff by auto
  note q = quiet_Create_plan [OF p] Create_setOOO_result [OF s] quiet_finish [of w3 e T u key d]
  from Create_commit_ok [OF assms(1) k plan_starts_sane [OF assms(2) p]] Create_plan_ok [OF assms(3) p] q f
  show ?thesis by (intro that [of p]) (auto simp: quiet_def split: if_splits)
qed

lemma Create_gate_replay:
  assumes "Create_gate e c T key w = (GateReturn (Inr d), w')"
  shows "key \<noteq> ''''" "d \<in> set (delegations (db w))" "liveRow T (d_ID d) d"
proof -
  from assms obtain rec w1 w2 where k: "key \<noteq> ''''"
    and get: "IdempotencyStore_Get e T key w = (Inr (Some rec), w1)"
    and find: "DelegationRepository_FindByID e AppPool c T (ir_DelegationID rec) w1 = (Inr d, w2)"
    by (auto simp: Create_gate_def Create_reserve_def
        split: if_splits prod.splits sum.splits option.splits bool.splits)
  from quiet_Idem_Get [OF get] FindByID_ok [OF find] k
  show "key \<noteq> ''''" "d \<in> set (delegations (db w))" "liveRow T (d_ID d) d"
    by (auto simp: quiet_def liveRow_def)
qed

lemma Create_error:
  assumes "c_tx c = None" "DelegationService_Create e c T u key req w = (Inl err, w')"
  shows "db w' = db w \<and> (\<exists>cs. pointerCalls w' = pointerCalls w @ cs \<and> compensated T u cs)"
proof -
  from assms(2) consider "Create_gate e c T key w = (GateReturn (Inl err), w')"
    | b w1 w2 where "Create_gate e c T key w = (GateProceed b, w1)" "Create_body e c T u key req w1 = (Inl err, w2)"
        "w' = (if b then snd (IdempotencyStore_Release e T key w2) else w2)"
    by (auto simp: DelegationService_Create_def split: prod.splits Gate.splits sum.splits)
  then show ?thesis
  proof cases
    case 1
    then show ?thesis by (auto dest!: quiet_Create_gate simp: quiet_def compensated_def)
  next
    case 2
    from quiet_Create_gate [OF 2(1)] Create_body_error [OF assms(1) 2(2)] 2(3) show ?thesis
      by (auto simp: quiet_def)
  qed
qed

lemma Create_cases:
  assumes "c_tx c = None" "sane_clock e" "db_inv (db w)" "DelegationService_Create e c T u key req w = (Inr d, w')"
  obtains (replay) "key \<noteq> ''''" "db w' = db w" "pointerCalls w' = pointerCalls w"
      "d \<in> set (delegations (db w))" "liveRow T (d_ID d) d"
  | (fresh) p where "plan_ok T u req p" "granted T u req p d" "delegationRowOK d"
      "d_ID d \<notin> d_ID ` set (delegations (db w))"
      "appended (db w) d (if pl_isScheduled p \<or> \<not> (hasPublisher e \<or> c_publisher c) then [] else [startedPayload T d u]) (db w')"
      "pointerCalls w' = pointerCalls w @ (if pl_isScheduled p then [] else [UPSet (createOOO T u req p) True])"
proof -
  from assms(4) consider "Create_gate e c T key w = (GateReturn (Inr d), w')"
    | b w1 where "Create_gate e c T key w = (GateProceed b, w1)" "Create_body e c T u key req w1 = (Inr d, w')"
    by (auto simp: DelegationService_Create_def split: prod.splits Gate.splits sum.splits)
  then show ?thesis
  proof cases
    case 1
    from Create_gate_replay [OF 1] quiet_Create_gate [OF 1] replay show ?thesis by (simp add: quiet_def)
  next
    case 2
    from quiet_Create_gate [OF 2(1)] have q: "db w1 = db w" "pointerCalls w1 = pointerCalls w" by (simp_all add: quiet_def)
    from assms(3) q have "db_inv (db w1)" by simp
    from Create_body_ok [OF assms(1,2) this 2(2)] fresh show ?thesis unfolding q by metis
  qed
qed

section \<open>Frames of the use cases\<close>

lemma Create_parts_db [simp]:
  "db (snd (Create_plan e c T u req w)) = db w" "db (snd (Create_setOOO e T u req p w)) = db w"
  "db (Create_finish e T u key d w) = db w" "db (snd (Create_gate e c T key w)) = db w"
  using quiet_Create_plan [of e c T u req w] Create_setOOO_result(1) [of e T u req p w] quiet_finish [of w e T u key d]
    quiet_Create_gate [of e c T key w]
  by (simp_all add: quiet_def prod_eq_iff)

text \<open>The bodies of the transactions respect what their repository calls respect.\<close>

context repo_frame
begin

lemma frame_Create_tx: "okc c \<Longrightarrow> okg T u \<Longrightarrow> R (db w) (db (snd (Create_tx e T u req p c w)))"
  unfolding Create_tx_def
  by (intro w.frame_bind r_Insert) (auto intro!: w.frame_bind r_enqueue simp: db_refl newDelegation_def)

lemma frame_cancelTx: "okc c' \<Longrightarrow> R (db w) (db (snd (cancelTx e c T i v reason d c' w)))"
  unfolding cancelTx_def by (intro w.frame_bind r_End r_enqueue) (simp_all add: db_refl)

end

text \<open>
  A relation that the transaction bodies respect is respected by the use cases, also when the
  single repository calls inside a body do not respect it. \<open>okg\<close> restricts the tenant and the
  delegator a delegation may be created for.
\<close>

locale service_frame = db_frame R for R :: "db \<Rightarrow> db \<Rightarrow> bool" +
  fixes okc :: "ctx \<Rightarrow> bool" and okg :: "uuid \<Rightarrow> uuid \<Rightarrow> bool"
  assumes b_opened: "okc c \<Longrightarrow> opened_ctx c c' \<Longrightarrow> okc c'"
    and b_Create_tx: "okc c \<Longrightarrow> c_tx c = Some t \<Longrightarrow> okg T u \<Longrightarrow> R (db w) (db (snd (Create_tx e T u req p c w)))"
    and b_cancelTx: "okc c' \<Longrightarrow> c_tx c' = Some t \<Longrightarrow> R (db w) (db (snd (cancelTx e c T i v reason d c' w)))"
    and b_ExtendReview: "okc c \<Longrightarrow> R (db w) (db (snd (DelegationRepository_ExtendReview e AppPool c T i n v w)))"
    and b_Upsert: "okc c \<Longrightarrow> R (db w) (db (snd (SettingsRepository_Upsert e c T n m w)))"
begin

lemma frame_body:
  assumes "okc c" "\<And>c' t w1. okc c' \<Longrightarrow> c_tx c' = Some t \<Longrightarrow> R (db w1) (db (snd (f c' w1)))"
  shows "R (db w) (db (snd (TxRunner_RunInTx e c f w)))"
proof (rule w.frame_RunInTx)
  fix c' w1
  assume c': "opened_ctx c c'"
  then obtain t where "c_tx c' = Some t" by (auto simp: opened_ctx_def)
  with assms(2) b_opened [OF assms(1) c'] show "R (db w1) (db (snd (f c' w1)))" by blast
qed

lemma frame_Create_commit:
  assumes "okc c" "okg T u"
  shows "R (db w) (db (snd (Create_commit e c T u req p w)))"
proof -
  have "R (db w) (db (snd (TxRunner_RunInTx e c (Create_tx e T u req p) w)))"
    by (rule frame_body [OF assms(1)], rule b_Create_tx) (use assms(2) in auto)
  then show ?thesis by (auto simp: Create_commit_def split: prod.split sum.split)
qed

lemma frame_Create:
  assumes "okc c" "okg T u"
  shows "R (db w) (db (snd (DelegationService_Create e c T u key req w)))"
proof -
  have "R (db w) (db (snd (Create_body e c T u key req w)))" for w
    unfolding Create_body_def
    by (intro w.frame_bind frame_Create_commit assms) (simp_all add: db_refl)
  then have body: "Create_body e c T u key req w0 = (r, w2) \<Longrightarrow> R (db w0) (db w2)" for w0 r w2
    by (metis snd_conv)
  obtain g w1 where g: "Create_gate e c T key w = (g, w1)" by force
  then have "db w1 = db w" using Create_parts_db(4) [of e c T key w] by simp
  with body [of w1] show ?thesis
    by (auto simp: DelegationService_Create_def g db_refl split: Gate.split prod.split sum.split)
qed

lemma frame_cancelInternal:
  assumes "okc c"
  shows "R (db w) (db (snd (cancelInternal e c T i v reason w)))"
proof -
  have "R (db (clearFailOpen e op T u w1)) (db (snd (TxRunner_RunInTx e c (cancelTx e c T i v reason d) (clearFailOpen e op T u w1))))" for w1 d u op
    by (rule frame_body [OF assms], rule b_cancelTx)
  then show ?thesis
    unfolding cancelInternal_def
    by (intro w.frame_bind) (simp_all add: db_refl)
qed

lemma frame_check: "R (db w) (db (snd (check_res x w)))"
  by (simp add: check_res_def db_refl split: option.split)

lemma frame_Extend: "okc c \<Longrightarrow> R (db w) (db (snd (DelegationService_Extend e c T i x v w)))"
  unfolding DelegationService_Extend_def
  by (intro w.frame_bind frame_check b_ExtendReview) (simp_all add: db_refl)

lemma frame_Reassign:
  assumes "okc c" "\<And>d. d \<in> set (delegations (db w)) \<Longrightarrow> liveRow T i d \<Longrightarrow> okg T (d_DelegatorID d)"
  shows "R (db w) (db (snd (DelegationService_Reassign e c T i v req w)))"
  unfolding DelegationService_Reassign_def
  by (intro w.frame_bind frame_check frame_cancelInternal frame_Create assms)
     (auto simp: db_refl dest: FindByID_ok)

end

sublocale repo_frame \<subseteq> service_frame R okc okg
  by unfold_locales (auto intro: ok_opened frame_Create_tx frame_cancelTx r_ExtendReview r_Upsert)

section \<open>Cancel\<close>

definition replace_row :: "Delegation \<Rightarrow> Delegation list \<Rightarrow> Delegation list" where
  "replace_row r' rows = map (\<lambda>x. if d_ID x = d_ID r' then r' else x) rows"

lemma wrote_row_changed: "wrote_row d d' r r' \<Longrightarrow> changed d (replace_row r' (delegations d)) [] d'"
  by (simp add: wrote_row_def changed_def outboxData_def replace_row_def)

lemma cancelTx_ext: "same_ext w (snd (cancelTx e c T i v reason d c' w))"
  unfolding cancelTx_def by (intro ext.frame_bind) (auto intro!: ext.frame_bind enqueue_ext)

lemma cancelInternal_error:
  assumes "c_tx c = None" "cancelInternal e c T i v reason w = (Inl err, w')"
  shows "db w' = db w"
    "pointerCalls w' = pointerCalls w \<or> (\<exists>r ok. r \<in> set (delegations (db w)) \<and> liveRow T i r
       \<and> pointerCalls w' = pointerCalls w @ [UPClear T (d_DelegatorID r) ok])"
proof -
  have "db w' = db w \<and> (pointerCalls w' = pointerCalls w \<or> (\<exists>r ok. r \<in> set (delegations (db w)) \<and> liveRow T i r
       \<and> pointerCalls w' = pointerCalls w @ [UPClear T (d_DelegatorID r) ok]))"
  proof -
    from assms(2) consider "DelegationRepository_FindByID e AppPool c T i w = (Inl err, w')"
      | d w1 where "DelegationRepository_FindByID e AppPool c T i w = (Inr d, w1)"
          "TxRunner_RunInTx e c (cancelTx e c T i v reason d) (clearFailOpen e ''cancel'' T (d_DelegatorID d) w1) = (Inl err, w')"
      unfolding cancelInternal_def res_iff by auto
    then show ?thesis
    proof cases
      case 1
      from quiet_FindByID [OF 1] show ?thesis by (simp add: quiet_def)
    next
      case 2
      from RunInTx_error [OF assms(1) 2(2)] RunInTx_pointerCalls(1) [OF cancelTx_ext 2(2)]
        quiet_FindByID [OF 2(1)] FindByID_ok [OF 2(1)]
      show ?thesis by (auto simp: quiet_def pointerCalls_def)
    qed
  qed
  then show "db w' = db w"
    "pointerCalls w' = pointerCalls w \<or> (\<exists>r ok. r \<in> set (delegations (db w)) \<and> liveRow T i r
       \<and> pointerCalls w' = pointerCalls w @ [UPClear T (d_DelegatorID r) ok])" by auto
qed

text \<open>
  The transaction acts on the row as it is when it runs; the row \<open>d\<close> read before it only
  contributes the fields no write changes.
\<close>

lemma cancelTx_ok:
  assumes "db_inv (db w)" "r \<in> set (delegations (db w))" "d_ID r = i" "same_grant d r"
    and "cancelTx e c T i v reason d c' w = (Inr out, w')"
  obtains now where "liveRow T i r" "d_RecordVersion r = v" "openStatus (d_Status r)"
    "out = stamped now (r\<lparr>d_Status := DelegationCancelled\<rparr>)"
    "changed (db w) (replace_row out (delegations (db w)))
       (if c_publisher c' then [endedPayload T r reason (cancelActor e c r)] else []) (db w')"
proof -
  from assms(5) obtain w1 x where en: "DelegationRepository_End e AppPool c' T i DelegationCancelled v w = (Inr out, w1)"
    and ev: "enqueue e c' T i (ActorUser (d_DelegatorID d))
         (DelegationEndedEv \<lparr>en_DelegationID = i, en_TenantID = T, en_DelegatorID = d_DelegatorID d,
            en_DelegateID = d_DelegateID d, en_Scope = d_Scope d, en_ScopeID = d_ScopeID d,
            en_EndedReason = reason, en_ActorID = cancelActor e c d\<rparr>) w1 = (Inr x, w')"
    unfolding cancelTx_def res_iff by auto
  obtain t :: tx and r0 where r0: "liveRow T i r0" "d_RecordVersion r0 = v" "openStatus (d_Status r0)"
    "out = touch_row (tx_now t) r0 (r0\<lparr>d_Status := DelegationCancelled\<rparr>)" "wrote_row (db w) (db w1) r0 out"
    by (rule End_ok [OF assms(1) en]) (rule that)
  from r0(5) have "r0 \<in> set (delegations (db w))" by (simp add: wrote_row_def)
  with assms(1-3) r0(1) have "r0 = r"
    by (auto simp: db_inv_def liveRow_def dest: distinct_key_eq)
  have out: "out = stamped (tx_now t) (r\<lparr>d_Status := DelegationCancelled\<rparr>)"
    using r0(3,4) \<open>r0 = r\<close> by (simp add: touch_close)
  have "cancelActor e c d = cancelActor e c r" using assms(4) by (simp add: cancelActor_def same_grant_def cong: option.case_cong)
  then have "changed (db w) (replace_row out (delegations (db w)))
       (if c_publisher c' then [endedPayload T r reason (cancelActor e c r)] else []) (db w')"
    using enqueue_changed [OF ev wrote_row_changed [OF r0(5)]] assms(3,4)
    by (simp add: endedPayload_def same_grant_def split: if_splits)
  with that out r0 \<open>r0 = r\<close> show ?thesis by blast
qed

lemma cancel_run_ok:
  assumes "c_tx c = None" "db_inv (db w)" "r \<in> set (delegations (db w))" "d_ID r = i" "same_grant d r"
    and tx: "TxRunner_RunInTx e c (cancelTx e c T i v reason d) w = (Inr out, w')"
  obtains now where "liveRow T i r" "d_RecordVersion r = v" "openStatus (d_Status r)"
    "out = stamped now (r\<lparr>d_Status := DelegationCancelled\<rparr>)"
    "changed (db w) (replace_row out (delegations (db w)))
       (if hasPublisher e \<or> c_publisher c then [endedPayload T r reason (cancelActor e c r)] else []) (db w')"
    "pointerCalls w' = pointerCalls w"
proof -
  from tx obtain c' w3 w4 where c': "c_publisher c' = (hasPublisher e \<or> c_publisher c)" "db w3 = db w"
    "cancelTx e c T i v reason d c' w3 = (Inr out, w4)" "w' = bump w4"
    by (rule RunInTx_ok [OF assms(1)])
  have "db_inv (db w3)" "r \<in> set (delegations (db w3))" using assms(2,3) c'(2) by simp_all
  moreover have "pointerCalls w' = pointerCalls w" by (rule RunInTx_pointerCalls(1) [OF cancelTx_ext tx])
  ultimately show ?thesis
    by - (rule cancelTx_ok [OF _ _ assms(4,5) c'(3)], assumption+, rule that, simp_all add: c')
qed

lemma cancelInternal_ok:
  assumes "c_tx c = None" "db_inv (db w)" "cancelInternal e c T i v reason w = (Inr out, w')"
  obtains d now ok where "d \<in> set (delegations (db w))" "liveRow T i d"
    "d_RecordVersion d = v" "openStatus (d_Status d)"
    "out = stamped now (d\<lparr>d_Status := DelegationCancelled\<rparr>)"
    "changed (db w) (replace_row out (delegations (db w)))
       (if hasPublisher e \<or> c_publisher c then [endedPayload T d reason (cancelActor e c d)] else []) (db w')"
    "pointerCalls w' = pointerCalls w @ [UPClear T (d_DelegatorID d) ok]"
proof -
  from assms(3) obtain d w1 w2 where f: "DelegationRepository_FindByID e AppPool c T i w = (Inr d, w1)"
    and tx: "TxRunner_RunInTx e c (cancelTx e c T i v reason d) (clearFailOpen e ''cancel'' T (d_DelegatorID d) w1) = (Inr out, w2)"
    and w': "w' = record_metric e (MEnded EndReasonCancelled) (if hasCache e then Cache_InvalidateDelegatorList e T (d_DelegatorID d) w2 else w2)"
    unfolding cancelInternal_def res_iff by auto
  from quiet_FindByID [OF f] have q: "db w1 = db w" "pointerCalls w1 = pointerCalls w" by (simp_all add: quiet_def)
  from FindByID_ok [OF f] have d: "d \<in> set (delegations (db w))" "liveRow T i d" by simp_all
  let ?w = "clearFailOpen e ''cancel'' T (d_DelegatorID d) w1"
  have same: "db ?w = db w" "db w' = db w2" "pointerCalls w' = pointerCalls w2"
    "pointerCalls ?w = pointerCalls w @ [UPClear T (d_DelegatorID d) (clearDelegatePointer e (tick w1) T (d_DelegatorID d) = None)]"
    using q w' by (simp_all add: pointerCalls_def)
  have "db_inv (db ?w)" "d \<in> set (delegations (db ?w))" "d_ID d = i" "same_grant d d"
    using assms(2) d same(1) by (simp_all add: liveRow_def same_grant_def)
  then show ?thesis
    by (rule cancel_run_ok [OF assms(1) _ _ _ _ tx]) (rule that [OF d], simp_all add: same q(1))
qed

section \<open>Extend\<close>

lemma Extend_error:
  assumes "c_tx c = None" "DelegationService_Extend e c T i x v w = (Inl err, w')"
  shows "quiet w w'"
proof -
  have "quiet w1 w2"
    if "DelegationRepository_ExtendReview e AppPool c T i n v w1 = (Inl err, w2)" for n w1 w2
    using that ExtendReview_ext [of w1 e AppPool c T i n v] withPool_error [OF assms(1)]
    by (intro quiet_ext) (auto simp: DelegationRepository_ExtendReview_def)
  with assms(2) show ?thesis
    unfolding DelegationService_Extend_def res_iff
    by (auto simp: quiet_def dest!: quiet_FindByID quiet_Settings_Get)
qed

lemma extendWindow_range:
  assumes "extendDaysCheck x = None" "delegationRowOK d" "1 \<le> s_ReviewWindowDays s" "s_ReviewWindowDays s \<le> 180"
  shows "1 \<le> extendWindow s d x" "extendWindow s d x \<le> 180"
  using assms by (auto simp: extendDaysCheck_def extendWindow_def delegationRowOK_def PolicyDaysMin_def PolicyDaysMax_def
      split: option.splits if_splits)

lemma Extend_ok:
  assumes "c_tx c = None" "db_inv (db w)" "DelegationService_Extend e c T i x v w = (Inr out, w')"
  obtains d s now ok where "d \<in> set (delegations (db w))" "liveRow T i d" "d_RecordVersion d = v"
    "d_Status d = DelegationActive" "d_EndsAt d = None"
    "1 \<le> extendWindow s d x" "extendWindow s d x \<le> 180"
    "out = touch_row now d (extendRow (extendWindow s d x) d)"
    "changed (db w) (replace_row out (delegations (db w))) [] (db w')"
    "pointerCalls w' = pointerCalls w
       @ [UPSet (oooRequest T (d_DelegatorID d) (d_StartsAt d) (d_ReviewDueAt out) (d_DelegateID d) (d_Reason d)) ok]"
proof -
  from assms(3) obtain d w1 s w2 w3 where range: "extendDaysCheck x = None"
    and f: "DelegationRepository_FindByID e AppPool c T i w = (Inr d, w1)"
    and g: "SettingsRepository_Get e c T w1 = (Inr s, w2)"
    and ex: "DelegationRepository_ExtendReview e AppPool c T i (extendWindow s d x) v w2 = (Inr out, w3)"
    and w': "w' = setFailOpen e ''extend''
          (oooRequest T (d_DelegatorID out) (d_StartsAt out) (d_ReviewDueAt out) (d_DelegateID out) (d_Reason out))
          (if hasCache e then Cache_InvalidateDelegatorList e T (d_DelegatorID out) w3 else w3)"
    unfolding DelegationService_Extend_def res_iff by auto
  have q: "db w2 = db w" "pointerCalls w2 = pointerCalls w" "db w1 = db w"
    using quiet_FindByID [OF f] quiet_Settings_Get [OF g] by (simp_all add: quiet_def)
  from FindByID_ok [OF f] have d: "d \<in> set (delegations (db w))" "liveRow T i d" by simp_all
  have inv: "db_inv (db w2)" "db_inv (db w1)" using assms(2) q by simp_all
  obtain t :: tx and r where r: "liveRow T i r" "d_RecordVersion r = v" "d_Status r = DelegationActive" "d_EndsAt r = None"
    "out = touch_row (tx_now t) r (extendRow (extendWindow s d x) r)" "wrote_row (db w2) (db w3) r out"
    by (rule ExtendReview_ok [OF inv(1) ex]) (rule that)
  from r(6) q have "r \<in> set (delegations (db w))" by (simp add: wrote_row_def)
  with assms(2) d r(1) have "r = d" by (auto simp: db_inv_def liveRow_def dest: distinct_key_eq)
  have "delegationRowOK d" using assms(2) d by (auto simp: db_inv_def list_all_iff)
  from extendWindow_range [OF range this Settings_Get_ok(4,5) [OF inv(2) g]]
  have n: "1 \<le> extendWindow s d x" "extendWindow s d x \<le> 180" .
  have "pointerCalls w3 = pointerCalls w"
    using ExtendReview_ext [of w2 e AppPool c T i "extendWindow s d x" v] ex q by (simp add: same_ext_def pointerCalls_def)
  moreover have "d_DelegatorID out = d_DelegatorID d" "d_StartsAt out = d_StartsAt d" "d_DelegateID out = d_DelegateID d"
    "d_Reason out = d_Reason d"
    using r(5) \<open>r = d\<close> by (simp_all add: extendRow_def)
  ultimately have "\<exists>ok. pointerCalls w' = pointerCalls w
       @ [UPSet (oooRequest T (d_DelegatorID d) (d_StartsAt d) (d_ReviewDueAt out) (d_DelegateID d) (d_Reason d)) ok]"
    unfolding w' by (simp add: pointerCalls_def)
  moreover have "changed (db w) (replace_row out (delegations (db w))) [] (db w')"
    using wrote_row_changed [OF r(6)] q w' by simp
  ultimately show ?thesis using that [OF d _ _ _ n] r \<open>r = d\<close> by blast
qed

section \<open>Reassign\<close>

lemma changed_trans:
  "changed d rows evs d1 \<Longrightarrow> changed d1 rows' evs' d2 \<Longrightarrow> changed d rows' (evs @ evs') d2"
  by (simp add: changed_def)

lemma cancelInternal_inv: "db_inv (db w) \<Longrightarrow> cancelInternal e c T i v reason w = (r, w') \<Longrightarrow> db_inv (db w')"
  using rstep.frame_cancelInternal [where c = c and w = w and e = e and T = T and i = i and v = v and reason = reason]
  by (simp add: db_step_def)

lemma Reassign_parts:
  assumes "db_inv (db w)" "DelegationService_Reassign e c T i v req w = (r, w')"
  obtains (none) err where "r = Inl err" "quiet w w'"
  | (cancel_failed) w1 err where "r = Inl err" "quiet w w1" "cancelInternal e c T i v EndReasonReassigned w1 = (Inl err, w')"
  | (create) d w1 out w2 where "quiet w w1" "d \<in> set (delegations (db w))" "liveRow T i d" "d_Status d = DelegationActive"
      "cancelInternal e c T i v EndReasonReassigned w1 = (Inr out, w2)" "db_inv (db w2)"
      "DelegationService_Create e c T (d_DelegatorID d) '''' (reassignCreate d req) w2 = (r, w')"
proof (cases "DelegationRepository_FindByID e AppPool c T i w")
  case (Pair fr w1)
  from quiet_FindByID [OF Pair] have q: "quiet w w1" .
  show ?thesis
  proof (cases fr)
    case (Inl err)
    with assms(2) Pair q show ?thesis by (intro none [of err]) (auto simp: DelegationService_Reassign_def)
  next
    case (Inr d)
    from FindByID_ok Pair Inr have d: "d \<in> set (delegations (db w))" "liveRow T i d" by metis+
    obtain cr w2 where c: "cancelInternal e c T i v EndReasonReassigned w1 = (cr, w2)" by force
    have "db_inv (db w2)" using cancelInternal_inv [OF _ c] assms(1) q by (simp add: quiet_def)
    with assms(2) Pair Inr c q d none cancel_failed create show ?thesis
      by (cases cr) (auto simp: DelegationService_Reassign_def split: if_splits)
  qed
qed

lemma Reassign_error:
  assumes "c_tx c = None" "db_inv (db w)" "DelegationService_Reassign e c T i v req w = (Inl err, w')"
  shows "db w' = db w \<or>
    (\<exists>d now. d \<in> set (delegations (db w)) \<and> liveRow T i d \<and> d_Status d = DelegationActive \<and> d_RecordVersion d = v \<and>
       changed (db w) (replace_row (stamped now (d\<lparr>d_Status := DelegationCancelled\<rparr>)) (delegations (db w)))
         (if hasPublisher e \<or> c_publisher c then [endedPayload T d EndReasonReassigned (cancelActor e c d)] else []) (db w'))"
  using assms(2,3)
proof (cases rule: Reassign_parts)
  case (create d w1 out w2)
  from create(1) assms(2) have q: "db w1 = db w" "db_inv (db w1)" by (simp_all add: quiet_def)
  from cancelInternal_ok [OF assms(1) q(2) create(5)] obtain d' now ok where
    d': "d' \<in> set (delegations (db w))" "liveRow T i d'" "d_RecordVersion d' = v"
    "changed (db w) (replace_row (stamped now (d'\<lparr>d_Status := DelegationCancelled\<rparr>)) (delegations (db w)))
         (if hasPublisher e \<or> c_publisher c then [endedPayload T d' EndReasonReassigned (cancelActor e c d')] else []) (db w2)"
    unfolding q(1) by metis
  have "d' = d" using d'(1,2) create(2,3) assms(2) by (auto simp: db_inv_def liveRow_def dest: distinct_key_eq)
  moreover have "db w' = db w2" using Create_error [OF assms(1) create(7)] by simp
  ultimately show ?thesis using d' create(4) by metis
qed (auto simp: quiet_def dest!: cancelInternal_error(1) [OF assms(1)])

lemma Reassign_ok:
  assumes "c_tx c = None" "sane_clock e" "db_inv (db w)" "DelegationService_Reassign e c T i v req w = (Inr new, w')"
  obtains d now p where "d \<in> set (delegations (db w))" "liveRow T i d" "d_Status d = DelegationActive" "d_RecordVersion d = v"
    "plan_ok T (d_DelegatorID d) (reassignCreate d req) p" "granted T (d_DelegatorID d) (reassignCreate d req) p new"
    "\<not> pl_isScheduled p"
    "changed (db w) (replace_row (stamped now (d\<lparr>d_Status := DelegationCancelled\<rparr>)) (delegations (db w)) @ [new])
       (if hasPublisher e \<or> c_publisher c
        then [endedPayload T d EndReasonReassigned (cancelActor e c d), startedPayload T new (d_DelegatorID d)] else []) (db w')"
  using assms(3,4)
proof (cases rule: Reassign_parts)
  case (create d w1 out w2)
  from create(1) assms(3) have q: "db w1 = db w" "db_inv (db w1)" by (simp_all add: quiet_def)
  from cancelInternal_ok [OF assms(1) q(2) create(5)] obtain d' now ok where
    d': "d' \<in> set (delegations (db w))" "liveRow T i d'" "d_RecordVersion d' = v"
    "changed (db w) (replace_row (stamped now (d'\<lparr>d_Status := DelegationCancelled\<rparr>)) (delegations (db w)))
         (if hasPublisher e \<or> c_publisher c then [endedPayload T d' EndReasonReassigned (cancelActor e c d')] else []) (db w2)"
    unfolding q(1) by metis
  have "d' = d" using d'(1,2) create(2,3) assms(3) by (auto simp: db_inv_def liveRow_def dest: distinct_key_eq)
  note cc = Create_cases [OF assms(1,2) create(6,7)]
  show ?thesis
  proof (rule cc, goal_cases)
    case 1
    then show ?case by simp
  next
    case (2 p)
    have sched: "\<not> pl_isScheduled p"
      using 2(1) by (auto simp: plan_ok_def Create_window_def Let_def reassignCreate_def split: option.splits if_splits)
    have "delegations (db w2) = replace_row (stamped now (d\<lparr>d_Status := DelegationCancelled\<rparr>)) (delegations (db w))"
      using d'(4) \<open>d' = d\<close> by (simp add: changed_def)
    with changed_trans [OF d'(4) 2(5) [unfolded appended_def]] \<open>d' = d\<close> sched
    have "changed (db w) (replace_row (stamped now (d\<lparr>d_Status := DelegationCancelled\<rparr>)) (delegations (db w)) @ [new])
       (if hasPublisher e \<or> c_publisher c
        then [endedPayload T d EndReasonReassigned (cancelActor e c d), startedPayload T new (d_DelegatorID d)] else []) (db w')"
      by (cases "hasPublisher e \<or> c_publisher c") (simp_all, blast?)
    with that create(2-4) d'(3) \<open>d' = d\<close> 2(1,2) sched show ?case by blast
  qed
qed auto

section \<open>Idempotent create\<close>

definition createdRecord :: "uuid \<Rightarrow> IdempotencyRecord" where
  "createdRecord i = \<lparr>ir_DelegationID = i, ir_Status = ''created''\<rparr>"

text \<open>A stored record turns the create into a lookup, and a pending one into a refusal.\<close>

lemma idem_Get_no_faults:
  assumes "kv_fault e = (\<lambda>_. None)" "idem_holds (clock e (tick w)) (kv w) T key = Some rec"
  shows "IdempotencyStore_Get e T key w = (Inr (Some rec), bump w)"
  using assms
  by (auto simp: IdempotencyStore_Get_def redis_Get_def kv_cmd_def idem_holds_def split: option.splits KVValue.splits)

lemma Create_replays:
  assumes "no_faults e" "kv_fault e = (\<lambda>_. None)" "hasIdempotency e" "request_ctx T c" "db_inv (db w)" "key \<noteq> ''''"
    and "idem_holds (clock e (tick w)) (kv w) T key = Some (createdRecord i)" "ledger T (db w) i = Some d"
  shows "\<exists>w'. DelegationService_Create e c T u key req w = (Inr d, w') \<and> quiet w w'"
proof -
  obtain r w1 where f: "DelegationRepository_FindByID e AppPool c T i (bump w) = (r, w1)" by force
  with FindByID_outcome [OF assms(1,4), of "bump w" i] assms(5,8) have "r = Inr d" by simp
  with f assms idem_Get_no_faults [OF assms(2,7)]
  have "Create_gate e c T key w = (GateReturn (Inr d), record_metric e MIdempotencyHit w1)"
    by (simp add: Create_gate_def createdRecord_def)
  with quiet_Create_gate [OF this] show ?thesis by (simp add: DelegationService_Create_def)
qed

lemma Create_in_flight:
  assumes "kv_fault e = (\<lambda>_. None)" "hasIdempotency e" "key \<noteq> ''''"
    and "idem_holds (clock e (tick w)) (kv w) T key = Some rec" "ir_Status rec \<noteq> ''created''"
  shows "\<exists>w'. DelegationService_Create e c T u key req w = (Inl inFlight, w') \<and> quiet w w'"
proof -
  have "Create_gate e c T key w = (GateReturn (Inl inFlight), bump w)"
    using assms idem_Get_no_faults [OF assms(1,4)] by (simp add: Create_gate_def)
  with quiet_Create_gate [OF this] show ?thesis by (simp add: DelegationService_Create_def)
qed

lemma Create_finish_saves:
  assumes "kv_fault e = (\<lambda>_. None)" "hasIdempotency e" "key \<noteq> ''''" "\<forall>n. t0 \<le> clock e n" "now < t0 + idempotencyTTL"
  shows "idem_holds now (kv (Create_finish e T u key d w)) T key = Some (createdRecord (d_ID d))"
proof -
  have "now < clock e (tick w) + idempotencyTTL" using assms(4,5) by (meson add_right_mono order_less_le_trans)
  with assms show ?thesis
    by (simp add: Create_finish_def Let_def IdempotencyStore_Save_def redis_Set_def kv_cmd_def idem_holds_def kv_lookup_def
        createdRecord_def Cache_InvalidateDelegatorList_def redis_Del_def)
qed

lemma Create_saves:
  assumes "kv_fault e = (\<lambda>_. None)" "hasIdempotency e" "key \<noteq> ''''" "\<forall>n. t0 \<le> clock e n" "now < t0 + idempotencyTTL"
    and "idem_holds (clock e (tick w)) (kv w) T key = None"
    and "DelegationService_Create e c T u key req w = (Inr d, w')"
  shows "idem_holds now (kv w') T key = Some (createdRecord (d_ID d))"
proof -
  obtain g w1 where g: "Create_gate e c T key w = (g, w1)" by force
  have "g \<noteq> GateReturn (Inr x)" for x
  proof
    assume "g = GateReturn (Inr x)"
    with g obtain rec w2 where "IdempotencyStore_Get e T key w = (Inr (Some rec), w2)"
      by (auto simp: Create_gate_def Create_reserve_def split: if_splits prod.splits sum.splits option.splits bool.splits)
    from idem.get_ok [OF this] assms(6) show False by simp
  qed
  with assms(7) g obtain b where "Create_body e c T u key req w1 = (Inr d, w')"
    by (auto simp: DelegationService_Create_def split: Gate.splits prod.splits sum.splits)
  then obtain w3 where "w' = Create_finish e T u key d w3"
    unfolding Create_body_def res_iff by auto
  with Create_finish_saves [OF assms(1-5)] show ?thesis by simp
qed

lemma Create_gate_reserves:
  assumes "Create_gate e c T key w = (GateProceed True, w')" "\<forall>n. t0 \<le> clock e n" "now < t0 + idempotencyTTL"
  shows "idem_holds now (kv w') T key = Some pendingRecord"
proof -
  from assms(1) obtain w1 where r: "IdempotencyStore_Reserve e T key w1 = (Inr True, w')"
    by (auto simp: Create_gate_def Create_reserve_def split: if_splits prod.splits sum.splits option.splits bool.splits)
  have "now < clock e (tick w1) + idempotencyTTL" using assms(2,3) by (meson add_right_mono order_less_le_trans)
  with r show ?thesis
    by (auto simp: IdempotencyStore_Reserve_def redis_SetNX_def idem_holds_def kv_lookup_def split: if_splits dest!: kv_cmd_ok)
qed

section \<open>The policy a grant respects\<close>

definition within_policy :: "DelegationTenantSettings \<Rightarrow> time \<Rightarrow> Delegation \<Rightarrow> bool" where
  "within_policy s now d \<longleftrightarrow>
     now - skewTolerance \<le> d_StartsAt d \<and> d_StartsAt d \<le> now + maxFutureStart
     \<and> d_Status d = (if now < d_StartsAt d then DelegationScheduled else DelegationActive)
     \<and> (case d_EndsAt d of
          Some t \<Rightarrow> d_StartsAt d < t \<and> t \<le> d_StartsAt d + s_MaxDurationDays s * day \<and> d_ReviewDueAt d = None
        | None \<Rightarrow> d_ReviewDueAt d = Some (d_StartsAt d + s_ReviewWindowDays s * day))"

lemma Create_plan_inputs:
  assumes "bound_ctx T c" "Create_plan e c T u req w = (Inr p, w')"
  shows "pl_settings p = effectiveSettings T (db w)"
proof -
  from assms(2) obtain w1 w2 where cat: "Create_catalog e req w = (Inr (), w1)"
    and get: "SettingsRepository_Get e c T w1 = (Inr (pl_settings p), w2)"
    unfolding Create_plan_def Let_def res_iff by auto
  from quiet_Create_catalog [OF cat] Settings_Get_bound [OF assms(1) get]
  show "pl_settings p = effectiveSettings T (db w)" by (simp add: quiet_def)
qed

lemma plan_within_policy:
  assumes "plan_ok T u req p" "granted T u req p d"
  shows "within_policy (pl_settings p) (pl_now p) d"
proof -
  from assms(1) have win: "Create_window (pl_now p) req = Inr (pl_starts p)" and span: "Create_span (pl_settings p) (pl_starts p) req = None"
    and s: "1 \<le> s_MaxDurationDays (pl_settings p)" "s_MaxDurationDays (pl_settings p) \<le> 180"
    and rest: "pl_isScheduled p = (pl_starts p > pl_now p)"
      "pl_reviewDueAt p = (if ci_EndsAt req = None then Some (pl_starts p + s_ReviewWindowDays (pl_settings p) * day) else None)"
    by (simp_all add: plan_ok_def)
  have "pl_now p - skewTolerance \<le> pl_starts p" "pl_starts p \<le> pl_now p + maxFutureStart"
    using win by (auto simp: Create_window_def Let_def skewTolerance_def maxFutureStart_def second_def day_def split: option.splits if_splits)
  moreover have "pl_starts p < t \<and> t \<le> pl_starts p + s_MaxDurationDays (pl_settings p) * day" if "ci_EndsAt req = Some t" for t
    using that win span time_Sub_gt_policy [of "s_MaxDurationDays (pl_settings p)" t "pl_starts p"] s
    by (auto simp: Create_window_def Create_span_def Let_def PolicyDaysMax_def split: option.splits if_splits)
  ultimately show ?thesis
    using assms(2) rest by (auto simp: within_policy_def granted_def split: option.split)
qed

section \<open>A cancel that loses the race\<close>

lemma fst_bind_error: "fst p = Inl err \<Longrightarrow> fst (bind_res p k) = Inl err"
  by (cases p) auto

lemma fst_run:
  assumes "fst p = a"
  obtains w where "p = (a, w)"
  using assms by (cases p) simp

lemma End_joined_conflict:
  assumes nf: "no_faults e" and t: "c_tx c = Some t" "rls_visible t T" and inv: "db_inv (db w)"
    and l: "ledger T (db w) i = Some d" "openStatus (d_Status d)" "d_RecordVersion d \<noteq> v"
  shows "fst (DelegationRepository_End e pool c T i st v w) = Inl (versionConflict (d_RecordVersion d))"
proof -
  let ?k = "\<lambda>rows w. case rows of [] \<Rightarrow> probeVersionConflict e t T i w | d # _ \<Rightarrow> (Inr d, w)"
  have "fst (bind_res (sql_update e t (\<lambda>r. liveRow T i r \<and> d_RecordVersion r = v \<and> openStatus (d_Status r))
         (\<lambda>r. r\<lparr>d_Status := st\<rparr>) w) ?k) = Inl (versionConflict (d_RecordVersion d))"
    using guarded_update_ledger [OF nf inv t(2), of ?k "\<lambda>d. d" i "\<lambda>r. d_RecordVersion r = v \<and> openStatus (d_Status r)" "\<lambda>r. r\<lparr>d_Status := st\<rparr>"]
      probe_ledger [OF nf _ t(2), of "bump w" i] inv l by simp
  then show ?thesis
    using t(1) by (auto simp: DelegationRepository_End_def withPool_def wrap_out_def split: prod.splits sum.splits)
qed

lemma RunInTx_domain_error:
  assumes "no_faults e" "c_tx c = None" "\<And>c' w1. opened_ctx c c' \<Longrightarrow> db w1 = db w \<Longrightarrow> fst (f c' w1) = Inl (Domain x)"
  shows "fst (TxRunner_RunInTx e c f w) = Inl (Domain x)"
proof -
  let ?t = "\<lparr>tx_pool = AppPool, tx_guc = c_guc c, tx_now = pg_clock e (tick w)\<rparr>"
  let ?c = "if hasPublisher e then c\<lparr>c_tx := Some ?t, c_publisher := True\<rparr> else c\<lparr>c_tx := Some ?t\<rparr>"
  have "opened_ctx c ?c" using assms(2) by (simp add: opened_ctx_def)
  from assms(3) [OF this, of "bump w"] obtain w3 where "f ?c (bump w) = (Inl (Domain x), w3)"
    by (metis bump_simps(1) prod.collapse)
  then show ?thesis
    using assms(1,2) by (simp add: TxRunner_RunInTx_def writeRetryMaxAttempts_def numeral_3_eq_3 run_tx_def no_faults_def Let_def)
qed

lemma cancel_conflict_clears:
  assumes nf: "no_faults e" and c: "request_ctx T c" and inv: "db_inv (db w)" and l: "ledger T (db w) i = Some d"
    and d: "d_Status d = DelegationActive" "d_RecordVersion d \<noteq> v"
    and up: "\<forall>n. clearDelegatePointer e n T (d_DelegatorID d) = None"
  shows "\<exists>w'. cancelInternal e c T i v reason w = (Inl (versionConflict (d_RecordVersion d)), w')
     \<and> db w' = db w \<and> ledger T (db w') i = Some d \<and> last_pointer (up_log w') T (d_DelegatorID d) = Some None"
proof -
  from c have tx: "c_tx c = None" by (simp add: request_ctx_def)
  obtain r w1 where f: "DelegationRepository_FindByID e AppPool c T i w = (r, w1)" by force
  with FindByID_outcome [OF nf c inv, of i] l have r: "r = Inr d" by simp
  let ?w = "clearFailOpen e ''cancel'' T (d_DelegatorID d) w1"
  have db1: "db ?w = db w" using FindByID_db [of e AppPool c T i w] f by simp
  have body: "fst (cancelTx e c T i v reason d c' w2) = Inl (versionConflict (d_RecordVersion d))"
    if "opened_ctx c c'" "db w2 = db ?w" for c' w2
  proof -
    from that(1) c obtain t where t: "c_tx c' = Some t" "rls_visible t T"
      by (auto simp: opened_ctx_def request_ctx_def rls_visible_def)
    have "db_inv (db w2)" "ledger T (db w2) i = Some d" "openStatus (d_Status d)" using that(2) db1 inv l d by simp_all
    from End_joined_conflict [OF nf t this d(2)] show ?thesis unfolding cancelTx_def by (rule fst_bind_error)
  qed
  have "fst (TxRunner_RunInTx e c (cancelTx e c T i v reason d) ?w) = Inl (versionConflict (d_RecordVersion d))"
    unfolding versionConflict_def
    by (rule RunInTx_domain_error [OF nf tx]) (rule body [unfolded versionConflict_def])
  then obtain w3 where run: "TxRunner_RunInTx e c (cancelTx e c T i v reason d) ?w = (Inl (versionConflict (d_RecordVersion d)), w3)"
    by (rule fst_run)
  have "up_log w3 = up_log ?w"
    using ext.frame_RunInTx [of c "cancelTx e c T i v reason d" ?w e] cancelTx_ext run by (simp add: same_ext_def)
  then have "last_pointer (up_log w3) T (d_DelegatorID d) = Some None" using up by simp
  with f r run db1 l RunInTx_error [OF tx run] show ?thesis by (simp add: cancelInternal_def)
qed

section \<open>When a Create does what\<close>

text \<open>
  The interactions of a call are numbered by \<open>tick\<close> in the order they happen. No operation turns the
  count back, so what a later operation does bears a higher number.
\<close>

interpretation later: tx_frame "\<lambda>w w'. tick w \<le> tick w'"
  by unfold_locales auto

lemma kv_cmd_later: "(\<And>now w1. tick w1 \<le> tick (snd (f now w1))) \<Longrightarrow> tick w \<le> tick (snd (kv_cmd e f w))"
proof -
  assume f: "\<And>now w1. tick w1 \<le> tick (snd (f now w1))"
  have "tick (bump w) \<le> tick (snd (f (clock e (tick w)) (bump w)))" by (rule f)
  then show ?thesis by (auto simp: kv_cmd_def split: option.split prod.split)
qed

lemma redis_later:
  "tick w \<le> tick (snd (redis_Get e k w))" "tick w \<le> tick (snd (redis_Set e k v ttl w))"
  "tick w \<le> tick (snd (redis_SetNX e k v ttl w))" "tick w \<le> tick (snd (redis_Del e k w))"
  unfolding redis_Get_def redis_Set_def redis_SetNX_def redis_Del_def
  by (rule kv_cmd_later, simp)+

lemma store_later:
  "tick w \<le> tick (snd (IdempotencyStore_Get e T key w))" "tick w \<le> tick (snd (IdempotencyStore_Save e T key rec w))"
  "tick w \<le> tick (snd (IdempotencyStore_Reserve e T key w))" "tick w \<le> tick (Cache_InvalidateDelegatorList e T u w)"
proof -
  show "tick w \<le> tick (snd (IdempotencyStore_Get e T key w))"
    using redis_later(1) [of w e "KeyIdem T key"]
    by (auto simp: IdempotencyStore_Get_def split: prod.split sum.split option.split KVValue.split)
qed (simp_all add: redis_later IdempotencyStore_Save_def IdempotencyStore_Reserve_def Cache_InvalidateDelegatorList_def)

lemma reads_later:
  "tick w \<le> tick (snd (SettingsRepository_Get e c T w))" "tick w \<le> tick (snd (DelegationRepository_FindByID e pool c T i w))"
  unfolding SettingsRepository_Get_def DelegationRepository_FindByID_def sql_select_def
  by (auto intro!: later.frame_withPool later.frame_bind later.frame_stmt split: option.split list.split)

lemma Create_later:
  "tick w \<le> tick (snd (Create_reserve e T key w))" "tick w \<le> tick (snd (Create_gate e c T key w))"
  "tick w \<le> tick (snd (Create_catalog e req w))" "tick w \<le> tick (snd (Create_delegateFree e T u b s w))"
  "tick w \<le> tick (snd (Create_setOOO e T u req p w))" "tick w \<le> tick (snd (Create_tx e T u req p c w))"
  "tick w \<le> tick (snd (Create_commit e c T u req p w))" "tick w \<le> tick (Create_finish e T u key d w)"
proof -
  show reserve: "tick w \<le> tick (snd (Create_reserve e T key w))" for w
    using store_later(3) [of w e T key] by (auto simp: Create_reserve_def split: prod.split sum.split bool.split)
  show "tick w \<le> tick (snd (Create_gate e c T key w))"
  proof -
    have "tick w1 \<le> tick w2" if "IdempotencyStore_Get e T key w1 = (x, w2)" for w1 x w2
      using store_later(1) [of w1 e T key] that by simp
    moreover have "tick w1 \<le> tick w2" if "DelegationRepository_FindByID e AppPool c T i w1 = (x, w2)" for i w1 x w2
      using reads_later(2) [of w1 e AppPool c T i] that by simp
    ultimately show ?thesis
      by (fastforce simp: Create_gate_def split: prod.split sum.split option.split intro: order_trans [OF _ reserve])
  qed
  show "tick w \<le> tick (snd (Create_catalog e req w))"
    by (auto simp: Create_catalog_def split: prod.split sum.split option.split bool.split)
  show "tick w \<le> tick (snd (Create_delegateFree e T u b s w))"
    by (auto simp: Create_delegateFree_def up_GetAvailability_def split: prod.split sum.split)
  show "tick w \<le> tick (snd (Create_setOOO e T u req p w))"
    by (auto simp: Create_setOOO_def up_SetAvailability_def Let_def split: option.split)
  show tx: "tick w \<le> tick (snd (Create_tx e T u req p c w))" for c w
    unfolding Create_tx_def DelegationRepository_Insert_def Let_def sql_insert_def enqueue_def Publisher_EnqueueCtx_def
    by (intro later.frame_bind later.frame_withPool later.frame_stmt)
      (auto intro!: later.frame_bind later.frame_stmt simp: Let_def split: option.split)
  have run: "tick w \<le> tick (snd (TxRunner_RunInTx e c (Create_tx e T u req p) w))"
    by (rule later.frame_RunInTx) (rule tx)
  then show "tick w \<le> tick (snd (Create_commit e c T u req p w))"
    by (auto simp: Create_commit_def up_ClearDelegatePointer_def Let_def split: prod.split sum.split)
  have "tick w \<le> tick (snd (IdempotencyStore_Save e T key rec w1))" if "tick w \<le> tick w1" for rec w1
    using that store_later(2) order_trans by blast
  then show "tick w \<le> tick (Create_finish e T u key d w)"
    by (auto simp: Create_finish_def Let_def intro: order_trans [OF _ store_later(4)])
qed

text \<open>A Create that wrote went through the gate, the plan, User Profile and the commit, in this order.\<close>

lemma Create_wrote:
  assumes "DelegationService_Create e c T u key req w = (Inr d, w')" "db w' \<noteq> db w"
  obtains b p w1 w2 w3 w4 where "Create_gate e c T key w = (GateProceed b, w1)" "Create_plan e c T u req w1 = (Inr p, w2)"
    "Create_setOOO e T u req p w2 = (Inr (), w3)" "Create_commit e c T u req p w3 = (Inr d, w4)"
    "w' = Create_finish e T u key d w4" "db w1 = db w" "db w2 = db w" "db w3 = db w"
proof -
  from assms obtain b w1 where g: "Create_gate e c T key w = (GateProceed b, w1)" and b: "Create_body e c T u key req w1 = (Inr d, w')"
    by (auto simp: DelegationService_Create_def quiet_def split: prod.splits Gate.splits sum.splits dest!: quiet_Create_gate)
  from b obtain p w2 x w3 w4 where p: "Create_plan e c T u req w1 = (Inr p, w2)"
    and s: "Create_setOOO e T u req p w2 = (Inr x, w3)" and k: "Create_commit e c T u req p w3 = (Inr d, w4)"
    and w': "w' = Create_finish e T u key d w4"
    unfolding Create_body_def res_iff by auto
  have "db w3 = db w2"
    using s by (auto simp: Create_setOOO_def up_SetAvailability_def Let_def split: if_splits option.splits)
  with g p s k w' quiet_Create_gate [OF g] quiet_Create_plan [OF p] show ?thesis
    by (intro that [of b w1 p w2 w3 w4]) (simp_all add: quiet_def)
qed

text \<open>The plan reads the clock, then asks about both members, and only then returns.\<close>

lemma Create_plan_times:
  assumes "Create_plan e c T u req w = (Inr p, w')"
  obtains n m where "pl_now p = clock e n" "tick w \<le> n" "n \<le> m" "Suc m < tick w'"
    "membershipExists e m T u = Inr (True, pl_delegatorMembershipID p)"
    "membershipExists e (Suc m) T (ci_DelegateID req) = Inr (True, pl_delegateMembershipID p)"
proof -
  from assms obtain w1 s w2 ids w3 sch st w4 where cat: "Create_catalog e req w = (Inr (), w1)"
    and get: "SettingsRepository_Get e c T w1 = (Inr s, w2)" and n: "pl_now p = clock e (tick w1)"
    and mem: "checkBothMemberships e T u (ci_DelegateID req) w2 = (Inr ids, w3)"
    and ids: "pl_delegatorMembershipID p = fst ids" "pl_delegateMembershipID p = snd ids"
    and free: "Create_delegateFree e T (ci_DelegateID req) sch st w3 = (Inr (), w')"
    unfolding Create_plan_def Let_def res_iff by auto
  have "tick w \<le> tick w1" using Create_later(3) [of w e req] cat by simp
  moreover have "tick w1 \<le> tick w2" using reads_later(1) [of w1 e c T] get by simp
  moreover have "membershipExists e (tick w2) T u = Inr (True, fst ids)"
    "membershipExists e (Suc (tick w2)) T (ci_DelegateID req) = Inr (True, snd ids)" "tick w3 = Suc (Suc (tick w2))"
    using mem by (auto simp: checkBothMemberships_def Let_def split: sum.splits if_splits)
  moreover have "tick w3 \<le> tick w'"
    using Create_later(4) [of w3 e T "ci_DelegateID req" sch st] free by simp
  ultimately show ?thesis
    using n ids by (intro that [of "tick w1" "tick w2"]) simp_all
qed

lemma Create_policy:
  assumes c: "request_ctx T c" and clk: "sane_clock e" and inv: "db_inv (db w)"
    and run: "DelegationService_Create e c T u key req w = (Inr d, w')" "db w' \<noteq> db w"
  shows "validateCreateInput u req = None"
    "\<exists>n. tick w \<le> n \<and> n < tick w' \<and> within_policy (effectiveSettings T (db w)) (clock e n) d"
proof -
  obtain b p w1 w2 w3 w4 where g: "Create_gate e c T key w = (GateProceed b, w1)" and p: "Create_plan e c T u req w1 = (Inr p, w2)"
    and s: "Create_setOOO e T u req p w2 = (Inr (), w3)" and k: "Create_commit e c T u req p w3 = (Inr d, w4)"
    and w': "w' = Create_finish e T u key d w4" and same: "db w1 = db w"
    by (rule Create_wrote [OF run]) (rule that)
  have tx: "c_tx c = None" "bound_ctx T c" using c by (simp_all add: request_ctx_def request_bound)
  have ok: "plan_ok T u req p" using inv same by (intro Create_plan_ok [OF _ p]) simp
  then show "validateCreateInput u req = None" by (simp add: plan_ok_def)
  have "within_policy (effectiveSettings T (db w)) (pl_now p) d"
    using plan_within_policy [OF ok Create_commit_ok(1) [OF tx(1) k plan_starts_sane [OF clk p]]]
      Create_plan_inputs [OF tx(2) p] same by simp
  moreover obtain n m where "pl_now p = clock e n" "tick w1 \<le> n" "n \<le> m" "Suc m < tick w2"
    by (rule Create_plan_times [OF p])
  moreover have "tick w \<le> tick w1" "tick w2 \<le> tick w3" "tick w3 \<le> tick w4" "tick w4 \<le> tick w'"
    using Create_later(2) [of w e c T key] Create_later(5) [of w2 e T u req p] Create_later(7) [of w3 e c T u req p]
      Create_later(8) [of w4 e T u key d] g s k w' by simp_all
  ultimately show "\<exists>n. tick w \<le> n \<and> n < tick w' \<and> within_policy (effectiveSettings T (db w)) (clock e n) d"
    by (intro exI [of _ n]) auto
qed

end
