(* ===== verification/CascadeService.thy ===== *)
theory CascadeService
  imports DelegationService
begin

text \<open>
  \<^verbatim>\<open>src/internal/core/service/cascade_service.go\<close>: what happens to delegations when a user
  leaves a tenant, when a delegate is disabled and when a tenant is offboarded.
\<close>

section \<open>Definitions\<close>

definition CascadeService_endForUserTx :: "env \<Rightarrow> uuid \<Rightarrow> uuid \<Rightarrow> ctx \<Rightarrow> world \<Rightarrow> (error, Delegation list, world) outcome" where
  "CascadeService_endForUserTx e tenantID userID txCtx w =
     bind_res (DelegationRepository_EndForUser e AppPool txCtx tenantID userID w) (\<lambda>rows w.
     bind_res (for_each (\<lambda>d w.
         if d_DelegateID d \<noteq> userID then (Inr (), w)
         else enqueue e txCtx tenantID (d_ID d) ActorSystem
                (endedPayload tenantID d EndReasonDelegateRemoved SystemActorID) w) rows w)
       (\<lambda>_ w. (Inr rows, w)))"

definition CascadeService_EndForUser :: "env \<Rightarrow> ctx \<Rightarrow> uuid \<Rightarrow> uuid \<Rightarrow> world \<Rightarrow> (error, unit, world) outcome" where
  "CascadeService_EndForUser e c tenantID userID w =
     bind_res (TxRunner_RunInTx e c (CascadeService_endForUserTx e tenantID userID) w) (\<lambda>ended w.
       (let w = fold (\<lambda>d w. if d_DelegatorID d = userID then w
                            else clearFailOpen e ''cascade'' tenantID (d_DelegatorID d) w) ended w;
            w = fold (\<lambda>d w. if d_DelegateID d = userID
                            then record_metric e (MEnded EndReasonDelegateRemoved) w else w) ended w
        in (Inr (), w)))"

definition escalationPayload :: "uuid \<Rightarrow> Delegation \<Rightarrow> EventData" where
  "escalationPayload tenantID d =
     DelegationEscalationRequested \<lparr>es_DelegationID = d_ID d, es_TenantID = tenantID, es_DelegatorID = d_DelegatorID d,
       es_DelegateID = d_DelegateID d, es_Scope = d_Scope d, es_ScopeID = d_ScopeID d,
       es_Reason = EndReasonDelegateDisabled, es_ActorID = SystemActorID\<rparr>"

definition CascadeService_endForDisabledTx :: "env \<Rightarrow> uuid \<Rightarrow> uuid \<Rightarrow> ctx \<Rightarrow> world \<Rightarrow> (error, nat, world) outcome" where
  "CascadeService_endForDisabledTx e tenantID delegateID txCtx w =
     bind_res (DelegationRepository_EndForDisabledDelegate e AppPool txCtx tenantID delegateID w) (\<lambda>rows w.
     bind_res (for_each (\<lambda>d w.
         bind_res (enqueue e txCtx tenantID (d_ID d) ActorSystem
             (endedPayload tenantID d EndReasonDelegateDisabled SystemActorID) w) (\<lambda>_ w.
           enqueue e txCtx tenantID (d_ID d) ActorSystem (escalationPayload tenantID d) w)) rows w)
       (\<lambda>_ w. (Inr (length rows), w)))"

definition CascadeService_EndForDisabledDelegate :: "env \<Rightarrow> ctx \<Rightarrow> uuid \<Rightarrow> uuid \<Rightarrow> world \<Rightarrow> (error, unit, world) outcome" where
  "CascadeService_EndForDisabledDelegate e c tenantID delegateID w =
     bind_res (TxRunner_RunInTx e c (CascadeService_endForDisabledTx e tenantID delegateID) w) (\<lambda>n w.
       (Inr (), (record_metric e (MEnded EndReasonDelegateDisabled) ^^ n) w))"

definition CascadeService_ScrubTenant :: "env \<Rightarrow> ctx \<Rightarrow> uuid \<Rightarrow> world \<Rightarrow> (error, unit, world) outcome" where
  "CascadeService_ScrubTenant e c tenantID =
     TxRunner_RunInTx e c (\<lambda>txCtx w.
       bind_res (DelegationRepository_SoftDeleteTenant e AppPool txCtx tenantID w) (\<lambda>_ w.
         SettingsRepository_SoftDeleteTenant e txCtx tenantID w))"

section \<open>Frames\<close>

lemma fold_clear_db [simp]:
  "db (fold (\<lambda>d w. if P d then w else clearFailOpen e op T (g d) w) ds w) = db w"
  "db (fold (\<lambda>d w. if P d then record_metric e m w else w) ds w) = db w"
  by (induction ds arbitrary: w) auto

lemma pow_metric_db [simp]: "db ((record_metric e m ^^ n) w) = db w"
  by (induction n) auto

context repo_frame
begin

lemma frame_endForUserTx: "okc c \<Longrightarrow> R (db w) (db (snd (CascadeService_endForUserTx e T u c w)))"
  unfolding CascadeService_endForUserTx_def
  by (intro w.frame_bind w.frame_for_each r_EndForUser) (auto simp: db_refl intro: r_enqueue)

lemma frame_endForDisabledTx: "okc c \<Longrightarrow> R (db w) (db (snd (CascadeService_endForDisabledTx e T u c w)))"
  unfolding CascadeService_endForDisabledTx_def
  by (intro w.frame_bind w.frame_for_each r_EndForDisabledDelegate) (auto simp: db_refl intro: r_enqueue)

end

text \<open>The same for the cascades, with the ledger entry a delivery writes.\<close>

locale cascade_frame = service_frame +
  assumes b_endForUserTx: "okc c \<Longrightarrow> c_tx c = Some t \<Longrightarrow> R (db w) (db (snd (CascadeService_endForUserTx e T u c w)))"
    and b_endForDisabledTx: "okc c \<Longrightarrow> c_tx c = Some t \<Longrightarrow> R (db w) (db (snd (CascadeService_endForDisabledTx e T u c w)))"
    and b_SoftDeleteTenant: "okc c \<Longrightarrow> R (db w) (db (snd (DelegationRepository_SoftDeleteTenant e AppPool c T w)))"
    and b_SettingsSoftDelete: "okc c \<Longrightarrow> R (db w) (db (snd (SettingsRepository_SoftDeleteTenant e c T w)))"
    and b_MarkProcessed: "okc c \<Longrightarrow> R (db w) (db (snd (ProcessedEventsRepository_MarkProcessed e c key ev w)))"
begin

lemma frame_EndForUser: "okc c \<Longrightarrow> R (db w) (db (snd (CascadeService_EndForUser e c T u w)))"
  unfolding CascadeService_EndForUser_def Let_def
  by (intro w.frame_bind frame_body b_endForUserTx) (auto simp: db_refl)

lemma frame_EndForDisabledDelegate: "okc c \<Longrightarrow> R (db w) (db (snd (CascadeService_EndForDisabledDelegate e c T u w)))"
  unfolding CascadeService_EndForDisabledDelegate_def
  by (intro w.frame_bind frame_body b_endForDisabledTx) (auto simp: db_refl)

lemma frame_ScrubTenant: "okc c \<Longrightarrow> R (db w) (db (snd (CascadeService_ScrubTenant e c T w)))"
  unfolding CascadeService_ScrubTenant_def
  by (intro frame_body w.frame_bind b_SoftDeleteTenant b_SettingsSoftDelete)

end

sublocale repo_frame \<subseteq> cascade_frame R okc okg
  by unfold_locales
     (auto intro: frame_endForUserTx frame_endForDisabledTx r_SoftDeleteTenant r_SettingsSoftDelete r_MarkProcessed)

section \<open>Outcomes\<close>

lemma for_each_enqueue:
  assumes "for_each (\<lambda>d w. if P d then (Inr (), w) else enqueue e c T (g d) a (pl d) w) rows w = (Inr u, w')"
    and "changed d0 rs evs (db w)"
  shows "changed d0 rs (evs @ published (c_publisher c) (map pl (filter (\<lambda>d. \<not> P d) rows))) (db w')"
  using assms
proof (induction rows arbitrary: w evs)
  case (Cons d rows)
  show ?case
  proof (cases "P d")
    case False
    from Cons.prems(1) False obtain x w1 where en: "enqueue e c T (g d) a (pl d) w = (Inr x, w1)"
      and rest: "for_each (\<lambda>d w. if P d then (Inr (), w) else enqueue e c T (g d) a (pl d) w) rows w1 = (Inr u, w')"
      by (auto simp: res_iff)
    from Cons.IH [OF rest enqueue_published [OF en Cons.prems(2)]] False show ?thesis by simp
  next
    case True
    with Cons.prems Cons.IH [of w evs] show ?thesis by simp
  qed
qed simp

lemma for_each_enqueue2:
  assumes "for_each (\<lambda>d w. bind_res (enqueue e c T (g d) a (pl d) w) (\<lambda>_ w. enqueue e c T (g d) a (pl2 d) w)) rows w = (Inr u, w')"
    and "changed d0 rs evs (db w)"
  shows "changed d0 rs (evs @ published (c_publisher c) (concat (map (\<lambda>d. [pl d, pl2 d]) rows))) (db w')"
  using assms
proof (induction rows arbitrary: w evs)
  case (Cons d rows)
  from Cons.prems(1) obtain x w1 y w2 where
      "enqueue e c T (g d) a (pl d) w = (Inr x, w1)" "enqueue e c T (g d) a (pl2 d) w1 = (Inr y, w2)"
    and rest: "for_each (\<lambda>d w. bind_res (enqueue e c T (g d) a (pl d) w) (\<lambda>_ w. enqueue e c T (g d) a (pl2 d) w)) rows w2 = (Inr u, w')"
    by (auto simp: res_iff)
  from Cons.IH [OF rest enqueue_published [OF this(2) enqueue_published [OF this(1) Cons.prems(2)]]]
  show ?case by simp
qed simp

lemma endedPayload_rows [simp]:
  "endedPayload T (removedRow now r) x y = endedPayload T r x y" "endedPayload T (endedRow now r) x y = endedPayload T r x y"
  "escalationPayload T (endedRow now r) = escalationPayload T r"
  by (auto simp: endedPayload_def escalationPayload_def removedRow_def endedRow_def stamped_def)

lemma removedRow_simps [simp]:
  "d_DelegateID (removedRow now r) = d_DelegateID r" "d_DelegatorID (removedRow now r) = d_DelegatorID r"
  "d_ID (removedRow now r) = d_ID r" "d_Status (removedRow now r) = DelegationEnded"
  "d_DeletedAt (removedRow now r) = Some now" "d_TenantID (removedRow now r) = d_TenantID r"
  "d_RecordVersion (removedRow now r) = d_RecordVersion r + 1"
  by (simp_all add: removedRow_def stamped_def)

lemma endedRow_simps [simp]:
  "d_DelegateID (endedRow now r) = d_DelegateID r" "d_DelegatorID (endedRow now r) = d_DelegatorID r"
  "d_ID (endedRow now r) = d_ID r" "d_Status (endedRow now r) = DelegationEnded"
  "d_DeletedAt (endedRow now r) = d_DeletedAt r" "d_TenantID (endedRow now r) = d_TenantID r"
  "d_RecordVersion (endedRow now r) = d_RecordVersion r + 1"
  by (simp_all add: endedRow_def stamped_def)

lemma fold_clears:
  "\<exists>cs. pointerCalls (fold (\<lambda>d w. if P d then w else clearFailOpen e op T (g d) w) ds w) = pointerCalls w @ cs
     \<and> list_all2 (\<lambda>d c. \<exists>ok. c = UPClear T (g d) ok) (filter (\<lambda>d. \<not> P d) ds) cs"
proof (induction ds arbitrary: w)
  case (Cons d ds)
  show ?case
  proof (cases "P d")
    case False
    from Cons [of "clearFailOpen e op T (g d) w"] obtain cs where
      "pointerCalls (fold (\<lambda>d w. if P d then w else clearFailOpen e op T (g d) w) ds (clearFailOpen e op T (g d) w))
         = pointerCalls (clearFailOpen e op T (g d) w) @ cs"
      "list_all2 (\<lambda>d c. \<exists>ok. c = UPClear T (g d) ok) (filter (\<lambda>d. \<not> P d) ds) cs" by blast
    with False show ?thesis
      by (intro exI [of _ "UPClear T (g d) (clearDelegatePointer e (tick w) T (g d) = None) # cs"])
         (simp add: pointerCalls_def)
  qed (use Cons in simp)
qed simp

lemma fold_metric_pointerCalls [simp]:
  "pointerCalls (fold (\<lambda>d w. if P d then record_metric e m w else w) ds w) = pointerCalls w"
  by (induction ds arbitrary: w) auto

lemma endForUserTx_ok:
  assumes "bound_ctx T c" "CascadeService_endForUserTx e T u c w = (Inr rows, w')"
  obtains now where "rows = map (removedRow now) (rows_matching (involves T u) (delegations (db w)))"
    "changed (db w) (update_rows (involves T u) (removedRow now) (delegations (db w)))
       (published (c_publisher c) (map (\<lambda>r. endedPayload T r EndReasonDelegateRemoved SystemActorID)
          (rows_matching (\<lambda>r. involves T u r \<and> d_DelegateID r = u) (delegations (db w))))) (db w')"
proof -
  from assms(2) obtain w1 x where en: "DelegationRepository_EndForUser e AppPool c T u w = (Inr rows, w1)"
    and fe: "for_each (\<lambda>d w. if d_DelegateID d \<noteq> u then (Inr (), w)
         else enqueue e c T (d_ID d) ActorSystem (endedPayload T d EndReasonDelegateRemoved SystemActorID) w) rows w1 = (Inr x, w')"
    unfolding CascadeService_endForUserTx_def res_iff by auto
  obtain now where rows: "rows = map (removedRow now) (rows_matching (involves T u) (delegations (db w)))"
    and db: "db w1 = (db w)\<lparr>delegations := update_rows (involves T u) (removedRow now) (delegations (db w))\<rparr>"
    by (rule EndForUser_bound [OF assms(1) en]) (rule that)
  have "changed (db w) (update_rows (involves T u) (removedRow now) (delegations (db w))) [] (db w1)"
    unfolding db by (rule changed_rows)
  from for_each_enqueue [OF fe this]
  have "changed (db w) (update_rows (involves T u) (removedRow now) (delegations (db w)))
       (published (c_publisher c) (map (\<lambda>r. endedPayload T r EndReasonDelegateRemoved SystemActorID)
          (rows_matching (\<lambda>r. involves T u r \<and> d_DelegateID r = u) (delegations (db w))))) (db w')"
    by (simp add: rows rows_matching_def filter_map o_def conj_commute)
  with rows that show ?thesis by blast
qed

lemma endForUserTx_ext: "same_ext w (snd (CascadeService_endForUserTx e T u c w))"
  unfolding CascadeService_endForUserTx_def
  by (intro ext.frame_bind ext.frame_for_each) (auto intro: enqueue_ext)

lemma Cascade_EndForUser_ok:
  assumes "bound_ctx T c" "CascadeService_EndForUser e c T u w = (Inr x, w')"
  obtains now cs where
    "changed (db w) (update_rows (involves T u) (removedRow now) (delegations (db w)))
       (published (hasPublisher e \<or> c_publisher c) (map (\<lambda>r. endedPayload T r EndReasonDelegateRemoved SystemActorID)
          (rows_matching (\<lambda>r. involves T u r \<and> d_DelegateID r = u) (delegations (db w))))) (db w')"
    "pointerCalls w' = pointerCalls w @ cs"
    "list_all2 (\<lambda>r c. \<exists>ok. c = UPClear T (d_DelegatorID r) ok)
       (rows_matching (\<lambda>r. involves T u r \<and> d_DelegatorID r \<noteq> u) (delegations (db w))) cs"
proof -
  from assms(2) obtain ended w1 where
      tx: "TxRunner_RunInTx e c (CascadeService_endForUserTx e T u) w = (Inr ended, w1)"
    and w': "w' = fold (\<lambda>d w. if d_DelegateID d = u then record_metric e (MEnded EndReasonDelegateRemoved) w else w) ended
        (fold (\<lambda>d w. if d_DelegatorID d = u then w else clearFailOpen e ''cascade'' T (d_DelegatorID d) w) ended w1)"
    unfolding CascadeService_EndForUser_def Let_def res_iff by auto
  obtain c' w2 w3 where c': "opened_ctx c c'" "c_publisher c' = (hasPublisher e \<or> c_publisher c)" "db w2 = db w"
    "CascadeService_endForUserTx e T u c' w2 = (Inr ended, w3)" "db w1 = db w3"
    by (rule RunInTx_ok_any [OF tx]) (rule that)
  obtain now where ended: "ended = map (removedRow now) (rows_matching (involves T u) (delegations (db w2)))"
    and ch: "changed (db w2) (update_rows (involves T u) (removedRow now) (delegations (db w2)))
       (published (c_publisher c') (map (\<lambda>r. endedPayload T r EndReasonDelegateRemoved SystemActorID)
          (rows_matching (\<lambda>r. involves T u r \<and> d_DelegateID r = u) (delegations (db w2))))) (db w3)"
    by (rule endForUserTx_ok [OF bound_ctx_opened [OF assms(1) c'(1)] c'(4)]) (rule that)
  have db: "db w' = db w3" unfolding w' c'(5) [symmetric] by (simp add: fold_clear_db)
  from fold_clears [of "\<lambda>d. d_DelegatorID d = u" e "''cascade''" T d_DelegatorID ended w1] obtain cs where
    cs: "pointerCalls w' = pointerCalls w1 @ cs"
    and l: "list_all2 (\<lambda>d c. \<exists>ok. c = UPClear T (d_DelegatorID d) ok) (filter (\<lambda>d. d_DelegatorID d \<noteq> u) ended) cs"
    unfolding w' by auto
  have "pointerCalls w1 = pointerCalls w" by (rule RunInTx_pointerCalls(1) [OF endForUserTx_ext tx])
  moreover have "list_all2 (\<lambda>r c. \<exists>ok. c = UPClear T (d_DelegatorID r) ok)
       (rows_matching (\<lambda>r. involves T u r \<and> d_DelegatorID r \<noteq> u) (delegations (db w))) cs"
    using l by (simp add: ended c'(3) rows_matching_def filter_map o_def list_all2_map1 conj_commute)
  ultimately show ?thesis using cs ch db c' by (intro that [of now cs]) simp_all
qed

lemma Cascade_EndForDisabledDelegate_ok:
  assumes "bound_ctx T c" "CascadeService_EndForDisabledDelegate e c T u w = (Inr x, w')"
  obtains now where
    "changed (db w) (update_rows (delegateOpen T u) (endedRow now) (delegations (db w)))
       (published (hasPublisher e \<or> c_publisher c)
          (concat (map (\<lambda>r. [endedPayload T r EndReasonDelegateDisabled SystemActorID, escalationPayload T r])
             (rows_matching (delegateOpen T u) (delegations (db w)))))) (db w')"
    "pointerCalls w' = pointerCalls w"
proof -
  from assms(2) obtain n w1 where
      tx: "TxRunner_RunInTx e c (CascadeService_endForDisabledTx e T u) w = (Inr n, w1)"
    and w': "w' = (record_metric e (MEnded EndReasonDelegateDisabled) ^^ n) w1"
    unfolding CascadeService_EndForDisabledDelegate_def res_iff by auto
  have ext: "same_ext w (snd (CascadeService_endForDisabledTx e T u c w))" for c w
    unfolding CascadeService_endForDisabledTx_def
    by (intro ext.frame_bind ext.frame_for_each) (auto intro: enqueue_ext)
  obtain c' w2 w3 where c': "opened_ctx c c'" "c_publisher c' = (hasPublisher e \<or> c_publisher c)" "db w2 = db w"
    "CascadeService_endForDisabledTx e T u c' w2 = (Inr n, w3)" "db w1 = db w3"
    by (rule RunInTx_ok_any [OF tx]) (rule that)
  from c'(4) obtain rows w4 y where
      en: "DelegationRepository_EndForDisabledDelegate e AppPool c' T u w2 = (Inr rows, w4)"
    and fe: "for_each (\<lambda>d w. bind_res (enqueue e c' T (d_ID d) ActorSystem (endedPayload T d EndReasonDelegateDisabled SystemActorID) w)
         (\<lambda>_ w. enqueue e c' T (d_ID d) ActorSystem (escalationPayload T d) w)) rows w4 = (Inr y, w3)"
    unfolding CascadeService_endForDisabledTx_def res_iff by auto
  obtain now where rows: "rows = map (endedRow now) (rows_matching (delegateOpen T u) (delegations (db w2)))"
    and db: "db w4 = (db w2)\<lparr>delegations := update_rows (delegateOpen T u) (endedRow now) (delegations (db w2))\<rparr>"
    by (rule EndForDisabledDelegate_bound [OF bound_ctx_opened [OF assms(1) c'(1)] en]) (rule that)
  have "changed (db w2) (update_rows (delegateOpen T u) (endedRow now) (delegations (db w2))) [] (db w4)"
    unfolding db by (rule changed_rows)
  from for_each_enqueue2 [OF fe this] c' w'
  have "changed (db w) (update_rows (delegateOpen T u) (endedRow now) (delegations (db w)))
       (published (hasPublisher e \<or> c_publisher c)
          (concat (map (\<lambda>r. [endedPayload T r EndReasonDelegateDisabled SystemActorID, escalationPayload T r])
             (rows_matching (delegateOpen T u) (delegations (db w)))))) (db w')"
    by (simp add: rows o_def pow_metric_db)
  moreover have "pointerCalls ((record_metric e m ^^ k) v) = pointerCalls v" for m k v
    by (induction k) auto
  then have "pointerCalls w' = pointerCalls w"
    using RunInTx_pointerCalls(1) [OF ext tx] w' by simp
  ultimately show ?thesis by (rule that)
qed

lemma SoftDeleteTenant_bound:
  assumes "bound_ctx T c" "DelegationRepository_SoftDeleteTenant e AppPool c T w = (Inr x, w')"
  obtains t :: tx where "db w' = (db w)\<lparr>delegations := update_rows (\<lambda>r. d_TenantID r = T \<and> d_DeletedAt r = None)
     (\<lambda>r. touch_row (tx_now t) r (r\<lparr>d_DeletedAt := Some (tx_now t)\<rparr>)) (delegations (db w))\<rparr>"
proof -
  from assms(2) obtain t w0 w1 where t: "pool_tx AppPool c t" "db w0 = db w" "db w' = db w1"
    and b: "bind_res (sql_update e t (\<lambda>r. d_TenantID r = T \<and> d_DeletedAt r = None)
           (\<lambda>r. r\<lparr>d_DeletedAt := Some (tx_now t)\<rparr>) w0) (\<lambda>_ w. (Inr (), w)) = (Inr x, w1)"
    unfolding DelegationRepository_SoftDeleteTenant_def by (rule withPool_ok)
  from b obtain rows where u: "sql_update e t (\<lambda>r. d_TenantID r = T \<and> d_DeletedAt r = None)
           (\<lambda>r. r\<lparr>d_DeletedAt := Some (tx_now t)\<rparr>) w0 = (Inr rows, w1)"
    by (auto simp: res_iff)
  have vis: "(\<lambda>r. rls_visible t (d_TenantID r) \<and> d_TenantID r = T \<and> d_DeletedAt r = None)
      = (\<lambda>r. d_TenantID r = T \<and> d_DeletedAt r = None)"
    using bound_ctx_visible [OF assms(1) t(1)] by auto
  from sql_update_ok(2) [OF u, unfolded vis] t that show ?thesis by simp
qed

text \<open>After the scrub nothing of the tenant is live and its policy row is gone; no event is sent.\<close>

lemma ScrubTenant_ok:
  assumes "bound_ctx T c" "CascadeService_ScrubTenant e c T w = (Inr x, w')"
  shows "\<forall>r \<in> set (delegations (db w')). d_TenantID r = T \<longrightarrow> d_DeletedAt r \<noteq> None"
    "tenant_settings (db w') T = None" "outbox (db w') = outbox (db w)"
    "length (delegations (db w')) = length (delegations (db w))"
proof -
  obtain c' w0 w1 where c': "opened_ctx c c'" "db w0 = db w" "db w' = db w1"
    "bind_res (DelegationRepository_SoftDeleteTenant e AppPool c' T w0) (\<lambda>_ w. SettingsRepository_SoftDeleteTenant e c' T w) = (Inr x, w1)"
    by (rule RunInTx_ok_any [OF assms(2)[unfolded CascadeService_ScrubTenant_def]]) (rule that)
  from c'(4) obtain y w2 where sd: "DelegationRepository_SoftDeleteTenant e AppPool c' T w0 = (Inr y, w2)"
    and st: "SettingsRepository_SoftDeleteTenant e c' T w2 = (Inr x, w1)"
    unfolding res_iff by auto
  have b: "bound_ctx T c'" by (rule bound_ctx_opened [OF assms(1) c'(1)])
  obtain t :: tx where d2: "db w2 = (db w0)\<lparr>delegations := update_rows (\<lambda>r. d_TenantID r = T \<and> d_DeletedAt r = None)
     (\<lambda>r. touch_row (tx_now t) r (r\<lparr>d_DeletedAt := Some (tx_now t)\<rparr>)) (delegations (db w0))\<rparr>"
    by (rule SoftDeleteTenant_bound [OF b sd])
  obtain t' w3 w4 where t': "pool_tx AppPool c' t'" "db w3 = db w2" "db w1 = db w4"
    "stmt e (\<lambda>w. (Inr (), if rls_visible t' T
                then w\<lparr>db := (db w)\<lparr>tenant_settings := (tenant_settings (db w))(T := None)\<rparr>\<rparr> else w)) w3 = (Inr x, w4)"
    by (rule withPool_ok [OF st[unfolded SettingsRepository_SoftDeleteTenant_def]]) (rule that)
  have vis: "rls_visible t' T" using bound_ctx_visible [OF b t'(1)] by simp
  from t'(4) vis t'(2) have "db w4 = (db w2)\<lparr>tenant_settings := (tenant_settings (db w2))(T := None)\<rparr>"
    by (auto simp: stmt_def split: option.splits)
  with d2 c' t'(3) have db': "delegations (db w') = update_rows (\<lambda>r. d_TenantID r = T \<and> d_DeletedAt r = None)
     (\<lambda>r. touch_row (tx_now t) r (r\<lparr>d_DeletedAt := Some (tx_now t)\<rparr>)) (delegations (db w))"
    and rest: "tenant_settings (db w') T = None" "outbox (db w') = outbox (db w)" by simp_all
  show "tenant_settings (db w') T = None" "outbox (db w') = outbox (db w)"
    "length (delegations (db w')) = length (delegations (db w))" using rest by (simp_all add: db')
  show "\<forall>r \<in> set (delegations (db w')). d_TenantID r = T \<longrightarrow> d_DeletedAt r \<noteq> None"
    unfolding db'
    by (intro ballI, erule update_rows_all [where Q = "\<lambda>r. d_TenantID r = T \<longrightarrow> d_DeletedAt r \<noteq> None", rotated 2]) simp_all
qed

text \<open>Ending is complete: a second cascade for the same user finds nothing to end.\<close>

lemma involves_none: "rows_matching (involves T u) (update_rows (involves T u) (removedRow now) rs) = []"
  by (induction rs) (simp_all add: rows_matching_def update_rows_def involves_def)

lemma delegateOpen_none: "rows_matching (delegateOpen T u) (update_rows (delegateOpen T u) (endedRow now) rs) = []"
  by (induction rs) (simp_all add: rows_matching_def update_rows_def delegateOpen_def)

end
