(* ===== verification/Json.thy ===== *)
theory Json
  imports Prelude
begin

text \<open>
  What the code uses of Go's \<^verbatim>\<open>encoding/json\<close> on the way in: a message is its parsed value,
  or nothing when the bytes are not JSON. Decoding into a struct visits the members of an
  object in order; a member matches a field by its name, letter case ignored; \<open>null\<close> leaves
  the field as it is; a later duplicate wins; a member of the wrong kind makes the whole
  decode fail. Letter case is compared for ASCII letters only.
\<close>

datatype json =
  JNull | JBool bool | JNum int | JFrac | JStr string | JArr "json list" | JObj "(string \<times> json) list"

type_synonym raw_json = "json option"   \<comment> \<open>json.RawMessage: None when not well-formed\<close>

definition lowerChar :: "char \<Rightarrow> char" where
  "lowerChar c = (let n = of_char c :: nat in if 65 \<le> n \<and> n \<le> 90 then char_of (n + 32) else c)"

definition nameMatches :: "string \<Rightarrow> string \<Rightarrow> bool" where
  "nameMatches field name \<longleftrightarrow> map lowerChar name = map lowerChar field"

text \<open>
  One field of a struct: its current value (the zero value at first) under the members of the
  object, with a decoder for the field's type that fails on the wrong kind.
\<close>

fun field_from :: "string \<Rightarrow> (json \<Rightarrow> 'a option) \<Rightarrow> 'a \<Rightarrow> (string \<times> json) list \<Rightarrow> 'a option" where
  "field_from field dec v [] = Some v"
| "field_from field dec v ((name, x) # ms) =
     (if \<not> nameMatches field name then field_from field dec v ms
      else if x = JNull then field_from field dec v ms
      else case dec x of None \<Rightarrow> None | Some v' \<Rightarrow> field_from field dec v' ms)"

text \<open>A pointer field: \<open>null\<close> resets it to \<open>nil\<close>.\<close>

fun pointer_from :: "string \<Rightarrow> (json \<Rightarrow> 'a option) \<Rightarrow> 'a option \<Rightarrow> (string \<times> json) list \<Rightarrow> 'a option option" where
  "pointer_from field dec v [] = Some v"
| "pointer_from field dec v ((name, x) # ms) =
     (if \<not> nameMatches field name then pointer_from field dec v ms
      else if x = JNull then pointer_from field dec None ms
      else case dec x of None \<Rightarrow> None | Some v' \<Rightarrow> pointer_from field dec (Some v') ms)"

text \<open>The members a struct decode sees: \<open>null\<close> is the empty object, any other value is an error.\<close>

fun members :: "raw_json \<Rightarrow> (string \<times> json) list option" where
  "members (Some (JObj ms)) = Some ms"
| "members (Some JNull) = Some []"
| "members _ = None"

fun dec_string :: "json \<Rightarrow> string option" where
  "dec_string (JStr s) = Some s" | "dec_string _ = None"

fun dec_bool :: "json \<Rightarrow> bool option" where
  "dec_bool (JBool b) = Some b" | "dec_bool _ = None"

text \<open>An \<open>int\<close> or \<open>int64\<close> field takes an integer literal in range.\<close>

fun dec_int64 :: "json \<Rightarrow> int option" where
  "dec_int64 (JNum n) = (if - (2 ^ 63) \<le> n \<and> n < 2 ^ 63 then Some n else None)"
| "dec_int64 _ = None"

fun dec_strings :: "json \<Rightarrow> string list option" where
  "dec_strings (JArr xs) = those (map (\<lambda>x. if x = JNull then Some '''' else dec_string x) xs)"
| "dec_strings _ = None"

fun dec_text :: "(string \<Rightarrow> 'a option) \<Rightarrow> json \<Rightarrow> 'a option" where
  "dec_text parse (JStr s) = parse s"
| "dec_text parse _ = None"

text \<open>A key of the raw object, compared exactly: \<open>map[string]json.RawMessage\<close>.\<close>

definition rawKey :: "string \<Rightarrow> raw_json \<Rightarrow> bool" where
  "rawKey k body = (case members body of None \<Rightarrow> False | Some ms \<Rightarrow> k \<in> set (map fst ms))"

lemma field_absent: "(\<And>n. n \<in> fst ` set ms \<Longrightarrow> \<not> nameMatches field n) \<Longrightarrow> field_from field dec v ms = Some v"
  by (induction ms) auto

lemma pointer_absent: "(\<And>n. n \<in> fst ` set ms \<Longrightarrow> \<not> nameMatches field n) \<Longrightarrow> pointer_from field dec v ms = Some v"
  by (induction ms) auto

lemma nameMatches_refl [simp]: "nameMatches f f"
  by (simp add: nameMatches_def)

end
