(* ===== verification/Consumer.thy ===== *)
theory Consumer
  imports CascadeService Json
begin

text \<open>
  The SQS consumer of the cascade queue (\<^verbatim>\<open>src/internal/adapter/inbound/consumer\<close>): decode,
  deduplicate against the processed-events ledger, run the cascade and mark the event in one
  transaction. The consumed-schema validator is a parameter; an envelope carries its parsed
  payload. Wrapping an error with \<open>fmt.Errorf("...: %w")\<close> keeps what the code inspects of it
  and is the identity here.
\<close>

section \<open>Decoding\<close>

record Envelope =
  ee_ID :: string
  ee_Type :: string
  ee_TenantID :: string
  ee_Payload :: raw_json

definition decodeError :: error where "decodeError = Raw (plainError ''decode payload'')"

definition unmarshalMembershipRevoked :: "env \<Rightarrow> raw_json \<Rightarrow> error + MembershipRevokedPayload" where
  "unmarshalMembershipRevoked e p =
     (case members p of
        None \<Rightarrow> Inl decodeError
      | Some ms \<Rightarrow>
          (case (field_from ''tenant_id'' (dec_text (uuid_Parse e)) 0 ms,
                 field_from ''user_id'' (dec_text (uuid_Parse e)) 0 ms,
                 field_from ''actor_id'' (dec_text (uuid_Parse e)) 0 ms) of
             (Some t, Some u, Some a) \<Rightarrow> Inr \<lparr>mr_TenantID = t, mr_UserID = u, mr_ActorID = a\<rparr>
           | _ \<Rightarrow> Inl decodeError))"

definition unmarshalTenantMembershipsPurged :: "env \<Rightarrow> raw_json \<Rightarrow> error + TenantMembershipsPurgedPayload" where
  "unmarshalTenantMembershipsPurged e p =
     (case members p of
        None \<Rightarrow> Inl decodeError
      | Some ms \<Rightarrow>
          (case (field_from ''tenant_id'' (dec_text (uuid_Parse e)) 0 ms,
                 field_from ''actor_id'' (dec_text (uuid_Parse e)) 0 ms) of
             (Some t, Some a) \<Rightarrow> Inr \<lparr>tp_TenantID = t, tp_ActorID = a\<rparr>
           | _ \<Rightarrow> Inl decodeError))"

definition unmarshalUserUpdated :: "env \<Rightarrow> raw_json \<Rightarrow> error + UserUpdatedPayload" where
  "unmarshalUserUpdated e p =
     (case members p of
        None \<Rightarrow> Inl decodeError
      | Some ms \<Rightarrow>
          (case (field_from ''user_id'' (dec_text (uuid_Parse e)) 0 ms,
                 field_from ''changed_fields'' dec_strings [] ms,
                 pointer_from ''status'' dec_string None ms) of
             (Some u, Some fs, Some st) \<Rightarrow> Inr \<lparr>uu_UserID = u, uu_ChangedFields = fs, uu_Status = st\<rparr>
           | _ \<Rightarrow> Inl decodeError))"

definition isUserUpdatedDisabled :: "env \<Rightarrow> Envelope \<Rightarrow> error + bool" where
  "isUserUpdatedDisabled e evp =
     (case unmarshalUserUpdated e (ee_Payload evp) of
        Inl err \<Rightarrow> Inl err
      | Inr p \<Rightarrow> Inr (uu_Status p = Some ''disabled''))"

section \<open>Deduplication\<close>

definition skipDuplicate :: "env \<Rightarrow> ctx \<Rightarrow> string \<Rightarrow> string \<Rightarrow> world \<Rightarrow> (error, bool, world) outcome" where
  "skipDuplicate e c consumer eventID w =
     bind_res (ProcessedEventsRepository_IsProcessed e c consumer eventID w) (\<lambda>processed w.
       if processed then (Inr True, record_metric e (MDuplicate consumer) w) else (Inr False, w))"

definition markProcessedInTx :: "env \<Rightarrow> ctx \<Rightarrow> string \<Rightarrow> string \<Rightarrow> world \<Rightarrow> (error, unit, world) outcome" where
  "markProcessedInTx e c consumer eventID =
     TxRunner_RunInTx e c (\<lambda>txCtx. ProcessedEventsRepository_MarkProcessed e txCtx consumer eventID)"

definition consumerCascade :: string where "consumerCascade = ''cascade''"
definition consumerOffboarding :: string where "consumerOffboarding = ''offboarding''"
definition consumerDelegateDisable :: string where "consumerDelegateDisable = ''delegate_disable''"

definition ackUnknown :: "env \<Rightarrow> ctx \<Rightarrow> string \<Rightarrow> Envelope \<Rightarrow> world \<Rightarrow> (error, unit, world) outcome" where
  "ackUnknown e c consumer evp w =
     markProcessedInTx e c consumer (ee_ID evp) (record_metric e (MUnknownEvent consumer (ee_Type evp)) w)"

section \<open>Dispatch\<close>

definition runCascadeAndMark :: "env \<Rightarrow> ctx \<Rightarrow> string \<Rightarrow> string \<Rightarrow> (ctx \<Rightarrow> world \<Rightarrow> (error, unit, world) outcome) \<Rightarrow> world \<Rightarrow> (error, unit, world) outcome" where
  "runCascadeAndMark e c consumerName eventID fn =
     TxRunner_RunInTx e c (\<lambda>txCtx w.
       bind_res (fn txCtx w) (\<lambda>_ w. ProcessedEventsRepository_MarkProcessed e txCtx consumerName eventID w))"

definition handleMembershipRevoked :: "env \<Rightarrow> ctx \<Rightarrow> Envelope \<Rightarrow> string \<Rightarrow> string \<Rightarrow> world \<Rightarrow> (error, unit, world) outcome" where
  "handleMembershipRevoked e c evp consumerName eventID w =
     bind_res (unmarshalMembershipRevoked e (ee_Payload evp), w) (\<lambda>p w.
       runCascadeAndMark e (WithTenantGUC c (mr_TenantID p)) consumerName eventID
         (\<lambda>txCtx. CascadeService_EndForUser e txCtx (mr_TenantID p) (mr_UserID p)) w)"

definition handleTenantMembershipsPurged :: "env \<Rightarrow> ctx \<Rightarrow> Envelope \<Rightarrow> string \<Rightarrow> string \<Rightarrow> world \<Rightarrow> (error, unit, world) outcome" where
  "handleTenantMembershipsPurged e c evp consumerName eventID w =
     bind_res (unmarshalTenantMembershipsPurged e (ee_Payload evp), w) (\<lambda>p w.
       runCascadeAndMark e (WithTenantGUC c (tp_TenantID p)) consumerName eventID
         (\<lambda>txCtx. CascadeService_ScrubTenant e txCtx (tp_TenantID p)) w)"

definition handleUserDisabled :: "env \<Rightarrow> ctx \<Rightarrow> Envelope \<Rightarrow> string \<Rightarrow> string \<Rightarrow> world \<Rightarrow> (error, unit, world) outcome" where
  "handleUserDisabled e c evp consumerName eventID w =
     bind_res (unmarshalUserUpdated e (ee_Payload evp), w) (\<lambda>p w.
     bind_res (case uuid_Parse e (ee_TenantID evp) of None \<Rightarrow> Inl decodeError | Some t \<Rightarrow> Inr t, w) (\<lambda>tenantID w.
       runCascadeAndMark e (WithTenantGUC c tenantID) consumerName eventID
         (\<lambda>txCtx. CascadeService_EndForDisabledDelegate e txCtx tenantID (uu_UserID p)) w))"

type_synonym PayloadValidator = "string \<Rightarrow> raw_json \<Rightarrow> RawError option"

definition dispatchedTypes :: "string set" where
  "dispatchedTypes = {''MembershipRevoked'', ''TenantMembershipsPurged'', ''UserUpdated''}"

definition validatePayload :: "env \<Rightarrow> PayloadValidator option \<Rightarrow> Envelope \<Rightarrow> world \<Rightarrow> (error, unit, world) outcome" where
  "validatePayload e validate evp w =
     (case validate of
        None \<Rightarrow> (Inr (), w)
      | Some v \<Rightarrow>
          if ee_Type evp \<notin> dispatchedTypes then (Inr (), w)
          else case v (ee_Type evp) (ee_Payload evp) of
            None \<Rightarrow> (Inr (), w)
          | Some err \<Rightarrow> (Inl (Raw err), record_metric e MCascadeDLQ w))"

text \<open>The known-type path of \<open>Handle\<close>: probe, run, count.\<close>

definition Handle_run :: "env \<Rightarrow> ctx \<Rightarrow> string \<Rightarrow> string \<Rightarrow> (world \<Rightarrow> (error, unit, world) outcome) \<Rightarrow> world \<Rightarrow> (error, unit, world) outcome" where
  "Handle_run e c consumerName eventID handler w =
     bind_res (skipDuplicate e c consumerName eventID w) (\<lambda>skip w.
       if skip then (Inr (), w)
       else case handler w of
         (Inl err, w) \<Rightarrow> (Inl err, record_metric e MCascadeDLQ w)
       | (Inr _, w) \<Rightarrow> (Inr (), record_metric e MCascadeProcessed w))"

definition Handle_userUpdated :: "env \<Rightarrow> ctx \<Rightarrow> Envelope \<Rightarrow> string \<Rightarrow> world \<Rightarrow> (error, unit, world) outcome" where
  "Handle_userUpdated e c evp eventID w =
     bind_res (isUserUpdatedDisabled e evp, w) (\<lambda>disabled w.
       if \<not> disabled then
         bind_res (skipDuplicate e c consumerDelegateDisable eventID w) (\<lambda>skip w.
           if skip then (Inr (), w) else markProcessedInTx e c consumerDelegateDisable eventID w)
       else Handle_run e c consumerDelegateDisable eventID
              (handleUserDisabled e c evp consumerDelegateDisable eventID) w)"

definition CascadeConsumer_Handle :: "env \<Rightarrow> PayloadValidator option \<Rightarrow> ctx \<Rightarrow> Envelope \<Rightarrow> world \<Rightarrow> (error, unit, world) outcome" where
  "CascadeConsumer_Handle e validate c evp w =
     (let w = record_metric e (MMessageReceived ''delegation-cascade-q'') w
      in case uuid_Parse e (ee_ID evp) of
           None \<Rightarrow> (Inr (), w)
         | Some i \<Rightarrow>
             if i = 0 then (Inr (), w)
             else
               (let eventID = uuid_String e i
                in bind_res (validatePayload e validate evp w) (\<lambda>_ w.
                   if ee_Type evp = ''MembershipRevoked'' then
                     Handle_run e c consumerCascade eventID (handleMembershipRevoked e c evp consumerCascade eventID) w
                   else if ee_Type evp = ''TenantMembershipsPurged'' then
                     Handle_run e c consumerOffboarding eventID (handleTenantMembershipsPurged e c evp consumerOffboarding eventID) w
                   else if ee_Type evp = ''UserUpdated'' then Handle_userUpdated e c evp eventID w
                   else ackUnknown e c consumerCascade evp w)))"

section \<open>Frames\<close>

lemma skipDuplicate_db [simp]: "db (snd (skipDuplicate e c k i w)) = db w"
  unfolding skipDuplicate_def
  by (rule bind_res_cases [of "ProcessedEventsRepository_IsProcessed e c k i w"])
     (use IsProcessed_db [of e c k i w] in auto)

lemma validatePayload_db [simp]: "db (snd (validatePayload e v evp w)) = db w"
  by (simp add: validatePayload_def split: option.split)

lemma WithTenantGUC_tx [simp]: "c_tx (WithTenantGUC c T) = c_tx c" "c_publisher (WithTenantGUC c T) = c_publisher c"
  by (simp_all add: WithTenantGUC_def)

context cascade_frame
begin

lemma frame_markProcessedInTx: "okc c \<Longrightarrow> R (db w) (db (snd (markProcessedInTx e c k i w)))"
  unfolding markProcessedInTx_def by (intro frame_body b_MarkProcessed)

lemma frame_runCascadeAndMark:
  assumes "okc c" "\<And>c' w. okc c' \<Longrightarrow> R (db w) (db (snd (fn c' w)))"
  shows "R (db w) (db (snd (runCascadeAndMark e c k i fn w)))"
  unfolding runCascadeAndMark_def
  by (intro frame_body assms(1) w.frame_bind assms(2) b_MarkProcessed)

lemma frame_ackUnknown: "okc c \<Longrightarrow> R (db w) (db (snd (ackUnknown e c k evp w)))"
  using frame_markProcessedInTx [where c = c and e = e and k = k and i = "ee_ID evp"
      and w = "record_metric e (MUnknownEvent k (ee_Type evp)) w"] by (simp add: ackUnknown_def)

lemma frame_handlers:
  assumes "\<And>T. okc (WithTenantGUC c T)"
  shows "R (db w) (db (snd (handleMembershipRevoked e c evp k i w)))"
    "R (db w) (db (snd (handleTenantMembershipsPurged e c evp k i w)))"
    "R (db w) (db (snd (handleUserDisabled e c evp k i w)))"
  unfolding handleMembershipRevoked_def handleTenantMembershipsPurged_def handleUserDisabled_def
  by (intro w.frame_bind frame_runCascadeAndMark assms frame_EndForUser frame_EndForDisabledDelegate frame_ScrubTenant;
      simp add: db_refl)+

lemma frame_Handle_run:
  assumes "\<And>w. R (db w) (db (snd (handler w)))"
  shows "R (db w) (db (snd (Handle_run e c k i handler w)))"
proof -
  have "R (db w1) (db (snd (case handler w1 of (Inl err, w) \<Rightarrow> (Inl err, record_metric e MCascadeDLQ w)
       | (Inr _, w) \<Rightarrow> (Inr (), record_metric e MCascadeProcessed w))))" for w1
    using assms [of w1] by (auto split: prod.split sum.split)
  then show ?thesis
    unfolding Handle_run_def by (intro w.frame_bind) (auto simp: db_refl)
qed

lemma frame_Handle:
  assumes "okc c" "\<And>T. okc (WithTenantGUC c T)"
  shows "R (db w) (db (snd (CascadeConsumer_Handle e v c evp w)))"
proof -
  note h = frame_handlers [OF assms(2)]
  have "R (db w) (db (snd (Handle_userUpdated e c evp i w)))" for i w
    unfolding Handle_userUpdated_def
    by (intro w.frame_bind)
       (auto simp: db_refl intro!: w.frame_bind frame_markProcessedInTx frame_Handle_run h assms(1))
  with h frame_ackUnknown [OF assms(1)] show ?thesis
    unfolding CascadeConsumer_Handle_def Let_def
    by (auto simp: db_refl intro!: w.frame_bind [where s = "record_metric _ _ _", simplified] frame_Handle_run split: option.split)
qed

end

lemma Handle_step: "db_step (db w) (db (snd (CascadeConsumer_Handle e v c evp w)))"
  by (rule rstep.frame_Handle) simp_all

section \<open>Atomicity\<close>

lemma markProcessedInTx_error: "c_tx c = None \<Longrightarrow> markProcessedInTx e c k i w = (Inl err, w') \<Longrightarrow> db w' = db w"
  unfolding markProcessedInTx_def by (rule RunInTx_error)

lemma runCascadeAndMark_error:
  "c_tx c = None \<Longrightarrow> runCascadeAndMark e c k i fn w = (Inl err, w') \<Longrightarrow> db w' = db w"
  unfolding runCascadeAndMark_def by (rule RunInTx_error)

lemma handlers_error:
  assumes "c_tx c = None"
  shows "handleMembershipRevoked e c evp k i w = (Inl err, w') \<Longrightarrow> db w' = db w"
    "handleTenantMembershipsPurged e c evp k i w = (Inl err, w') \<Longrightarrow> db w' = db w"
    "handleUserDisabled e c evp k i w = (Inl err, w') \<Longrightarrow> db w' = db w"
  unfolding handleMembershipRevoked_def handleTenantMembershipsPurged_def handleUserDisabled_def res_iff
  using assms by (auto dest!: runCascadeAndMark_error [rotated])

lemma Handle_run_error:
  assumes "\<And>w w'. handler w = (Inl err, w') \<Longrightarrow> db w' = db w" "Handle_run e c k i handler w = (Inl err, w')"
  shows "db w' = db w"
proof -
  from assms(2) consider "skipDuplicate e c k i w = (Inl err, w')"
    | w1 w2 where "skipDuplicate e c k i w = (Inr False, w1)" "handler w1 = (Inl err, w2)" "db w' = db w2"
    unfolding Handle_run_def res_iff by (auto split: if_splits prod.splits sum.splits)
  then show ?thesis
    by cases (use skipDuplicate_db [of e c k i w] in \<open>auto dest: assms(1)\<close>)
qed

lemma Handle_error:
  assumes c: "c_tx c = None" and run: "CascadeConsumer_Handle e v c evp w = (Inl err, w')"
  shows "db w' = db w"
proof -
  note h = handlers_error [OF c] and m = markProcessedInTx_error [OF c]
  have u: "db w2 = db w1" if "Handle_userUpdated e c evp i w1 = (Inl err, w2)" for i w1 w2
  proof -
    from that consider "w2 = w1" | "skipDuplicate e c consumerDelegateDisable i w1 = (Inl err, w2)"
      | w3 where "skipDuplicate e c consumerDelegateDisable i w1 = (Inr False, w3)" "markProcessedInTx e c consumerDelegateDisable i w3 = (Inl err, w2)"
      | "Handle_run e c consumerDelegateDisable i (handleUserDisabled e c evp consumerDelegateDisable i) w1 = (Inl err, w2)"
      unfolding Handle_userUpdated_def res_iff by (auto simp: res_iff split: if_splits)
    then show ?thesis
    proof cases
      case 4
      then show ?thesis by (rule Handle_run_error [rotated]) (rule h)
    qed (use skipDuplicate_db [of e c consumerDelegateDisable i w1] in \<open>auto dest: m\<close>)
  qed
  have r: "Handle_run e c k i (handleMembershipRevoked e c evp k i) w1 = (Inl err, w2) \<Longrightarrow> db w2 = db w1"
      "Handle_run e c k i (handleTenantMembershipsPurged e c evp k i) w1 = (Inl err, w2) \<Longrightarrow> db w2 = db w1" for k i w1 w2
    by (erule Handle_run_error [rotated], erule h)+
  have val: "validatePayload e v evp w0 = (x, w1) \<Longrightarrow> db w1 = db w0" for x w0 w1
    using validatePayload_db [of e v evp w0] by simp
  show ?thesis
    using run unfolding CascadeConsumer_Handle_def Let_def
    by (auto simp: res_iff ackUnknown_def split: option.splits if_splits dest!: val u r m)
qed

section \<open>Exactly one effect per event\<close>

text \<open>The ledger bucket of an event that reaches a cascade or its filter.\<close>

definition bucketOf :: "string \<Rightarrow> string option" where
  "bucketOf ty =
     (if ty = ''MembershipRevoked'' then Some consumerCascade
      else if ty = ''TenantMembershipsPurged'' then Some consumerOffboarding
      else if ty = ''UserUpdated'' then Some consumerDelegateDisable else None)"

lemma markProcessedInTx_seen: "markProcessedInTx e c k i w = (Inr u, w') \<Longrightarrow> event_seen k i (db w')"
  unfolding markProcessedInTx_def by (elim RunInTx_ok_any) (auto dest: ledger.mark_ok)

lemma runCascadeAndMark_seen: "runCascadeAndMark e c k i fn w = (Inr u, w') \<Longrightarrow> event_seen k i (db w')"
  unfolding runCascadeAndMark_def by (elim RunInTx_ok_any) (auto simp: res_iff dest: ledger.mark_ok)

lemma handlers_seen:
  "handleMembershipRevoked e c evp k i w = (Inr u, w') \<Longrightarrow> event_seen k i (db w')"
  "handleTenantMembershipsPurged e c evp k i w = (Inr u, w') \<Longrightarrow> event_seen k i (db w')"
  "handleUserDisabled e c evp k i w = (Inr u, w') \<Longrightarrow> event_seen k i (db w')"
  unfolding handleMembershipRevoked_def handleTenantMembershipsPurged_def handleUserDisabled_def res_iff
  by (auto dest!: runCascadeAndMark_seen)

lemma skipDuplicate_ok:
  "skipDuplicate e c k i w = (Inr b, w') \<Longrightarrow> b = event_seen k i (db w) \<and> db w' = db w"
  using skipDuplicate_db [of e c k i w]
  by (auto simp: skipDuplicate_def res_iff split: if_splits dest: ledger.is_processed_ok)

lemma Handle_run_seen:
  assumes "\<And>w w'. handler w = (Inr (), w') \<Longrightarrow> event_seen k i (db w')"
    and "Handle_run e c k i handler w = (Inr u, w')"
  shows "event_seen k i (db w')"
  using assms(2) unfolding Handle_run_def res_iff
  by (auto split: if_splits prod.splits sum.splits dest!: skipDuplicate_ok dest: assms(1))

lemma Handle_userUpdated_seen:
  assumes "Handle_userUpdated e c evp i w = (Inr u, w')"
  shows "event_seen consumerDelegateDisable i (db w')"
  using assms unfolding Handle_userUpdated_def res_iff
  by (auto simp: res_iff split: if_splits dest!: skipDuplicate_ok markProcessedInTx_seen
      dest: Handle_run_seen [rotated] intro: handlers_seen)

lemma Handle_marks:
  assumes "CascadeConsumer_Handle e v c evp w = (Inr u, w')" "uuid_Parse e (ee_ID evp) = Some i" "i \<noteq> 0"
    "bucketOf (ee_Type evp) = Some k"
  shows "event_seen k (uuid_String e i) (db w')"
proof -
  from assms obtain w1 where "ee_Type evp = ''MembershipRevoked'' \<and> k = consumerCascade \<and>
       Handle_run e c k (uuid_String e i) (handleMembershipRevoked e c evp k (uuid_String e i)) w1 = (Inr (), w') \<or>
     ee_Type evp = ''TenantMembershipsPurged'' \<and> k = consumerOffboarding \<and>
       Handle_run e c k (uuid_String e i) (handleTenantMembershipsPurged e c evp k (uuid_String e i)) w1 = (Inr (), w') \<or>
     k = consumerDelegateDisable \<and> Handle_userUpdated e c evp (uuid_String e i) w1 = (Inr (), w')"
    unfolding CascadeConsumer_Handle_def Let_def bucketOf_def by (auto simp: res_iff split: if_splits)
  then show ?thesis
    by (auto intro: Handle_run_seen [rotated] handlers_seen Handle_userUpdated_seen)
qed

lemma skipDuplicate_pointerCalls [simp]: "pointerCalls (snd (skipDuplicate e c k i w)) = pointerCalls w"
proof -
  have "same_ext w (snd (ProcessedEventsRepository_IsProcessed e c k i w))" by simp
  then show ?thesis
    unfolding skipDuplicate_def
    by (auto simp: bind_res_def same_ext_def pointerCalls_def split: prod.splits sum.splits)
qed

lemma IsProcessed_no_faults:
  assumes "no_faults e" "c_tx c = None"
  shows "fst (ProcessedEventsRepository_IsProcessed e c k i w) = Inr (event_seen k i (db w))"
  using assms by (simp add: ProcessedEventsRepository_IsProcessed_def withPool_no_faults event_seen_def)

lemma skipDuplicate_no_faults:
  assumes "no_faults e" "c_tx c = None"
  shows "fst (skipDuplicate e c k i w) = Inr (event_seen k i (db w))"
  using IsProcessed_no_faults [OF assms, of k i w]
  by (auto simp: skipDuplicate_def bind_res_def split: prod.splits sum.splits)

lemma Handle_run_duplicate:
  assumes "no_faults e" "c_tx c = None" "event_seen k i (db w)"
  shows "\<exists>w'. Handle_run e c k i handler w = (Inr (), w') \<and> quiet w w'"
proof -
  obtain r w1 where s: "skipDuplicate e c k i w = (r, w1)" by force
  with skipDuplicate_no_faults [OF assms(1,2), of k i w] assms(3) have "r = Inr True" by simp
  with s skipDuplicate_db [of e c k i w] skipDuplicate_pointerCalls [of e c k i w] show ?thesis
    by (simp add: Handle_run_def quiet_def)
qed

lemma Handle_duplicate:
  assumes nf: "no_faults e" "c_tx c = None" and ev: "uuid_Parse e (ee_ID evp) = Some i" "i \<noteq> 0"
    "bucketOf (ee_Type evp) = Some k" "event_seen k (uuid_String e i) (db w)"
    and valid: "\<And>f. v = Some f \<Longrightarrow> f (ee_Type evp) (ee_Payload evp) = None"
    and dec: "ee_Type evp = ''UserUpdated'' \<Longrightarrow> unmarshalUserUpdated e (ee_Payload evp) = Inr p"
  shows "\<exists>w'. CascadeConsumer_Handle e v c evp w = (Inr (), w') \<and> quiet w w'"
proof -
  let ?w = "record_metric e (MMessageReceived ''delegation-cascade-q'') w"
  have val: "validatePayload e v evp ?w = (Inr (), ?w)"
    using valid by (auto simp: validatePayload_def split: option.split)
  have run: "\<exists>w'. Handle_run e c k (uuid_String e i) h ?w = (Inr (), w') \<and> quiet w w'" for h
    using Handle_run_duplicate [OF nf, of k "uuid_String e i" ?w h] ev(4) by (auto simp: quiet_def)
  have user: "\<exists>w'. Handle_userUpdated e c evp (uuid_String e i) ?w = (Inr (), w') \<and> quiet w w'"
    if "ee_Type evp = ''UserUpdated''"
  proof -
    from that ev(3) have k: "k = consumerDelegateDisable" by (simp add: bucketOf_def)
    obtain r w1 where s: "skipDuplicate e c k (uuid_String e i) ?w = (r, w1)" by force
    with skipDuplicate_no_faults [OF nf, of k "uuid_String e i" ?w] ev(4) have "r = Inr True" by simp
    moreover have "quiet w w1"
      using s skipDuplicate_db [of e c k "uuid_String e i" ?w] skipDuplicate_pointerCalls [of e c k "uuid_String e i" ?w]
      by (simp add: quiet_def)
    ultimately show ?thesis
      using run dec [OF that] s k by (auto simp: Handle_userUpdated_def isUserUpdatedDisabled_def)
  qed
  show ?thesis
    using ev val run user by (auto simp: CascadeConsumer_Handle_def Let_def bucketOf_def split: if_splits)
qed

section \<open>The effect of a first delivery\<close>

lemma MarkProcessed_rows:
  assumes "ProcessedEventsRepository_MarkProcessed e c k i w = (Inr u, w')"
  shows "delegations (db w') = delegations (db w)" "outbox (db w') = outbox (db w)"
    "tenant_settings (db w') = tenant_settings (db w)"
proof -
  from assms obtain t :: tx and w0 w1 where "db w0 = db w" "db w' = db w1"
    "stmt e (\<lambda>w. (Inr (), if (i, k) \<in> processedKey ` set (processed_events (db w)) then w
        else w\<lparr>db := (db w)\<lparr>processed_events := processed_events (db w) @ [(i, k, tx_now t)]\<rparr>\<rparr>)) w0 = (Inr u, w1)"
    unfolding ProcessedEventsRepository_MarkProcessed_def by (rule withPool_ok)
  then show "delegations (db w') = delegations (db w)" "outbox (db w') = outbox (db w)"
    "tenant_settings (db w') = tenant_settings (db w)"
    by (auto simp: stmt_def split: option.splits if_splits)
qed

lemma runCascadeAndMark_ok:
  assumes "bound_ctx T c" "runCascadeAndMark e c k i fn w = (Inr u, w')"
  obtains c' w1 w2 x where "bound_ctx T c'" "hasPublisher e \<or> c_publisher c \<longleftrightarrow> hasPublisher e \<or> c_publisher c'"
    "db w1 = db w" "fn c' w1 = (Inr x, w2)"
    "delegations (db w') = delegations (db w2)" "outbox (db w') = outbox (db w2)"
    "tenant_settings (db w') = tenant_settings (db w2)"
proof -
  obtain c' w1 w3 where c': "opened_ctx c c'" "c_publisher c' = (hasPublisher e \<or> c_publisher c)" "db w1 = db w"
    "bind_res (fn c' w1) (\<lambda>_ w. ProcessedEventsRepository_MarkProcessed e c' k i w) = (Inr u, w3)" "db w' = db w3"
    by (rule RunInTx_ok_any [OF assms(2)[unfolded runCascadeAndMark_def]]) (rule that)
  from c'(4) obtain x w2 where "fn c' w1 = (Inr x, w2)"
    and m: "ProcessedEventsRepository_MarkProcessed e c' k i w2 = (Inr u, w3)"
    unfolding res_iff by auto
  with MarkProcessed_rows [OF m] c' bound_ctx_opened [OF assms(1) c'(1)] show ?thesis
    by (intro that [of c' w1 x w2]) auto
qed

lemma Handle_first_revoked:
  assumes "c_tx c = None" "CascadeConsumer_Handle e v c evp w = (Inr u, w')" "ee_Type evp = ''MembershipRevoked''"
    "uuid_Parse e (ee_ID evp) = Some i" "i \<noteq> 0" "unmarshalMembershipRevoked e (ee_Payload evp) = Inr p"
    "\<not> event_seen consumerCascade (uuid_String e i) (db w)"
  obtains now where
    "delegations (db w') = update_rows (involves (mr_TenantID p) (mr_UserID p)) (removedRow now) (delegations (db w))"
    "outboxData (db w') = outboxData (db w) @ published (hasPublisher e \<or> c_publisher c)
       (map (\<lambda>r. endedPayload (mr_TenantID p) r EndReasonDelegateRemoved SystemActorID)
          (rows_matching (\<lambda>r. involves (mr_TenantID p) (mr_UserID p) r \<and> d_DelegateID r = mr_UserID p) (delegations (db w))))"
proof -
  let ?T = "mr_TenantID p"
  from assms(2-5) obtain w1 where "validatePayload e v evp (record_metric e (MMessageReceived ''delegation-cascade-q'') w) = (Inr (), w1)"
    and hr: "Handle_run e c consumerCascade (uuid_String e i) (handleMembershipRevoked e c evp consumerCascade (uuid_String e i)) w1 = (Inr (), w')"
    by (auto simp: CascadeConsumer_Handle_def Let_def res_iff)
  then have w1: "db w1 = db w"
    using validatePayload_db [of e v evp "record_metric e (MMessageReceived ''delegation-cascade-q'') w"] by simp
  from hr assms(7) w1 obtain w2 w3 where "db w2 = db w" "db w' = db w3"
    "handleMembershipRevoked e c evp consumerCascade (uuid_String e i) w2 = (Inr (), w3)"
    unfolding Handle_run_def res_iff by (auto split: if_splits prod.splits sum.splits dest!: skipDuplicate_ok)
  with assms(6) have run: "runCascadeAndMark e (WithTenantGUC c ?T) consumerCascade (uuid_String e i)
      (\<lambda>txCtx. CascadeService_EndForUser e txCtx ?T (mr_UserID p)) w2 = (Inr (), w3)"
    by (simp add: handleMembershipRevoked_def)
  obtain c' w4 w5 x where c': "bound_ctx ?T c'" "hasPublisher e \<or> c_publisher (WithTenantGUC c ?T) \<longleftrightarrow> hasPublisher e \<or> c_publisher c'"
    "db w4 = db w2" "CascadeService_EndForUser e c' ?T (mr_UserID p) w4 = (Inr x, w5)"
    "delegations (db w3) = delegations (db w5)" "outbox (db w3) = outbox (db w5)"
    by (rule runCascadeAndMark_ok [OF bound_ctx_GUC [OF assms(1)] run]) (rule that)
  obtain now where "changed (db w4) (update_rows (involves ?T (mr_UserID p)) (removedRow now) (delegations (db w4)))
       (published (hasPublisher e \<or> c_publisher c') (map (\<lambda>r. endedPayload ?T r EndReasonDelegateRemoved SystemActorID)
          (rows_matching (\<lambda>r. involves ?T (mr_UserID p) r \<and> d_DelegateID r = mr_UserID p) (delegations (db w4))))) (db w5)"
    by (rule Cascade_EndForUser_ok [OF c'(1,4)]) (rule that)
  with c' \<open>db w2 = db w\<close> \<open>db w' = db w3\<close> show ?thesis
    by (intro that [of now]) (auto simp: changed_def outboxData_def)
qed

lemma Handle_isolated:
  assumes "c_tx c = None" "ee_Type evp = ''MembershipRevoked''" "unmarshalMembershipRevoked e (ee_Payload evp) = Inr p"
  shows "other_tenants_kept (mr_TenantID p) (db w) (db (snd (CascadeConsumer_Handle e v c evp w)))"
proof -
  let ?T = "mr_TenantID p"
  have h: "other_tenants_kept ?T (db w) (db (snd (handleMembershipRevoked e c evp k i w)))" for k i w
    unfolding handleMembershipRevoked_def assms(3)
    by (simp, rule riso.frame_runCascadeAndMark [OF tenant_ctx_bound [OF assms(1)]], rule riso.frame_EndForUser)
  have run: "other_tenants_kept ?T (db w) (db (snd (Handle_run e c k i (handleMembershipRevoked e c evp k i) w)))" for k i w
    unfolding Handle_run_def
  proof (rule iso.w.frame_bind)
    fix b t
    show "other_tenants_kept ?T (db t) (db (snd (if b then (Inr (), t)
       else case handleMembershipRevoked e c evp k i t of
         (Inl err, w) \<Rightarrow> (Inl err, record_metric e MCascadeDLQ w)
       | (Inr _, w) \<Rightarrow> (Inr (), record_metric e MCascadeProcessed w))))"
      using h [of t k i] by (auto simp: iso.db_refl split: prod.split sum.split)
  qed (simp add: iso.db_refl)
  have "other_tenants_kept ?T (db w0) (db (snd (bind_res (validatePayload e v evp w0)
      (\<lambda>_ w. Handle_run e c k i (handleMembershipRevoked e c evp k i) w))))" for w0 k i
    by (rule iso.w.frame_bind) (simp_all add: iso.db_refl run)
  from this [of "record_metric e (MMessageReceived ''delegation-cascade-q'') w"] assms(2) show ?thesis
    by (simp add: CascadeConsumer_Handle_def Let_def iso.db_refl split: option.split)
qed

end
