(* ===== verification/Jobs.thy ===== *)
theory Jobs
  imports CascadeService "HOL-Library.Sublist"
begin

text \<open>
  The cron jobs (\<^verbatim>\<open>src/cmd/reconciler/jobs\<close>): activation of scheduled delegations, expiry,
  the review sweep (daily warnings, then auto-end) and the monthly cleanup. The finders read
  across tenants on the system pool; every write runs in a transaction of the application pool
  bound to the row's own tenant.

  A difference of times is rounded up to whole days as \<open>math.Ceil(d.Hours() / 24)\<close> does, which
  is exact for the spans of a few days the sweep sees at microsecond resolution.
\<close>

section \<open>Definitions\<close>

record JobContext =
  jc_BatchLimit :: int
  jc_RetentionDays :: int
  jc_ProcessedEvents :: bool   \<comment> \<open>the store is wired\<close>
  jc_ProcessedEventsTTLDays :: int

record JobResult =
  res_Attempted :: int
  res_Succeeded :: int
  res_Failed :: int
  res_Warned3d :: int
  res_Warned2d :: int
  res_Warned1d :: int
  res_Expired :: int
  res_Deferred :: int
  res_Purged :: int

definition zeroResult :: JobResult where
  "zeroResult = \<lparr>res_Attempted = 0, res_Succeeded = 0, res_Failed = 0, res_Warned3d = 0, res_Warned2d = 0,
     res_Warned1d = 0, res_Expired = 0, res_Deferred = 0, res_Purged = 0\<rparr>"

definition defaultBatchLimit :: int where "defaultBatchLimit = 50"

definition batchLimit :: "JobContext \<Rightarrow> int" where
  "batchLimit jc = (if jc_BatchLimit jc > 0 then jc_BatchLimit jc else defaultBatchLimit)"

definition cronEvent :: "env \<Rightarrow> uuid \<Rightarrow> uuid \<Rightarrow> EventData \<Rightarrow> string \<Rightarrow> world \<Rightarrow> DomainEvent" where
  "cronEvent e tenantID subject data cronName w =
     \<lparr>ev_TenantID = tenantID, ev_Subject = subject, ev_Actor = ActorSystem, ev_OccurredAt = clock e (tick w),
      ev_Data = data, ev_IPAddress = ''system'', ev_UserAgent = ''iam-delegation/'' @ cronName @ ''-cron''\<rparr>"

definition enqueueEvent :: "env \<Rightarrow> ctx \<Rightarrow> uuid \<Rightarrow> uuid \<Rightarrow> EventData \<Rightarrow> string \<Rightarrow> world \<Rightarrow> (error, unit, world) outcome" where
  "enqueueEvent e c tenantID subject data cronName w =
     (if \<not> c_publisher c then (Inr (), w)
      else Publisher_EnqueueCtx e c (cronEvent e tenantID subject data cronName w) w)"

definition racedError :: "error \<Rightarrow> bool" where
  "racedError err \<longleftrightarrow> errorsIs err ErrDelegationNotFound \<or> errorsIs err ErrOptimisticLockConflict"

subsection \<open>Activation\<close>

definition activateTx :: "env \<Rightarrow> Delegation \<Rightarrow> ctx \<Rightarrow> world \<Rightarrow> (error, bool, world) outcome" where
  "activateTx e d txCtx w =
     bind_res (DelegationRepository_Activate e SysPool txCtx (d_TenantID d) (d_ID d) (d_RecordVersion d) w) (\<lambda>activated w.
       case activated of
         None \<Rightarrow> (Inr True, w)
       | Some _ \<Rightarrow>
           bind_res (enqueueEvent e txCtx (d_TenantID d) (d_ID d) (startedPayload (d_TenantID d) d SystemActorID)
               ''delegation-activation'' w) (\<lambda>_ w. (Inr False, w)))"

definition activateScheduled :: "env \<Rightarrow> ctx \<Rightarrow> Delegation \<Rightarrow> world \<Rightarrow> (error, bool, world) outcome" where
  "activateScheduled e c d = TxRunner_RunInTx e (WithTenantGUC c (d_TenantID d)) (activateTx e d)"

definition Activation_step :: "env \<Rightarrow> ctx \<Rightarrow> Delegation \<Rightarrow> JobResult \<times> world \<Rightarrow> JobResult \<times> world" where
  "Activation_step e c d s =
     (let res = (fst s)\<lparr>res_Attempted := res_Attempted (fst s) + 1\<rparr>;
          oooUntil = (case d_EndsAt d of Some u \<Rightarrow> Some u | None \<Rightarrow> d_ReviewDueAt d)
      in case up_SetAvailability e (oooRequest (d_TenantID d) (d_DelegatorID d) (d_StartsAt d) oooUntil (d_DelegateID d) (d_Reason d)) (snd s) of
           (Some _, w) \<Rightarrow> (res\<lparr>res_Deferred := res_Deferred res + 1\<rparr>,
                            record_metric e (MUPFailure ''activation-cron'') (record_metric e MActivationDeferred w))
         | (None, w) \<Rightarrow>
             (case activateScheduled e c d w of
                (Inl _, w) \<Rightarrow> (res\<lparr>res_Failed := res_Failed res + 1\<rparr>, w)
              | (Inr raced, w) \<Rightarrow> (if raced then res else res\<lparr>res_Succeeded := res_Succeeded res + 1\<rparr>, w)))"

definition Activation :: "env \<Rightarrow> JobContext \<Rightarrow> ctx \<Rightarrow> world \<Rightarrow> (error, JobResult, world) outcome" where
  "Activation e jc c w =
     bind_res (DelegationRepository_ListScheduledBefore e SysPool c (clock e (tick w)) (batchLimit jc) w) (\<lambda>targets w.
       (case fold (Activation_step e c) targets (zeroResult, w) of (res, w) \<Rightarrow> (Inr res, w)))"

subsection \<open>Expiry\<close>

text \<open>The transaction \<open>endExpired\<close> and \<open>endReviewExpired\<close> both run; the answer is \<open>raced\<close>.\<close>

definition endTx :: "env \<Rightarrow> Delegation \<Rightarrow> EndReason \<Rightarrow> string \<Rightarrow> ctx \<Rightarrow> world \<Rightarrow> (error, bool, world) outcome" where
  "endTx e d reason cronName txCtx w =
     (case DelegationRepository_End e SysPool txCtx (d_TenantID d) (d_ID d) DelegationEnded (d_RecordVersion d) w of
        (Inl err, w) \<Rightarrow> if racedError err then (Inr True, w) else (Inl err, w)
      | (Inr _, w) \<Rightarrow>
          bind_res (enqueueEvent e txCtx (d_TenantID d) (d_ID d) (endedPayload (d_TenantID d) d reason SystemActorID) cronName w)
            (\<lambda>_ w. (Inr False, w)))"

definition endExpired :: "env \<Rightarrow> ctx \<Rightarrow> Delegation \<Rightarrow> world \<Rightarrow> (error, bool, world) outcome" where
  "endExpired e c d = TxRunner_RunInTx e (WithTenantGUC c (d_TenantID d)) (endTx e d EndReasonExpired ''delegation-expiry'')"

definition Expiry_step :: "env \<Rightarrow> ctx \<Rightarrow> Delegation \<Rightarrow> JobResult \<times> world \<Rightarrow> JobResult \<times> world" where
  "Expiry_step e c d s =
     (let res = (fst s)\<lparr>res_Attempted := res_Attempted (fst s) + 1\<rparr>
      in case up_ClearDelegatePointer e (d_TenantID d) (d_DelegatorID d) (snd s) of
           (Some _, w) \<Rightarrow> (res\<lparr>res_Deferred := res_Deferred res + 1\<rparr>,
                            record_metric e (MUPFailure ''expiry-cron'') (record_metric e MExpiryDeferred w))
         | (None, w) \<Rightarrow>
             (case endExpired e c d w of
                (Inl _, w) \<Rightarrow> (res\<lparr>res_Failed := res_Failed res + 1\<rparr>, w)
              | (Inr raced, w) \<Rightarrow>
                  if raced then (res, w)
                  else (res\<lparr>res_Succeeded := res_Succeeded res + 1\<rparr>, record_metric e (MEnded EndReasonExpired) w)))"

definition Expiry :: "env \<Rightarrow> JobContext \<Rightarrow> ctx \<Rightarrow> world \<Rightarrow> (error, JobResult, world) outcome" where
  "Expiry e jc c w =
     bind_res (DelegationRepository_ListExpiringBefore e SysPool c (clock e (tick w)) (batchLimit jc) w) (\<lambda>targets w.
       (case fold (Expiry_step e c) targets (zeroResult, w) of (res, w) \<Rightarrow> (Inr res, w)))"

subsection \<open>Review sweep\<close>

definition ceilDays :: "duration \<Rightarrow> int" where
  "ceilDays d = - ((- d) div day)"

definition computeDaysRemaining :: "time option \<Rightarrow> time \<Rightarrow> int" where
  "computeDaysRemaining reviewDueAt now =
     (case reviewDueAt of
        None \<Rightarrow> 0
      | Some due \<Rightarrow> (let days = ceilDays (time_Sub due now) in if days < 1 then 1 else days))"

definition reviewPayload :: "Delegation \<Rightarrow> int \<Rightarrow> EventData" where
  "reviewPayload d daysRemaining =
     DelegationReviewRequested \<lparr>rv_DelegationID = d_ID d, rv_TenantID = d_TenantID d, rv_DelegatorID = d_DelegatorID d,
       rv_DelegateID = d_DelegateID d, rv_Scope = d_Scope d, rv_ScopeID = d_ScopeID d,
       rv_DaysRemaining = daysRemaining, rv_ActorID = SystemActorID\<rparr>"

definition warnTx :: "env \<Rightarrow> Delegation \<Rightarrow> int \<Rightarrow> ctx \<Rightarrow> world \<Rightarrow> (error, bool, world) outcome" where
  "warnTx e d daysRemaining txCtx w =
     (case DelegationRepository_MarkReviewWarned e SysPool txCtx (d_TenantID d) (d_ID d) daysRemaining (d_RecordVersion d) w of
        (Inl err, w) \<Rightarrow> if racedError err then (Inr True, w) else (Inl err, w)
      | (Inr _, w) \<Rightarrow>
          bind_res (enqueueEvent e txCtx (d_TenantID d) (d_ID d) (reviewPayload d daysRemaining) ''delegation-review'' w)
            (\<lambda>_ w. (Inr False, w)))"

definition countWarned :: "int \<Rightarrow> JobResult \<Rightarrow> JobResult" where
  "countWarned daysRemaining res =
     (if daysRemaining = 3 then res\<lparr>res_Warned3d := res_Warned3d res + 1\<rparr>
      else if daysRemaining = 2 then res\<lparr>res_Warned2d := res_Warned2d res + 1\<rparr>
      else if daysRemaining = 1 then res\<lparr>res_Warned1d := res_Warned1d res + 1\<rparr>
      else res)"

definition Warn_step :: "env \<Rightarrow> ctx \<Rightarrow> time \<Rightarrow> Delegation \<Rightarrow> JobResult \<times> world \<Rightarrow> JobResult \<times> world" where
  "Warn_step e c now d s =
     (let daysRemaining = computeDaysRemaining (d_ReviewDueAt d) now
      in if daysRemaining < 1 then s
         else if d_ReviewLastWarnedBucket d = Some daysRemaining then s
         else case TxRunner_RunInTx e (WithTenantGUC c (d_TenantID d)) (warnTx e d daysRemaining) (snd s) of
             (Inl _, w) \<Rightarrow> ((fst s)\<lparr>res_Failed := res_Failed (fst s) + 1\<rparr>, w)
           | (Inr raced, w) \<Rightarrow>
               if raced then (fst s, w)
               else (countWarned daysRemaining (fst s), record_metric e (MReviewWarned daysRemaining) w))"

definition endReviewExpired :: "env \<Rightarrow> ctx \<Rightarrow> Delegation \<Rightarrow> world \<Rightarrow> (error, bool, world) outcome" where
  "endReviewExpired e c d =
     TxRunner_RunInTx e (WithTenantGUC c (d_TenantID d)) (endTx e d EndReasonReviewExpired ''delegation-review'')"

definition AutoEnd_step :: "env \<Rightarrow> ctx \<Rightarrow> Delegation \<Rightarrow> JobResult \<times> world \<Rightarrow> JobResult \<times> world" where
  "AutoEnd_step e c d s =
     (case up_ClearDelegatePointer e (d_TenantID d) (d_DelegatorID d) (snd s) of
        (Some _, w) \<Rightarrow> ((fst s)\<lparr>res_Deferred := res_Deferred (fst s) + 1\<rparr>,
                         record_metric e (MUPFailure ''review-cron'') (record_metric e MReviewDeferred w))
      | (None, w) \<Rightarrow>
          (case endReviewExpired e c d w of
             (Inl _, w) \<Rightarrow> ((fst s)\<lparr>res_Failed := res_Failed (fst s) + 1\<rparr>, w)
           | (Inr raced, w) \<Rightarrow>
               if raced then (fst s, w)
               else ((fst s)\<lparr>res_Expired := res_Expired (fst s) + 1\<rparr>,
                     record_metric e (MEnded EndReasonReviewExpired) (record_metric e MReviewExpired w))))"

definition ReviewSweep :: "env \<Rightarrow> JobContext \<Rightarrow> ctx \<Rightarrow> world \<Rightarrow> (error, JobResult, world) outcome" where
  "ReviewSweep e jc c w =
     (let now = clock e (tick w)
      in bind_res (DelegationRepository_FindDueForDailyWarn e SysPool c now (batchLimit jc) w) (\<lambda>targets w.
         (case fold (Warn_step e c now) targets (zeroResult, w) of (res, w) \<Rightarrow>
            bind_res (DelegationRepository_FindDueForAutoEnd e SysPool c now (batchLimit jc) w) (\<lambda>endTargets w.
              (case fold (AutoEnd_step e c) endTargets (res, w) of (res, w) \<Rightarrow> (Inr res, w))))))"

subsection \<open>Cleanup\<close>

definition defaultRetentionDays :: int where "defaultRetentionDays = 90"
definition defaultProcessedEventsTTLDays :: int where "defaultProcessedEventsTTLDays = 30"

definition retentionDays :: "JobContext \<Rightarrow> int" where
  "retentionDays jc = (if jc_RetentionDays jc \<le> 0 then defaultRetentionDays else jc_RetentionDays jc)"

definition ledgerTTLDays :: "JobContext \<Rightarrow> int" where
  "ledgerTTLDays jc = (if jc_ProcessedEventsTTLDays jc \<le> 0 then defaultProcessedEventsTTLDays else jc_ProcessedEventsTTLDays jc)"

definition Cleanup :: "env \<Rightarrow> JobContext \<Rightarrow> ctx \<Rightarrow> world \<Rightarrow> (error, JobResult, world) outcome" where
  "Cleanup e jc c w =
     bind_res (DelegationRepository_HardPurgeSoftDeletedBefore e SysPool c (clock e (tick w) - retentionDays jc * day) (batchLimit jc) w) (\<lambda>purged w.
       (Inr (zeroResult\<lparr>res_Purged := purged\<rparr>),
        if jc_ProcessedEvents jc then snd (ProcessedEventsRepository_Prune e c (ledgerTTLDays jc) (batchLimit jc) w) else w))"

section \<open>Inside a transaction\<close>

lemma joined_pool:
  assumes "c_tx c = Some t"
  shows "DelegationRepository_End e SysPool c = DelegationRepository_End e AppPool c"
    "DelegationRepository_Activate e SysPool c = DelegationRepository_Activate e AppPool c"
    "DelegationRepository_MarkReviewWarned e SysPool c = DelegationRepository_MarkReviewWarned e AppPool c"
proof -
  have "withPool e SysPool c = (withPool e AppPool c :: (tx \<Rightarrow> world \<Rightarrow> (error, 'a, world) outcome) \<Rightarrow> _)"
    using assms by (intro ext) (simp add: withPool_def)
  then show "DelegationRepository_MarkReviewWarned e SysPool c = DelegationRepository_MarkReviewWarned e AppPool c"
    "DelegationRepository_End e SysPool c = DelegationRepository_End e AppPool c"
    "DelegationRepository_Activate e SysPool c = DelegationRepository_Activate e AppPool c"
    using assms
    by (auto intro!: ext simp: DelegationRepository_End_def DelegationRepository_Activate_def
        DelegationRepository_MarkReviewWarned_def withPool_def)
qed

lemma opened_joined: "opened_ctx c c' \<Longrightarrow> \<exists>t. c_tx c' = Some t"
  by (auto simp: opened_ctx_def)

lemma cronEvent_data [simp]: "ev_Data (cronEvent e T i x cron w) = x"
  by (simp add: cronEvent_def)

lemma enqueueEvent_published:
  assumes "enqueueEvent e c T i x cron w = (Inr u, w')" "changed d rows evs (db w)"
  shows "changed d rows (evs @ published (c_publisher c) [x]) (db w')"
  using assms
  by (auto simp: enqueueEvent_def Publisher_EnqueueCtx_def stmt_def changed_def outboxData_def published_def
      split: if_splits option.splits)

lemma enqueueEvent_step: "db_step (db w) (db (snd (enqueueEvent e c T i x cron w)))"
  by (simp add: enqueueEvent_def EnqueueCtx_step step.db_refl)

lemma enqueueEvent_iso: "other_tenants_kept T (db w) (db (snd (enqueueEvent e c T' i x cron w)))"
  by (auto simp: enqueueEvent_def Publisher_EnqueueCtx_def stmt_def other_tenants_kept_def split: option.split)

lemma enqueueEvent_ext: "same_ext w (snd (enqueueEvent e c T i x cron w))"
  by (auto simp: enqueueEvent_def Publisher_EnqueueCtx_def stmt_def same_ext_def split: option.split)

text \<open>A guarded write that reports an error has written nothing, also inside a transaction.\<close>

lemma sql_update_error: "sql_update e t P f w = (Inl err, w') \<Longrightarrow> db w' = db w"
  by (auto simp: sql_update_def stmt_def Let_def split: option.splits if_splits)

lemma sql_update_none:
  assumes "sql_update e t P f w = (Inr [], w')"
  shows "db w' = db w"
proof -
  have "rows_matching (\<lambda>r. rls_visible t (d_TenantID r) \<and> P r) (delegations (db w)) = []"
    using sql_update_ok(1) [OF assms] by simp
  then have "update_rows (\<lambda>r. rls_visible t (d_TenantID r) \<and> P r) g (delegations (db w)) = delegations (db w)" for g
    by (intro update_rows_id) (auto simp: rows_matching_def filter_empty_conv)
  with sql_update_ok(2) [OF assms] show ?thesis by simp
qed

lemma guarded_error_db:
  assumes "withPool e pool c (\<lambda>t w. bind_res (sql_update e t (P t) (f t) w) (k t)) w = (Inl err, w')"
    and "\<And>t d ds w1. \<exists>a. fst (k t (d # ds) w1) = Inr a"
    and "\<And>t w1. db (snd (k t [] w1)) = db w1"
  shows "db w' = db w"
proof (cases "c_tx c")
  case None
  from withPool_error [OF None assms(1)] show ?thesis .
next
  case (Some t)
  with assms(1) obtain err' where b: "bind_res (sql_update e t (P t) (f t) w) (k t) = (Inl err', w')"
    by (auto simp: withPool_def res_iff)
  then consider "sql_update e t (P t) (f t) w = (Inl err', w')"
    | rows w1 where "sql_update e t (P t) (f t) w = (Inr rows, w1)" "k t rows w1 = (Inl err', w')"
    unfolding res_iff by auto
  then show ?thesis
  proof cases
    case 1
    then show ?thesis by (rule sql_update_error)
  next
    case (2 rows w1)
    have "rows = []" using 2(2) assms(2) [of t] by (cases rows) (metis fst_conv sum.distinct(1))+
    with 2 sql_update_none [of e t "P t" "f t" w w1] assms(3) [of t w1] show ?thesis by simp
  qed
qed

lemma End_error_db: "DelegationRepository_End e pool c T i st v w = (Inl err, w') \<Longrightarrow> db w' = db w"
  unfolding DelegationRepository_End_def by (erule guarded_error_db) auto

lemma MarkReviewWarned_error_db: "DelegationRepository_MarkReviewWarned e pool c T i b v w = (Inl err, w') \<Longrightarrow> db w' = db w"
  unfolding DelegationRepository_MarkReviewWarned_def by (erule guarded_error_db) auto

lemma Activate_none_db:
  assumes "DelegationRepository_Activate e pool c T i v w = (Inr None, w')"
  shows "db w' = db w"
proof -
  from assms obtain t :: tx and w0 w1 where t: "db w0 = db w" "db w' = db w1"
    and b: "bind_res (sql_update e t (\<lambda>r. liveRow T i r \<and> d_RecordVersion r = v \<and> d_Status r = DelegationScheduled)
           (\<lambda>r. r\<lparr>d_Status := DelegationActive\<rparr>) w0)
         (\<lambda>rows w. case rows of [] \<Rightarrow> (Inr None, w) | d # _ \<Rightarrow> (Inr (Some d), w)) = (Inr None, w1)"
    unfolding DelegationRepository_Activate_def by (rule withPool_ok)
  from b obtain rows w2 where u: "sql_update e t (\<lambda>r. liveRow T i r \<and> d_RecordVersion r = v \<and> d_Status r = DelegationScheduled)
           (\<lambda>r. r\<lparr>d_Status := DelegationActive\<rparr>) w0 = (Inr rows, w2)"
    and k: "(case rows of [] \<Rightarrow> (Inr None, w2) | d # _ \<Rightarrow> (Inr (Some d), w2)) = ((Inr None, w1) :: (error, Delegation option, world) outcome)"
    unfolding bind_res_Inr_iff by blast
  from k u t show ?thesis by (cases rows) (auto dest: sql_update_none)
qed

lemma same_live_row:
  assumes "db_inv (db w)" "d \<in> set (delegations (db w))" "r \<in> set (delegations (db w))" "d_ID r = d_ID d"
  shows "r = d"
  using assms by (auto simp: db_inv_def dest: distinct_key_eq)

lemma wrote_published:
  assumes "wrote_row (db w) (db w1) r r'" "enqueueEvent e c T i x cron w1 = (Inr u, w')"
  shows "changed (db w) (replace_row r' (delegations (db w))) (published (c_publisher c) [x]) (db w')"
  using enqueueEvent_published [OF assms(2) wrote_row_changed [OF assms(1)]] by simp

lemma endTx_ok:
  assumes inv: "db_inv (db w)" "d \<in> set (delegations (db w))"
    and run: "endTx e d reason cron c w = (Inr raced, w')"
  shows "raced \<Longrightarrow> db w' = db w"
    and "\<not> raced \<Longrightarrow> \<exists>now. changed (db w) (replace_row (endedRow now d) (delegations (db w)))
           (published (c_publisher c) [endedPayload (d_TenantID d) d reason SystemActorID]) (db w')"
proof -
  obtain r w1 where en: "DelegationRepository_End e SysPool c (d_TenantID d) (d_ID d) DelegationEnded (d_RecordVersion d) w = (r, w1)"
    by force
  show "db w' = db w" if raced
    using that run en End_error_db [of e SysPool c "d_TenantID d" "d_ID d" DelegationEnded "d_RecordVersion d" w _ w1]
    by (auto simp: endTx_def res_iff split: sum.splits if_splits)
  assume nr: "\<not> raced"
  with run en obtain out x where r: "r = Inr out" and ev: "enqueueEvent e c (d_TenantID d) (d_ID d)
      (endedPayload (d_TenantID d) d reason SystemActorID) cron w1 = (Inr x, w')"
    by (auto simp: endTx_def res_iff split: sum.splits if_splits)
  obtain t :: tx and r0 where r0: "liveRow (d_TenantID d) (d_ID d) r0" "openStatus (d_Status r0)"
    "out = touch_row (tx_now t) r0 (r0\<lparr>d_Status := DelegationEnded\<rparr>)" "wrote_row (db w) (db w1) r0 out"
    by (rule End_ok [OF inv(1) en [unfolded r]]) (rule that)
  have "r0 = d" using same_live_row [OF inv] r0 by (simp add: wrote_row_def liveRow_def)
  then have "out = endedRow (tx_now t) d" using r0 by (simp add: touch_close endedRow_def)
  with wrote_published [OF r0(4) ev]
  show "\<exists>now. changed (db w) (replace_row (endedRow now d) (delegations (db w)))
           (published (c_publisher c) [endedPayload (d_TenantID d) d reason SystemActorID]) (db w')" by blast
qed

definition activatedRow :: "time \<Rightarrow> Delegation \<Rightarrow> Delegation" where
  "activatedRow now r = stamped now (r\<lparr>d_Status := DelegationActive\<rparr>)"

lemma activateTx_ok:
  assumes inv: "db_inv (db w)" "d \<in> set (delegations (db w))"
    and run: "activateTx e d c w = (Inr raced, w')"
  shows "raced \<Longrightarrow> db w' = db w"
    and "\<not> raced \<Longrightarrow> \<exists>now. changed (db w) (replace_row (activatedRow now d) (delegations (db w)))
           (published (c_publisher c) [startedPayload (d_TenantID d) d SystemActorID]) (db w')"
proof -
  from run obtain act w1 where en: "DelegationRepository_Activate e SysPool c (d_TenantID d) (d_ID d) (d_RecordVersion d) w = (Inr act, w1)"
    and k: "(case act of None \<Rightarrow> (Inr True, w1)
       | Some _ \<Rightarrow> bind_res (enqueueEvent e c (d_TenantID d) (d_ID d) (startedPayload (d_TenantID d) d SystemActorID)
               ''delegation-activation'' w1) (\<lambda>_ w. (Inr False, w))) = ((Inr raced, w') :: (error, bool, world) outcome)"
    unfolding activateTx_def bind_res_Inr_iff by blast
  show "db w' = db w" if raced
    using that k en Activate_none_db by (cases act) (auto simp: res_iff)
  assume nr: "\<not> raced"
  with k obtain out x where act: "act = Some out" and ev: "enqueueEvent e c (d_TenantID d) (d_ID d)
      (startedPayload (d_TenantID d) d SystemActorID) ''delegation-activation'' w1 = (Inr x, w')"
    by (cases act) (auto simp: res_iff)
  obtain t :: tx and r0 where r0: "liveRow (d_TenantID d) (d_ID d) r0" "d_Status r0 = DelegationScheduled"
    "out = touch_row (tx_now t) r0 (r0\<lparr>d_Status := DelegationActive\<rparr>)" "wrote_row (db w) (db w1) r0 out"
    by (rule Activate_ok [OF inv(1) en [unfolded act]]) (rule that)
  have "r0 = d" using same_live_row [OF inv] r0 by (simp add: wrote_row_def liveRow_def)
  then have "out = activatedRow (tx_now t) d" using r0 by (simp add: touch_status activatedRow_def)
  with wrote_published [OF r0(4) ev]
  show "\<exists>now. changed (db w) (replace_row (activatedRow now d) (delegations (db w)))
           (published (c_publisher c) [startedPayload (d_TenantID d) d SystemActorID]) (db w')" by blast
qed

definition warnedRow :: "int \<Rightarrow> time \<Rightarrow> Delegation \<Rightarrow> Delegation" where
  "warnedRow b now r = touch_row now r (r\<lparr>d_ReviewLastWarnedBucket := Some b\<rparr>)"

lemma warnTx_ok:
  assumes inv: "db_inv (db w)" "d \<in> set (delegations (db w))"
    and run: "warnTx e d b c w = (Inr raced, w')"
  shows "raced \<Longrightarrow> db w' = db w"
    and "\<not> raced \<Longrightarrow> \<exists>now. changed (db w) (replace_row (warnedRow b now d) (delegations (db w)))
           (published (c_publisher c) [reviewPayload d b]) (db w')"
proof -
  obtain r w1 where en: "DelegationRepository_MarkReviewWarned e SysPool c (d_TenantID d) (d_ID d) b (d_RecordVersion d) w = (r, w1)"
    by force
  show "db w' = db w" if raced
    using that run en MarkReviewWarned_error_db [of e SysPool c "d_TenantID d" "d_ID d" b "d_RecordVersion d" w _ w1]
    by (auto simp: warnTx_def res_iff split: sum.splits if_splits)
  assume nr: "\<not> raced"
  with run en obtain x where r: "r = Inr ()" and ev: "enqueueEvent e c (d_TenantID d) (d_ID d)
      (reviewPayload d b) ''delegation-review'' w1 = (Inr x, w')"
    by (auto simp: warnTx_def res_iff split: sum.splits if_splits)
  obtain t :: tx and r0 where r0: "liveRow (d_TenantID d) (d_ID d) r0"
    "wrote_row (db w) (db w1) r0 (touch_row (tx_now t) r0 (r0\<lparr>d_ReviewLastWarnedBucket := Some b\<rparr>))"
    by (rule MarkReviewWarned_ok [OF inv(1) en [unfolded r]]) (rule that)
  have "r0 = d" using same_live_row [OF inv] r0 by (simp add: wrote_row_def liveRow_def)
  with wrote_published [OF r0(2) ev]
  show "\<exists>now. changed (db w) (replace_row (warnedRow b now d) (delegations (db w)))
           (published (c_publisher c) [reviewPayload d b]) (db w')" by (auto simp: warnedRow_def)
qed

section \<open>Frames\<close>

text \<open>A repository frame that the jobs' own outbox writes respect too.\<close>

locale job_frame = repo_frame +
  assumes r_enqueueEvent: "okc c \<Longrightarrow> R (db w) (db (snd (enqueueEvent e c T i x cron w)))"
begin

lemma frame_endTx:
  assumes "okc c" "c_tx c = Some t"
  shows "R (db w) (db (snd (endTx e d reason cron c w)))"
proof -
  obtain r w1 where en: "DelegationRepository_End e SysPool c (d_TenantID d) (d_ID d) DelegationEnded (d_RecordVersion d) w = (r, w1)"
    by force
  have w1: "R (db w) (db w1)"
    using r_End [OF assms(1), of DelegationEnded w e "d_TenantID d" "d_ID d" "d_RecordVersion d"] en
    by (simp add: joined_pool [OF assms(2)])
  have "R (db w1) (db (snd (bind_res (enqueueEvent e c (d_TenantID d) (d_ID d) (endedPayload (d_TenantID d) d reason SystemActorID) cron w1)
      (\<lambda>_ w. (Inr False, w) :: (error, bool, world) outcome))))"
    by (intro w.frame_bind r_enqueueEvent assms) (simp add: db_refl)
  with w1 show ?thesis by (auto simp: endTx_def en split: sum.split intro: db_trans)
qed

lemma frame_activateTx:
  assumes "okc c" "c_tx c = Some t"
  shows "R (db w) (db (snd (activateTx e d c w)))"
  unfolding activateTx_def joined_pool [OF assms(2)]
  by (intro w.frame_bind r_Activate assms)
     (auto split: option.split intro!: w.frame_bind r_enqueueEvent assms simp: db_refl)

lemma frame_warnTx:
  assumes "okc c" "c_tx c = Some t"
  shows "R (db w) (db (snd (warnTx e d b c w)))"
proof -
  obtain r w1 where en: "DelegationRepository_MarkReviewWarned e SysPool c (d_TenantID d) (d_ID d) b (d_RecordVersion d) w = (r, w1)"
    by force
  have w1: "R (db w) (db w1)"
    using r_MarkReviewWarned [OF assms(1), of w e "d_TenantID d" "d_ID d" b "d_RecordVersion d"] en
    by (simp add: joined_pool [OF assms(2)])
  have "R (db w1) (db (snd (bind_res (enqueueEvent e c (d_TenantID d) (d_ID d) (reviewPayload d b) ''delegation-review'' w1)
      (\<lambda>_ w. (Inr False, w) :: (error, bool, world) outcome))))"
    by (intro w.frame_bind r_enqueueEvent assms) (simp add: db_refl)
  with w1 show ?thesis by (auto simp: warnTx_def en split: sum.split intro: db_trans)
qed

end

text \<open>What the three sweeping jobs need of a relation on top of the services: their own transaction bodies.\<close>

locale sweeper_frame = cascade_frame +
  assumes b_endTx: "okc c \<Longrightarrow> c_tx c = Some t \<Longrightarrow> R (db w) (db (snd (endTx e d reason cron c w)))"
    and b_activateTx: "okc c \<Longrightarrow> c_tx c = Some t \<Longrightarrow> R (db w) (db (snd (activateTx e d c w)))"
    and b_warnTx: "okc c \<Longrightarrow> c_tx c = Some t \<Longrightarrow> R (db w) (db (snd (warnTx e d b c w)))"
begin

lemma frame_end:
  assumes "okc (WithTenantGUC c (d_TenantID d))"
    and "TxRunner_RunInTx e (WithTenantGUC c (d_TenantID d)) (endTx e d reason cron) w = (r, w')"
  shows "R (db w) (db w')"
  using frame_body [where f = "endTx e d reason cron" and c = "WithTenantGUC c (d_TenantID d)" and e = e and w = w] b_endTx assms
  by simp

lemma frame_Expiry_step:
  "okc (WithTenantGUC c (d_TenantID d)) \<Longrightarrow> R (db (snd s)) (db (snd (Expiry_step e c d s)))"
  by (auto simp: Expiry_step_def endExpired_def Let_def db_refl up_ClearDelegatePointer_def
      split: prod.split option.split sum.split dest!: frame_end)

lemma frame_AutoEnd_step:
  "okc (WithTenantGUC c (d_TenantID d)) \<Longrightarrow> R (db (snd s)) (db (snd (AutoEnd_step e c d s)))"
  by (auto simp: AutoEnd_step_def endReviewExpired_def Let_def db_refl up_ClearDelegatePointer_def
      split: prod.split option.split sum.split dest!: frame_end)

lemma frame_Activation_step:
  assumes "okc (WithTenantGUC c (d_TenantID d))"
  shows "R (db (snd s)) (db (snd (Activation_step e c d s)))"
proof -
  have "R (db w) (db (snd (activateScheduled e c d w)))" for w
    unfolding activateScheduled_def by (rule frame_body [OF assms]) (rule b_activateTx)
  then have tx: "R (db w) (db w')" if "activateScheduled e c d w = (r, w')" for w w' r
    using that by (metis snd_conv)
  show ?thesis
    by (auto simp: Activation_step_def Let_def db_refl up_SetAvailability_def split: prod.split option.split sum.split dest: tx)
qed

lemma frame_Warn_step:
  assumes "okc (WithTenantGUC c (d_TenantID d))"
  shows "R (db (snd s)) (db (snd (Warn_step e c now d s)))"
proof -
  have tx: "R (db w) (db w')" if "TxRunner_RunInTx e (WithTenantGUC c (d_TenantID d)) (warnTx e d b) w = (r, w')" for w w' r b
    using frame_body [where f = "warnTx e d b" and c = "WithTenantGUC c (d_TenantID d)" and e = e and w = w] b_warnTx assms that
    by simp
  show ?thesis
    by (auto simp: Warn_step_def Let_def db_refl split: prod.split sum.split dest: tx)
qed

lemma frame_job_fold:
  assumes "\<And>d s. R (db (snd s)) (db (snd (f d s)))"
  shows "R (db (snd s)) (db (snd (fold f ds s)))"
proof (induction ds arbitrary: s)
  case Nil
  show ?case by (simp add: db_refl)
next
  case (Cons d ds)
  with assms [of s d] db_trans show ?case by (metis fold_simps(2))
qed

lemma frame_jobs:
  assumes "\<And>T. okc (WithTenantGUC c T)"
  shows "R (db w) (db (snd (Expiry e jc c w)))" "R (db w) (db (snd (Activation e jc c w)))" "R (db w) (db (snd (ReviewSweep e jc c w)))"
proof -
  have f: "fold f ds (r, w1) = (r', w2) \<Longrightarrow> R (db w1) (db w2)"
    if "\<And>d s. R (db (snd s)) (db (snd (f d s)))" for f :: "Delegation \<Rightarrow> JobResult \<times> world \<Rightarrow> JobResult \<times> world" and ds r r' w1 w2
    using frame_job_fold [where f = f and s = "(r, w1)" and ds = ds] that by simp
  show "R (db w) (db (snd (Expiry e jc c w)))" unfolding Expiry_def DelegationRepository_ListExpiringBefore_def
    by (intro w.frame_bind) (auto simp: db_refl split: prod.split intro: f frame_Expiry_step assms)
  show "R (db w) (db (snd (Activation e jc c w)))" unfolding Activation_def DelegationRepository_ListScheduledBefore_def
    by (intro w.frame_bind) (auto simp: db_refl split: prod.split intro: f frame_Activation_step assms)
  have e: "R (db w1) (db (snd (bind_res (DelegationRepository_FindDueForAutoEnd e SysPool c now n w1) (\<lambda>endTargets w.
              (case fold (AutoEnd_step e c) endTargets (res, w) of (res, w) \<Rightarrow> (Inr res, w))))))" for w1 now n res
    unfolding DelegationRepository_FindDueForAutoEnd_def
    by (intro w.frame_bind) (auto simp: db_refl split: prod.split intro: f frame_AutoEnd_step assms)
  show "R (db w) (db (snd (ReviewSweep e jc c w)))" unfolding ReviewSweep_def Let_def DelegationRepository_FindDueForDailyWarn_def
    by (intro w.frame_bind)
       (auto simp: db_refl split: prod.split intro!: db_trans [OF f [OF frame_Warn_step [OF assms]] e])
qed

end

sublocale job_frame \<subseteq> sweeper_frame R okc okg
  by unfold_locales (auto intro: frame_endTx frame_activateTx frame_warnTx)

interpretation jstep: job_frame db_step "\<lambda>_. True" "\<lambda>_ _. True"
  by unfold_locales (rule enqueueEvent_step)

interpretation jiso: job_frame "other_tenants_kept T" "tenant_ctx T" "\<lambda>_ _. True" for T
  by unfold_locales (rule enqueueEvent_iso)

section \<open>What a pass over a batch does\<close>

text \<open>
  The rows in \<open>hit\<close> are rewritten by \<open>upd\<close> (each at the time of its own transaction), one event
  per row goes to the outbox in the same order, and nothing else changes.
\<close>

definition swept :: "(time \<Rightarrow> Delegation \<Rightarrow> Delegation) \<Rightarrow> (Delegation \<Rightarrow> EventData) \<Rightarrow> bool \<Rightarrow> Delegation list \<Rightarrow> db \<Rightarrow> db \<Rightarrow> bool" where
  "swept upd pay pub hit d d' \<longleftrightarrow>
     (\<exists>at. changed d (update_rows (\<lambda>r. r \<in> set hit) (\<lambda>r. upd (at r) r) (delegations d)) (published pub (map pay hit)) d')"

lemma swept_none: "db w' = db w \<Longrightarrow> swept upd pay pub [] (db w) (db w')"
  by (simp add: swept_def changed_def outboxData_def update_rows_def)

lemma swept_snoc:
  assumes "swept upd pay pub hit d d1" "changed d1 (replace_row (upd t x) (delegations d1)) (published pub [pay x]) d2"
    and ids: "distinct (map d_ID (delegations d))" "set hit \<subseteq> set (delegations d)" "x \<in> set (delegations d)" "x \<notin> set hit"
    and upd: "\<And>t r. d_ID (upd t r) = d_ID r"
  shows "swept upd pay pub (hit @ [x]) d d2"
proof -
  from assms(1) obtain at where
    d1: "changed d (update_rows (\<lambda>r. r \<in> set hit) (\<lambda>r. upd (at r) r) (delegations d)) (published pub (map pay hit)) d1"
    by (auto simp: swept_def)
  have "r = x" if "r \<in> set (delegations d)" "d_ID r = d_ID x" for r
    using distinct_key_eq [OF ids(1,3)] that by blast
  then have "replace_row (upd t x) (delegations d1)
      = update_rows (\<lambda>r. r \<in> set (hit @ [x])) (\<lambda>r. upd ((at(x := t)) r) r) (delegations d)"
    using d1 ids upd by (auto simp: changed_def replace_row_def update_rows_def)
  with changed_trans [OF d1 assms(2)] have "changed d (update_rows (\<lambda>r. r \<in> set (hit @ [x])) (\<lambda>r. upd ((at(x := t)) r) r) (delegations d))
      (published pub (map pay (hit @ [x]))) d2" by simp
  then show ?thesis unfolding swept_def by blast
qed

lemma swept_keeps:
  assumes "swept upd pay pub hit d d1" "x \<in> set (delegations d)" "x \<notin> set hit"
  shows "x \<in> set (delegations d1)"
  using assms by (auto simp: swept_def changed_def set_update_rows)

text \<open>
  The contract of one pass's body: on a target that is still in the table it either changes
  nothing, or rewrites the row, publishes its event and counts it, after the calls \<open>call\<close> to
  User Profile; and when nothing outside fails (\<open>good\<close>) it does the latter.
\<close>

locale sweep =
  fixes okd :: "Delegation \<Rightarrow> bool"
    and step :: "Delegation \<Rightarrow> JobResult \<times> world \<Rightarrow> JobResult \<times> world"
    and upd :: "time \<Rightarrow> Delegation \<Rightarrow> Delegation"
    and pay :: "Delegation \<Rightarrow> EventData"
    and pub :: bool
    and cnt :: "JobResult \<Rightarrow> int"
    and call :: "Delegation \<Rightarrow> UPCall list"
    and good :: bool
  assumes upd_ID: "d_ID (upd t d) = d_ID d"
    and step_inv: "db_inv (db w) \<Longrightarrow> db_inv (db (snd (step d (r, w))))"
    and step_cases: "db_inv (db w) \<Longrightarrow> d \<in> set (delegations (db w)) \<Longrightarrow> okd d \<Longrightarrow> step d (r, w) = (r', w') \<Longrightarrow>
      (db w' = db w \<and> cnt r' = cnt r \<and> prefix (up_log w) (up_log w'))
      \<or> (\<exists>t. changed (db w) (replace_row (upd t d) (delegations (db w))) (published pub [pay d]) (db w') \<and> cnt r' = cnt r + 1
            \<and> up_log w' = up_log w @ call d)"
    and step_live: "good \<Longrightarrow> db_inv (db w) \<Longrightarrow> d \<in> set (delegations (db w)) \<Longrightarrow> okd d \<Longrightarrow>
      cnt (fst (step d (r, w))) = cnt r + 1"
begin

lemma sweep_from:
  assumes "fold step targets (r1, w1) = (r', w')" "db_inv d" "db_inv (db w1)" "distinct (map d_ID (hit @ targets))"
    and "set (hit @ targets) \<subseteq> set (delegations d)" "\<forall>x \<in> set targets. okd x"
    and "swept upd pay pub hit d (db w1)"
  shows "\<exists>more. subseq more targets \<and> swept upd pay pub (hit @ more) d (db w')
    \<and> cnt r' = cnt r1 + int (length more) \<and> (good \<longrightarrow> more = targets)
    \<and> (\<exists>calls. up_log w' = up_log w1 @ calls \<and> (\<forall>x \<in> set more. set (call x) \<subseteq> set calls))"
  using assms
proof (induction targets arbitrary: r1 w1 hit)
  case Nil
  then show ?case by (intro exI [of _ "[]"]) simp
next
  case (Cons x xs)
  obtain r2 w2 where s: "step x (r1, w1) = (r2, w2)" by force
  with Cons.prems(1) have rest: "fold step xs (r2, w2) = (r', w')" by simp
  have inv2: "db_inv (db w2)" using step_inv [OF Cons.prems(3), of x r1] s by simp
  have fresh: "x \<notin> set hit" using Cons.prems(4) by auto
  have x: "x \<in> set (delegations (db w1))" "okd x" "x \<in> set (delegations d)"
    using swept_keeps [OF Cons.prems(7) _ fresh] Cons.prems(5,6) by auto
  from step_cases [OF Cons.prems(3) x(1,2) s] show ?case
  proof
    assume no: "db w2 = db w1 \<and> cnt r2 = cnt r1 \<and> prefix (up_log w1) (up_log w2)"
    then have "\<not> good" using step_live [OF _ Cons.prems(3) x(1,2), of r1] s by auto
    moreover from Cons.IH [OF rest Cons.prems(2) inv2, of hit] Cons.prems no obtain more where
      "subseq more xs" "swept upd pay pub (hit @ more) d (db w')" "cnt r' = cnt r2 + int (length more)"
      "\<exists>calls. up_log w' = up_log w2 @ calls \<and> (\<forall>x \<in> set more. set (call x) \<subseteq> set calls)" by auto
    ultimately show ?thesis using no by (intro exI [of _ more]) (fastforce simp: prefix_def)
  next
    assume "\<exists>t. changed (db w1) (replace_row (upd t x) (delegations (db w1))) (published pub [pay x]) (db w2) \<and> cnt r2 = cnt r1 + 1
       \<and> up_log w2 = up_log w1 @ call x"
    then obtain t where t: "changed (db w1) (replace_row (upd t x) (delegations (db w1))) (published pub [pay x]) (db w2)"
      "cnt r2 = cnt r1 + 1" "up_log w2 = up_log w1 @ call x"
      by blast
    have "distinct (map d_ID (delegations d))" using Cons.prems(2) by (simp add: db_inv_def)
    from swept_snoc [OF Cons.prems(7) t(1) this _ x(3) fresh upd_ID] Cons.prems(5)
    have "swept upd pay pub (hit @ [x]) d (db w2)" by simp
    with Cons.IH [OF rest Cons.prems(2) inv2, of "hit @ [x]"] Cons.prems obtain more where
      "subseq more xs" "swept upd pay pub ((hit @ [x]) @ more) d (db w')" "cnt r' = cnt r2 + int (length more)"
      "good \<longrightarrow> more = xs"
      "\<exists>calls. up_log w' = up_log w2 @ calls \<and> (\<forall>x \<in> set more. set (call x) \<subseteq> set calls)" by auto
    with t(2,3) show ?thesis by (intro exI [of _ "x # more"]) (fastforce simp: subset_iff)
  qed
qed

lemma sweep:
  assumes "fold step targets (r, w) = (r', w')" "db_inv (db w)" "distinct (map d_ID targets)"
    and "set targets \<subseteq> set (delegations (db w))" "\<forall>x \<in> set targets. okd x"
  obtains hit where "subseq hit targets" "swept upd pay pub hit (db w) (db w')" "cnt r' = cnt r + int (length hit)"
    "good \<Longrightarrow> hit = targets" "\<exists>calls. up_log w' = up_log w @ calls \<and> (\<forall>x \<in> set hit. set (call x) \<subseteq> set calls)"
  using sweep_from [of targets r w r' w' "db w" "[]"] assms by (auto simp: swept_none)

end

section \<open>When nothing outside fails\<close>

definition all_up :: "env \<Rightarrow> bool" where
  "all_up e \<longleftrightarrow> no_faults e \<and> (\<forall>n T u. clearDelegatePointer e n T u = None)
     \<and> (\<forall>n req. setAvailability e n req = None) \<and> (\<forall>ev. schema_valid e ev)"

lemma RunInTx_no_faults:
  assumes "no_faults e" "c_tx c = None" "\<And>c' w1. opened_ctx c c' \<Longrightarrow> db w1 = db w \<Longrightarrow> fst (f c' w1) = Inr a"
  shows "fst (TxRunner_RunInTx e c f w) = Inr a"
proof -
  let ?t = "\<lparr>tx_pool = AppPool, tx_guc = c_guc c, tx_now = pg_clock e (tick w)\<rparr>"
  let ?c = "if hasPublisher e then c\<lparr>c_tx := Some ?t, c_publisher := True\<rparr> else c\<lparr>c_tx := Some ?t\<rparr>"
  have "opened_ctx c ?c" using assms(2) by (simp add: opened_ctx_def)
  from assms(3) [OF this, of "bump w"] obtain w1 where "f ?c (bump w) = (Inr a, w1)"
    by (metis bump_simps(1) prod.collapse)
  with assms(1,2) show ?thesis
    by (simp add: TxRunner_RunInTx_def writeRetryMaxAttempts_def numeral_3_eq_3 run_tx_def no_faults_def Let_def)
qed

lemma enqueueEvent_up:
  "all_up e \<Longrightarrow> c_tx c = Some t \<Longrightarrow> fst (enqueueEvent e c T i x cron w) = Inr ()"
  by (simp add: all_up_def enqueueEvent_def Publisher_EnqueueCtx_def)

lemma opened_tenant:
  assumes "opened_ctx (WithTenantGUC c T) c'" "c_tx c = None"
  obtains t where "c_tx c' = Some t" "rls_visible t T"
  using assms by (auto simp: opened_ctx_def WithTenantGUC_def rls_visible_def)

lemma joined_write:
  assumes "no_faults e" "c_tx c = Some t" "rls_visible t T" "db_inv (db w)" "d \<in> set (delegations (db w))" "liveRow T i d" "Q d"
    and "\<And>x w1. k t [x] w1 = (Inr (g x), w1)" "delegationRowOK (touch_row (tx_now t) d (f d))"
  shows "fst (withPool e pool c (\<lambda>t w. bind_res (sql_update e t (\<lambda>r. liveRow T i r \<and> Q r) f w) (k t)) w)
     = Inr (g (touch_row (tx_now t) d (f d)))"
proof -
  have l: "ledger T (db w) i = Some d" by (rule ledger_Some) fact+
  have "fst (bind_res (sql_update e t (\<lambda>r. liveRow T i r \<and> Q r) f w) (k t)) = Inr (g (touch_row (tx_now t) d (f d)))"
    using guarded_update_ledger [OF assms(1,4,3), of "k t" g i Q f] assms(7-9) l by simp
  then show ?thesis using assms(2) by (auto simp: withPool_def wrap_out_def split: prod.split sum.split)
qed

lemma rows_OK: "db_inv d \<Longrightarrow> r \<in> set (delegations d) \<Longrightarrow> delegationRowOK r"
  by (simp add: db_inv_def list_all_iff)

lemma endTx_up:
  assumes up: "all_up e" and c: "c_tx c = Some t" "rls_visible t (d_TenantID d)"
    and d: "db_inv (db w)" "d \<in> set (delegations (db w))" "openStatus (d_Status d)" "d_DeletedAt d = None"
  shows "fst (endTx e d reason cron c w) = Inr False"
proof -
  have "fst (DelegationRepository_End e SysPool c (d_TenantID d) (d_ID d) DelegationEnded (d_RecordVersion d) w)
      = Inr (touch_row (tx_now t) d (d\<lparr>d_Status := DelegationEnded\<rparr>))"
    unfolding DelegationRepository_End_def
    by (rule joined_write [where g = "\<lambda>x. x"])
       (use assms in \<open>auto simp: all_up_def liveRow_def intro!: rowOK_status rows_OK [OF d(1,2)]\<close>)
  then show ?thesis using enqueueEvent_up [OF up c(1)]
    by (auto simp: endTx_def fst_bind_res split: prod.split sum.split) (metis fst_conv sum.distinct(1))+
qed

lemma activateTx_up:
  assumes up: "all_up e" and c: "c_tx c = Some t" "rls_visible t (d_TenantID d)"
    and d: "db_inv (db w)" "d \<in> set (delegations (db w))" "d_Status d = DelegationScheduled" "d_DeletedAt d = None"
  shows "fst (activateTx e d c w) = Inr False"
proof -
  have "fst (DelegationRepository_Activate e SysPool c (d_TenantID d) (d_ID d) (d_RecordVersion d) w)
      = Inr (Some (touch_row (tx_now t) d (d\<lparr>d_Status := DelegationActive\<rparr>)))"
    unfolding DelegationRepository_Activate_def
    by (rule joined_write [where g = Some])
       (use assms in \<open>auto simp: all_up_def liveRow_def intro!: rowOK_status rows_OK [OF d(1,2)]\<close>)
  then show ?thesis using enqueueEvent_up [OF up c(1)]
    by (auto simp: activateTx_def fst_bind_res split: prod.split sum.split option.split) (metis fst_conv sum.distinct(1))+
qed

lemma warnTx_up:
  assumes up: "all_up e" and c: "c_tx c = Some t" "rls_visible t (d_TenantID d)"
    and d: "db_inv (db w)" "d \<in> set (delegations (db w))" "d_Status d = DelegationActive" "d_DeletedAt d = None"
    and b: "1 \<le> b" "b \<le> 3"
  shows "fst (warnTx e d b c w) = Inr False"
proof -
  have "legal_change d (d\<lparr>d_ReviewLastWarnedBucket := Some b\<rparr>)"
    using d by (simp add: legal_change_def same_grant_def legal_status_change_def)
  then have ok: "delegationRowOK (touch_row (tx_now t) d (d\<lparr>d_ReviewLastWarnedBucket := Some b\<rparr>))"
    using b d(3) rowOK_ranges(2) [OF rows_OK [OF d(1,2)]] by (intro rowOK_touch rows_OK [OF d(1,2)]) auto
  have "fst (DelegationRepository_MarkReviewWarned e SysPool c (d_TenantID d) (d_ID d) b (d_RecordVersion d) w) = Inr ()"
    unfolding DelegationRepository_MarkReviewWarned_def
    by (rule joined_write [where g = "\<lambda>_. ()"]) (use assms ok in \<open>auto simp: all_up_def liveRow_def\<close>)
  then show ?thesis using enqueueEvent_up [OF up c(1)]
    by (auto simp: warnTx_def fst_bind_res split: prod.split sum.split) (metis fst_conv sum.distinct(1))+
qed

section \<open>The four passes\<close>

lemma job_tx:
  assumes "c_tx c = None" "TxRunner_RunInTx e (WithTenantGUC c T) f w = (res, w')"
    and "\<And>c' w1 w2. db w1 = db w \<Longrightarrow> f c' w1 = (Inr True, w2) \<Longrightarrow> db w2 = db w"
    and "\<And>c' w1 w2. db w1 = db w \<Longrightarrow> f c' w1 = (Inr False, w2) \<Longrightarrow> \<exists>now. Q now (c_publisher c') (db w2)"
  shows "if res = Inr False then \<exists>now. Q now (hasPublisher e \<or> c_publisher c) (db w') else db w' = db w"
proof (cases res)
  case (Inl err)
  with assms(1,2) show ?thesis by (auto simp: WithTenantGUC_def dest: RunInTx_error [rotated])
next
  case (Inr raced)
  obtain c' w0 w1 where c': "c_publisher c' = (hasPublisher e \<or> c_publisher (WithTenantGUC c T))" "db w0 = db w"
    "f c' w0 = (Inr raced, w1)" "db w' = db w1"
    by (rule RunInTx_ok_any [OF assms(2) [unfolded Inr]]) (rule that)
  have "c_publisher c' = (hasPublisher e \<or> c_publisher c)" using c'(1) by (simp add: WithTenantGUC_def)
  with assms(3,4) [OF c'(2)] c'(3,4) Inr show ?thesis by (cases raced) (simp, metis)+
qed

lemma job_ext:
  "same_ext w (snd (endTx e d reason cron c w))" "same_ext w (snd (activateTx e d c w))" "same_ext w (snd (warnTx e d b c w))"
proof -
  have p: "same_ext w1 (snd p) \<Longrightarrow> p = (r, w2) \<Longrightarrow> same_ext w1 w2" for w1 w2 :: world and p and r :: "error + 'x" by simp
  show "same_ext w (snd (activateTx e d c w))"
    unfolding activateTx_def by (intro ext.frame_bind) (auto split: option.split intro!: ext.frame_bind enqueueEvent_ext)
  have q: "same_ext w1 (snd (bind_res (enqueueEvent e c (d_TenantID d) (d_ID d) x cron w1) (\<lambda>_ w. (Inr False, w) :: (error, bool, world) outcome)))"
    for w1 x cron
    by (intro ext.frame_bind enqueueEvent_ext) simp
  show "same_ext w (snd (endTx e d reason cron c w))"
    using p [OF repository_ext(4)] q ext.frame_trans by (auto simp: endTx_def split: prod.split sum.split) blast+
  show "same_ext w (snd (warnTx e d b c w))"
    using p [OF repository_ext(6)] q ext.frame_trans by (auto simp: warnTx_def split: prod.split sum.split) blast+
qed

lemma job_run_log:
  assumes "TxRunner_RunInTx e c f w = (r, w')" "\<And>c' w1. same_ext w1 (snd (f c' w1))"
  shows "up_log w' = up_log w"
  using ext.frame_RunInTx [of c f w e] assms by (simp add: same_ext_def)

lemmas end_run_log = job_run_log [OF _ job_ext(1)]
lemma activate_run_log: "activateScheduled e c d w = (r, w') \<Longrightarrow> up_log w' = up_log w"
  unfolding activateScheduled_def by (rule job_run_log [OF _ job_ext(2)])

lemmas warn_run_log = job_run_log [OF _ job_ext(3)]

abbreviation jobPub :: "env \<Rightarrow> ctx \<Rightarrow> bool" where "jobPub e c \<equiv> hasPublisher e \<or> c_publisher c"

lemma end_run:
  assumes "c_tx c = None" "db_inv (db w)" "d \<in> set (delegations (db w))"
    and "TxRunner_RunInTx e (WithTenantGUC c (d_TenantID d)) (endTx e d reason cron) w = (res, w')"
  shows "if res = Inr False
    then \<exists>now. changed (db w) (replace_row (endedRow now d) (delegations (db w)))
           (published (jobPub e c) [endedPayload (d_TenantID d) d reason SystemActorID]) (db w')
    else db w' = db w"
  using job_tx [OF assms(1,4), of "\<lambda>now p d1. changed (db w) (replace_row (endedRow now d) (delegations (db w)))
           (published p [endedPayload (d_TenantID d) d reason SystemActorID]) d1"]
    endTx_ok [of _ d e reason cron] assms(2,3)
  by metis

lemma end_run_up:
  assumes "all_up e" "c_tx c = None" "db_inv (db w)" "d \<in> set (delegations (db w))" "openStatus (d_Status d)" "d_DeletedAt d = None"
  shows "fst (TxRunner_RunInTx e (WithTenantGUC c (d_TenantID d)) (endTx e d reason cron) w) = Inr False"
proof (rule RunInTx_no_faults)
  fix c' :: ctx and w1 :: world
  assume "opened_ctx (WithTenantGUC c (d_TenantID d)) c'" "db w1 = db w"
  with assms show "fst (endTx e d reason cron c' w1) = Inr False"
    by (metis opened_tenant endTx_up)
qed (use assms in \<open>auto simp: all_up_def WithTenantGUC_def\<close>)

definition jobTarget :: "ctx \<Rightarrow> DelegationStatus \<Rightarrow> Delegation \<Rightarrow> bool" where
  "jobTarget c st d \<longleftrightarrow> c_tx c = None \<and> d_Status d = st \<and> d_DeletedAt d = None"

definition expiredPayload :: "EndReason \<Rightarrow> Delegation \<Rightarrow> EventData" where
  "expiredPayload reason d = endedPayload (d_TenantID d) d reason SystemActorID"

definition clearCall :: "Delegation \<Rightarrow> UPCall list" where
  "clearCall d = [UPClear (d_TenantID d) (d_DelegatorID d) True]"

definition oooCall :: "Delegation \<Rightarrow> UPCall list" where
  "oooCall d = [UPSet (oooRequest (d_TenantID d) (d_DelegatorID d) (d_StartsAt d)
     (case d_EndsAt d of Some u \<Rightarrow> Some u | None \<Rightarrow> d_ReviewDueAt d) (d_DelegateID d) (d_Reason d)) True]"

interpretation expiry: sweep "jobTarget c DelegationActive" "Expiry_step e c" endedRow "expiredPayload EndReasonExpired"
    "jobPub e c" res_Succeeded clearCall "all_up e" for c e
proof (unfold_locales, goal_cases)
  case (2 w d r)
  with jstep.frame_Expiry_step [where c = c and d = d and s = "(r, w)" and e = e] show ?case by (simp add: db_step_def)
next
  case (3 w d r r' w')
  note run = end_run [where w = "snd (up_ClearDelegatePointer e (d_TenantID d) (d_DelegatorID d) w)" and c = c and d = d and e = e
      and reason = EndReasonExpired and cron = "''delegation-expiry''"]
  show ?case
    using 3 run
    by (auto simp: Expiry_step_def Let_def endExpired_def jobTarget_def expiredPayload_def clearCall_def up_ClearDelegatePointer_def
        split: option.splits prod.splits sum.splits if_splits dest!: end_run_log)
next
  case (4 w d r)
  obtain w1 where "TxRunner_RunInTx e (WithTenantGUC c (d_TenantID d)) (endTx e d EndReasonExpired ''delegation-expiry'')
      (snd (up_ClearDelegatePointer e (d_TenantID d) (d_DelegatorID d) w)) = (Inr False, w1)"
    using end_run_up [OF 4(1), where c = c and d = d and w = "snd (up_ClearDelegatePointer e (d_TenantID d) (d_DelegatorID d) w)"] 4
    by (auto simp: jobTarget_def prod_eq_iff)
  with 4(1) show ?case
    by (simp add: Expiry_step_def Let_def endExpired_def up_ClearDelegatePointer_def all_up_def)
qed simp

interpretation autoend: sweep "jobTarget c DelegationActive" "AutoEnd_step e c" endedRow "expiredPayload EndReasonReviewExpired"
    "jobPub e c" res_Expired clearCall "all_up e" for c e
proof (unfold_locales, goal_cases)
  case (2 w d r)
  with jstep.frame_AutoEnd_step [where c = c and d = d and s = "(r, w)" and e = e] show ?case by (simp add: db_step_def)
next
  case (3 w d r r' w')
  note run = end_run [where w = "snd (up_ClearDelegatePointer e (d_TenantID d) (d_DelegatorID d) w)" and c = c and d = d and e = e
      and reason = EndReasonReviewExpired and cron = "''delegation-review''"]
  show ?case
    using 3 run
    by (auto simp: AutoEnd_step_def Let_def endReviewExpired_def jobTarget_def expiredPayload_def clearCall_def up_ClearDelegatePointer_def
        split: option.splits prod.splits sum.splits if_splits dest!: end_run_log)
next
  case (4 w d r)
  obtain w1 where "TxRunner_RunInTx e (WithTenantGUC c (d_TenantID d)) (endTx e d EndReasonReviewExpired ''delegation-review'')
      (snd (up_ClearDelegatePointer e (d_TenantID d) (d_DelegatorID d) w)) = (Inr False, w1)"
    using end_run_up [OF 4(1), where c = c and d = d and w = "snd (up_ClearDelegatePointer e (d_TenantID d) (d_DelegatorID d) w)"] 4
    by (auto simp: jobTarget_def prod_eq_iff)
  with 4(1) show ?case
    by (simp add: AutoEnd_step_def Let_def endReviewExpired_def up_ClearDelegatePointer_def all_up_def)
qed simp

definition activatedPayload :: "Delegation \<Rightarrow> EventData" where
  "activatedPayload d = startedPayload (d_TenantID d) d SystemActorID"

lemma activate_run:
  assumes "c_tx c = None" "db_inv (db w)" "d \<in> set (delegations (db w))" "activateScheduled e c d w = (res, w')"
  shows "if res = Inr False
    then \<exists>now. changed (db w) (replace_row (activatedRow now d) (delegations (db w))) (published (jobPub e c) [activatedPayload d]) (db w')
    else db w' = db w"
  using job_tx [OF assms(1) assms(4)[unfolded activateScheduled_def], of "\<lambda>now p d1. changed (db w) (replace_row (activatedRow now d) (delegations (db w)))
           (published p [activatedPayload d]) d1"]
    activateTx_ok [of _ d e] assms(2,3) unfolding activatedPayload_def
  by metis

lemma activate_run_up:
  assumes "all_up e" "c_tx c = None" "db_inv (db w)" "d \<in> set (delegations (db w))" "d_Status d = DelegationScheduled" "d_DeletedAt d = None"
  shows "fst (activateScheduled e c d w) = Inr False"
  unfolding activateScheduled_def
proof (rule RunInTx_no_faults)
  fix c' :: ctx and w1 :: world
  assume "opened_ctx (WithTenantGUC c (d_TenantID d)) c'" "db w1 = db w"
  with assms show "fst (activateTx e d c' w1) = Inr False"
    by (metis opened_tenant activateTx_up)
qed (use assms in \<open>auto simp: all_up_def WithTenantGUC_def\<close>)

lemma activatedRow_simps [simp]:
  "d_ID (activatedRow now r) = d_ID r" "d_Status (activatedRow now r) = DelegationActive"
  by (simp_all add: activatedRow_def stamped_def)

interpretation activation: sweep "jobTarget c DelegationScheduled" "Activation_step e c" activatedRow activatedPayload
    "jobPub e c" res_Succeeded oooCall "all_up e" for c e
proof (unfold_locales, goal_cases)
  case (2 w d r)
  with jstep.frame_Activation_step [where c = c and d = d and s = "(r, w)" and e = e] show ?case by (simp add: db_step_def)
next
  case (3 w d r r' w')
  obtain x w1 where u: "up_SetAvailability e (oooRequest (d_TenantID d) (d_DelegatorID d) (d_StartsAt d)
      (case d_EndsAt d of Some u \<Rightarrow> Some u | None \<Rightarrow> d_ReviewDueAt d) (d_DelegateID d) (d_Reason d)) w = (x, w1)" by force
  then have "db w1 = db w" "up_log w1 = up_log w @ (if x = None then oooCall d else [UPSet (oooRequest (d_TenantID d) (d_DelegatorID d) (d_StartsAt d)
      (case d_EndsAt d of Some u \<Rightarrow> Some u | None \<Rightarrow> d_ReviewDueAt d) (d_DelegateID d) (d_Reason d)) False])"
    by (auto simp: up_SetAvailability_def Let_def oooCall_def)
  with 3 activate_run [where c = c and d = d and e = e and w = w1] u show ?case
    by (auto simp: Activation_step_def Let_def jobTarget_def split: option.splits prod.splits sum.splits if_splits dest!: activate_run_log)
next
  case (4 w d r)
  obtain x w1 where u: "up_SetAvailability e (oooRequest (d_TenantID d) (d_DelegatorID d) (d_StartsAt d)
      (case d_EndsAt d of Some u \<Rightarrow> Some u | None \<Rightarrow> d_ReviewDueAt d) (d_DelegateID d) (d_Reason d)) w = (x, w1)" by force
  then have w1: "db w1 = db w" "x = None"
    using 4(1) by (auto simp: up_SetAvailability_def Let_def all_up_def)
  then obtain w2 where "activateScheduled e c d w1 = (Inr False, w2)"
    using activate_run_up [OF 4(1), where c = c and d = d and w = w1] 4 by (auto simp: jobTarget_def prod_eq_iff)
  with u w1 show ?case by (simp add: Activation_step_def Let_def)
qed simp

subsection \<open>Warnings\<close>

lemma ceilDays_bounds:
  assumes "0 < x" "x \<le> 3 * day"
  shows "1 \<le> ceilDays x" "ceilDays x \<le> 3"
proof -
  have "(- x) div day \<le> (- 1) div day" by (rule zdiv_mono1) (use assms in simp_all)
  also have "\<dots> = - 1" by (simp add: day_def second_def)
  finally show "1 \<le> ceilDays x" by (simp add: ceilDays_def)
  have "- 3 = (- 3 * day) div day" by (simp add: day_def second_def)
  also have "\<dots> \<le> (- x) div day" by (rule zdiv_mono1) (use assms in simp_all)
  finally show "ceilDays x \<le> 3" by (simp add: ceilDays_def)
qed

lemma daysRemaining_range:
  assumes "dueForWarn now d"
  shows "1 \<le> computeDaysRemaining (d_ReviewDueAt d) now" "computeDaysRemaining (d_ReviewDueAt d) now \<le> 3"
proof -
  from assms obtain t where t: "d_ReviewDueAt d = Some t" "now < t" "t \<le> now + 3 * day"
    by (auto simp: dueForWarn_def split: option.splits)
  then have "time_Sub t now = t - now"
    by (auto simp: time_Sub_def maxDuration_def day_def second_def)
  with t ceilDays_bounds [of "t - now"]
  show "1 \<le> computeDaysRemaining (d_ReviewDueAt d) now" "computeDaysRemaining (d_ReviewDueAt d) now \<le> 3"
    by (auto simp: computeDaysRemaining_def)
qed

text \<open>A row the sweep warns: due within three days and not yet warned for this day's bucket.\<close>

definition needsWarn :: "time \<Rightarrow> Delegation \<Rightarrow> bool" where
  "needsWarn now d \<longleftrightarrow> d_ReviewLastWarnedBucket d \<noteq> Some (computeDaysRemaining (d_ReviewDueAt d) now)"

definition warnTarget :: "ctx \<Rightarrow> time \<Rightarrow> Delegation \<Rightarrow> bool" where
  "warnTarget c now d \<longleftrightarrow> jobTarget c DelegationActive d \<and> dueForWarn now d \<and> needsWarn now d"

definition warnUpd :: "time \<Rightarrow> time \<Rightarrow> Delegation \<Rightarrow> Delegation" where
  "warnUpd now t d = warnedRow (computeDaysRemaining (d_ReviewDueAt d) now) t d"

definition warnPay :: "time \<Rightarrow> Delegation \<Rightarrow> EventData" where
  "warnPay now d = reviewPayload d (computeDaysRemaining (d_ReviewDueAt d) now)"

definition warnedCount :: "JobResult \<Rightarrow> int" where
  "warnedCount r = res_Warned3d r + res_Warned2d r + res_Warned1d r"

lemma countWarned_count: "1 \<le> b \<Longrightarrow> b \<le> 3 \<Longrightarrow> warnedCount (countWarned b r) = warnedCount r + 1"
proof -
  assume "1 \<le> b" "b \<le> 3"
  then have "b = 1 \<or> b = 2 \<or> b = 3" by auto
  then show ?thesis by (auto simp: warnedCount_def countWarned_def)
qed

lemma warnUpd_ID [simp]: "d_ID (warnUpd now t d) = d_ID d"
  by (simp add: warnUpd_def warnedRow_def)

lemma Warn_step_skip: "\<not> needsWarn now d \<Longrightarrow> Warn_step e c now d s = s"
  by (simp add: Warn_step_def needsWarn_def Let_def)

lemma Warn_fold_filter: "fold (Warn_step e c now) ts s = fold (Warn_step e c now) (filter (needsWarn now) ts) s"
  by (induction ts arbitrary: s) (simp_all add: Warn_step_skip)

lemma warn_run:
  assumes "c_tx c = None" "db_inv (db w)" "d \<in> set (delegations (db w))"
    and "TxRunner_RunInTx e (WithTenantGUC c (d_TenantID d)) (warnTx e d b) w = (res, w')"
  shows "if res = Inr False
    then \<exists>now. changed (db w) (replace_row (warnedRow b now d) (delegations (db w))) (published (jobPub e c) [reviewPayload d b]) (db w')
    else db w' = db w"
  using job_tx [OF assms(1,4), of "\<lambda>now p d1. changed (db w) (replace_row (warnedRow b now d) (delegations (db w)))
           (published p [reviewPayload d b]) d1"]
    warnTx_ok [of _ d e] assms(2,3)
  by metis

lemma warn_run_up:
  assumes "all_up e" "c_tx c = None" "db_inv (db w)" "d \<in> set (delegations (db w))" "d_Status d = DelegationActive" "d_DeletedAt d = None"
    "1 \<le> b" "b \<le> 3"
  shows "fst (TxRunner_RunInTx e (WithTenantGUC c (d_TenantID d)) (warnTx e d b) w) = Inr False"
proof (rule RunInTx_no_faults)
  fix c' :: ctx and w1 :: world
  assume "opened_ctx (WithTenantGUC c (d_TenantID d)) c'" "db w1 = db w"
  with assms show "fst (warnTx e d b c' w1) = Inr False"
    by (metis opened_tenant warnTx_up)
qed (use assms in \<open>auto simp: all_up_def WithTenantGUC_def\<close>)

interpretation warn: sweep "warnTarget c now" "Warn_step e c now" "warnUpd now" "warnPay now"
    "jobPub e c" warnedCount "\<lambda>_. []" "all_up e" for c e now
proof (unfold_locales, goal_cases)
  case (2 w d r)
  with jstep.frame_Warn_step [where c = c and d = d and s = "(r, w)" and e = e and now = now] show ?case by (simp add: db_step_def)
next
  case (3 w d r r' w')
  let ?b = "computeDaysRemaining (d_ReviewDueAt d) now"
  obtain x w1 where u: "TxRunner_RunInTx e (WithTenantGUC c (d_TenantID d)) (warnTx e d ?b) w = (x, w1)" by force
  have b: "1 \<le> ?b" "?b \<le> 3" using 3 daysRemaining_range by (simp_all add: warnTarget_def)
  have "c_tx c = None" using 3 by (simp add: warnTarget_def jobTarget_def)
  note run = warn_run [OF this 3(1,2) u]
  show ?case
  proof (cases "x = Inr False")
    case True
    with 3 u b have "r' = countWarned ?b r" "db w' = db w1"
      by (auto simp: Warn_step_def Let_def warnTarget_def needsWarn_def)
    moreover have "up_log w' = up_log w1" using True 3 u b
      by (auto simp: Warn_step_def Let_def warnTarget_def needsWarn_def)
    ultimately show ?thesis using True run countWarned_count [OF b] warn_run_log [OF u] by (auto simp: warnUpd_def warnPay_def)
  next
    case False
    with 3 u b have "warnedCount r' = warnedCount r" "db w' = db w1"
      by (auto simp: Warn_step_def Let_def warnTarget_def needsWarn_def warnedCount_def split: sum.splits if_splits)
    moreover have "up_log w' = up_log w1" using False 3 u b
      by (auto simp: Warn_step_def Let_def warnTarget_def needsWarn_def split: sum.splits if_splits)
    ultimately show ?thesis using False run warn_run_log [OF u] by simp
  qed
next
  case (4 w d r)
  let ?b = "computeDaysRemaining (d_ReviewDueAt d) now"
  have b: "1 \<le> ?b" "?b \<le> 3" using 4 daysRemaining_range by (simp_all add: warnTarget_def)
  then obtain w1 where "TxRunner_RunInTx e (WithTenantGUC c (d_TenantID d)) (warnTx e d ?b) w = (Inr False, w1)"
    using warn_run_up [OF 4(1), where c = c and d = d and w = w and b = ?b] 4 by (auto simp: warnTarget_def jobTarget_def prod_eq_iff)
  with 4 b countWarned_count [OF b] show ?case by (auto simp: Warn_step_def Let_def warnTarget_def needsWarn_def)
qed simp

section \<open>The jobs\<close>

lemma finder_ok:
  assumes "c_tx c = None" "db_inv (db w)" "DelegationRepository_listWhere e SysPool c P (order_limit key n) w = (Inr rows, w')"
  shows "rows = order_limit key n (rows_matching P (delegations (db w)))" "db w' = db w" "up_log w' = up_log w"
    "set rows \<subseteq> {r \<in> set (delegations (db w)). P r}" "distinct (map d_ID rows)"
proof -
  obtain t where t: "pool_tx SysPool c t"
    "rows = order_limit key n (rows_matching (\<lambda>r. rls_visible t (d_TenantID r) \<and> P r) (delegations (db w)))"
    by (rule listWhere_ok [OF assms(3)])
  then have "tx_pool t = SysPool" using assms(1) by (simp add: pool_tx_def)
  with t(2) show rows: "rows = order_limit key n (rows_matching P (delegations (db w)))" by (simp add: rls_visible_def)
  show "db w' = db w" using listWhere_db [of e SysPool c P "order_limit key n" w] assms(3) by simp
  show "up_log w' = up_log w"
    using repository_ext(1) [of w e SysPool c P "order_limit key n"] assms(3) by (simp add: same_ext_def)
  show "set rows \<subseteq> {r \<in> set (delegations (db w)). P r}"
    using set_order_limit [of key n "rows_matching P (delegations (db w))"] by (auto simp: rows rows_matching_def)
  show "distinct (map d_ID rows)"
    unfolding rows using assms(2) by (intro distinct_map_filter_take) (simp add: db_inv_def)
qed

lemma pair_result_iff [res_iff]: "(case p of (r, w) \<Rightarrow> (Inr r, w)) = (Inr a, w') \<longleftrightarrow> p = (a, w')"
  by (auto split: prod.splits)

lemma fold_count:
  assumes "\<And>x r w. f (fst (step x (r, w))) = f r + (1 :: int)"
  shows "f (fst (fold step xs (r, w))) = f r + int (length xs)"
proof (induction xs arbitrary: r w)
  case (Cons x xs)
  obtain r1 w1 where s: "step x (r, w) = (r1, w1)" by force
  with Cons.IH [where r = r1 and w = w1] assms [where x = x and r = r and w = w] show ?case by simp
qed simp

lemma fold_slack:
  assumes "\<And>x r w. f (fst (step x (r, w))) \<ge> (f r :: int)"
  shows "f (fst (fold step xs (r, w))) \<ge> f r"
proof (induction xs arbitrary: r w)
  case (Cons x xs)
  obtain r1 w1 where s: "step x (r, w) = (r1, w1)" by force
  with Cons.IH [where r = r1 and w = w1] assms [where x = x and r = r and w = w] show ?case by simp
qed simp

text \<open>Rows taken but neither ended, failed nor deferred: another writer got there first.\<close>

definition raced :: "JobResult \<Rightarrow> int" where
  "raced r = res_Attempted r - res_Succeeded r - res_Failed r - res_Deferred r"

lemma step_counts:
  "res_Attempted (fst (Expiry_step e c d (r, w))) = res_Attempted r + 1"
  "res_Attempted (fst (Activation_step e c d (r, w))) = res_Attempted r + 1"
  "raced (fst (Expiry_step e c d (r, w))) \<ge> raced r"
  "raced (fst (Activation_step e c d (r, w))) \<ge> raced r"
  by (auto simp: Expiry_step_def Activation_step_def Let_def raced_def split: prod.split option.split sum.split)

lemma zeroResult_simps [simp]:
  "res_Attempted zeroResult = 0" "res_Succeeded zeroResult = 0" "res_Expired zeroResult = 0" "warnedCount zeroResult = 0"
  "raced zeroResult = 0"
  by (simp_all add: zeroResult_def warnedCount_def raced_def)

text \<open>The batch a job reads, in the order it processes it.\<close>

definition expiryBatch :: "JobContext \<Rightarrow> time \<Rightarrow> db \<Rightarrow> Delegation list" where
  "expiryBatch jc now d = order_limit (\<lambda>r. the (d_EndsAt r)) (limitOrDefault (batchLimit jc)) (rows_matching (expiringRow now) (delegations d))"

definition activationBatch :: "JobContext \<Rightarrow> time \<Rightarrow> db \<Rightarrow> Delegation list" where
  "activationBatch jc now d = order_limit d_StartsAt (limitOrDefault (batchLimit jc)) (rows_matching (scheduledRow now) (delegations d))"

definition warnBatch :: "JobContext \<Rightarrow> time \<Rightarrow> db \<Rightarrow> Delegation list" where
  "warnBatch jc now d = filter (needsWarn now)
     (order_limit (\<lambda>r. the (d_ReviewDueAt r)) (limitOrDefault (batchLimit jc)) (rows_matching (dueForWarn now) (delegations d)))"

definition autoEndBatch :: "JobContext \<Rightarrow> time \<Rightarrow> db \<Rightarrow> Delegation list" where
  "autoEndBatch jc now d = order_limit (\<lambda>r. the (d_ReviewDueAt r)) (limitOrDefault (batchLimit jc)) (rows_matching (dueForAutoEnd now) (delegations d))"

lemma Expiry_ok:
  assumes "c_tx c = None" "db_inv (db w)" "Expiry e jc c w = (Inr res, w')"
  obtains hit calls where "subseq hit (expiryBatch jc (clock e (tick w)) (db w))"
    "swept endedRow (expiredPayload EndReasonExpired) (jobPub e c) hit (db w) (db w')"
    "res_Succeeded res = int (length hit)" "res_Attempted res = int (length (expiryBatch jc (clock e (tick w)) (db w)))" "0 \<le> raced res"
    "up_log w' = up_log w @ calls" "\<forall>r \<in> set hit. UPClear (d_TenantID r) (d_DelegatorID r) True \<in> set calls"
    "all_up e \<Longrightarrow> hit = expiryBatch jc (clock e (tick w)) (db w)"
proof -
  from assms(3) obtain ts w1 where f: "DelegationRepository_ListExpiringBefore e SysPool c (clock e (tick w)) (batchLimit jc) w = (Inr ts, w1)"
    and run: "fold (Expiry_step e c) ts (zeroResult, w1) = (res, w')"
    unfolding Expiry_def res_iff by blast
  note t = finder_ok [OF assms(1,2) f [unfolded DelegationRepository_ListExpiringBefore_def]]
  have "\<forall>x \<in> set ts. jobTarget c DelegationActive x" using t(4) assms(1) by (auto simp: jobTarget_def expiringRow_def)
  moreover have "db_inv (db w1)" "set ts \<subseteq> set (delegations (db w1))" using assms(2) t by auto
  ultimately obtain hit where h: "subseq hit ts" "swept endedRow (expiredPayload EndReasonExpired) (jobPub e c) hit (db w1) (db w')"
    "res_Succeeded res = res_Succeeded zeroResult + int (length hit)" "all_up e \<Longrightarrow> hit = ts"
    "\<exists>calls. up_log w' = up_log w1 @ calls \<and> (\<forall>x \<in> set hit. set (clearCall x) \<subseteq> set calls)"
    using expiry.sweep [OF run] t(5) by metis
  have "res_Attempted res = int (length ts)" "0 \<le> raced res"
    using fold_count [where f = res_Attempted and step = "Expiry_step e c" and xs = ts and r = zeroResult and w = w1, OF step_counts(1)]
      fold_slack [where f = raced and step = "Expiry_step e c" and xs = ts and r = zeroResult and w = w1, OF step_counts(3)] run by simp_all
  moreover have "ts = expiryBatch jc (clock e (tick w)) (db w)" using t(1) by (simp add: expiryBatch_def)
  ultimately show ?thesis using that h t(2,3) by (auto simp: clearCall_def)
qed

lemma Activation_ok:
  assumes "c_tx c = None" "db_inv (db w)" "Activation e jc c w = (Inr res, w')"
  obtains hit calls where "subseq hit (activationBatch jc (clock e (tick w)) (db w))"
    "swept activatedRow activatedPayload (jobPub e c) hit (db w) (db w')"
    "res_Succeeded res = int (length hit)" "res_Attempted res = int (length (activationBatch jc (clock e (tick w)) (db w)))" "0 \<le> raced res"
    "up_log w' = up_log w @ calls" "\<forall>r \<in> set hit. set (oooCall r) \<subseteq> set calls"
    "all_up e \<Longrightarrow> hit = activationBatch jc (clock e (tick w)) (db w)"
proof -
  from assms(3) obtain ts w1 where f: "DelegationRepository_ListScheduledBefore e SysPool c (clock e (tick w)) (batchLimit jc) w = (Inr ts, w1)"
    and run: "fold (Activation_step e c) ts (zeroResult, w1) = (res, w')"
    unfolding Activation_def res_iff by blast
  note t = finder_ok [OF assms(1,2) f [unfolded DelegationRepository_ListScheduledBefore_def]]
  have "\<forall>x \<in> set ts. jobTarget c DelegationScheduled x" using t(4) assms(1) by (auto simp: jobTarget_def scheduledRow_def)
  moreover have "db_inv (db w1)" "set ts \<subseteq> set (delegations (db w1))" using assms(2) t by auto
  ultimately obtain hit where h: "subseq hit ts" "swept activatedRow activatedPayload (jobPub e c) hit (db w1) (db w')"
    "res_Succeeded res = res_Succeeded zeroResult + int (length hit)" "all_up e \<Longrightarrow> hit = ts"
    "\<exists>calls. up_log w' = up_log w1 @ calls \<and> (\<forall>x \<in> set hit. set (oooCall x) \<subseteq> set calls)"
    using activation.sweep [OF run] t(5) by metis
  have "res_Attempted res = int (length ts)" "0 \<le> raced res"
    using fold_count [where f = res_Attempted and step = "Activation_step e c" and xs = ts and r = zeroResult and w = w1, OF step_counts(2)]
      fold_slack [where f = raced and step = "Activation_step e c" and xs = ts and r = zeroResult and w = w1, OF step_counts(4)] run by simp_all
  moreover have "ts = activationBatch jc (clock e (tick w)) (db w)" using t(1) by (simp add: activationBatch_def)
  ultimately show ?thesis using that h t(2,3) by auto
qed

text \<open>The sweep's two phases read the same clock; the second sees what the first has written.\<close>

lemma Warn_step_Expired: "res_Expired (fst (Warn_step e c now d (r, w))) = res_Expired r"
  by (auto simp: Warn_step_def Let_def countWarned_def split: prod.split sum.split)

lemma Warn_fold_Expired: "res_Expired (fst (fold (Warn_step e c now) ds (r, w))) = res_Expired r"
proof (induction ds arbitrary: r w)
  case (Cons d ds)
  obtain r1 w1 where "Warn_step e c now d (r, w) = (r1, w1)" by force
  with Cons.IH [where r = r1 and w = w1] Warn_step_Expired [of e c now d r w] show ?case by simp
qed simp

lemma AutoEnd_step_warned: "warnedCount (fst (AutoEnd_step e c d (r, w))) = warnedCount r"
  by (auto simp: AutoEnd_step_def Let_def warnedCount_def split: prod.split sum.split option.split)

lemma AutoEnd_fold_warned: "warnedCount (fst (fold (AutoEnd_step e c) ds (r, w))) = warnedCount r"
proof (induction ds arbitrary: r w)
  case (Cons d ds)
  obtain r1 w1 where "AutoEnd_step e c d (r, w) = (r1, w1)" by force
  with Cons.IH [where r = r1 and w = w1] AutoEnd_step_warned [of e c d r w] show ?case by simp
qed simp

lemma Warn_fold_inv: "db_inv (db w) \<Longrightarrow> db_inv (db (snd (fold (Warn_step e c now) ds (r, w))))"
proof (induction ds arbitrary: r w)
  case (Cons d ds)
  obtain r1 w1 where s: "Warn_step e c now d (r, w) = (r1, w1)" by force
  have "db_inv (db w1)" using warn.step_inv [OF Cons.prems, where d = d and r = r and e = e and c = c and now = now] s by simp
  with Cons.IH [where r = r1 and w = w1] s show ?case by simp
qed simp

lemma ReviewSweep_ok:
  assumes "c_tx c = None" "db_inv (db w)" "ReviewSweep e jc c w = (Inr res, w')"
  defines "now \<equiv> clock e (tick w)"
  obtains warned mid ended calls where "subseq warned (warnBatch jc now (db w))"
    "swept (warnUpd now) (warnPay now) (jobPub e c) warned (db w) mid"
    "subseq ended (autoEndBatch jc now mid)"
    "swept endedRow (expiredPayload EndReasonReviewExpired) (jobPub e c) ended mid (db w')"
    "warnedCount res = int (length warned)" "res_Expired res = int (length ended)"
    "up_log w' = up_log w @ calls" "\<forall>r \<in> set ended. UPClear (d_TenantID r) (d_DelegatorID r) True \<in> set calls"
    "all_up e \<Longrightarrow> warned = warnBatch jc now (db w) \<and> ended = autoEndBatch jc now mid"
proof -
  from assms(3) obtain ts w1 where f: "DelegationRepository_FindDueForDailyWarn e SysPool c now (batchLimit jc) w = (Inr ts, w1)"
    and k: "(case fold (Warn_step e c now) ts (zeroResult, w1) of (res, w) \<Rightarrow>
            bind_res (DelegationRepository_FindDueForAutoEnd e SysPool c now (batchLimit jc) w) (\<lambda>endTargets w.
              (case fold (AutoEnd_step e c) endTargets (res, w) of (res, w) \<Rightarrow> (Inr res, w)))) = (Inr res, w')"
    unfolding ReviewSweep_def Let_def now_def [symmetric] bind_res_Inr_iff by blast
  obtain r1 w2 where run: "fold (Warn_step e c now) ts (zeroResult, w1) = (r1, w2)" by force
  from k obtain us w3 where f2: "DelegationRepository_FindDueForAutoEnd e SysPool c now (batchLimit jc) w2 = (Inr us, w3)"
    and run2: "fold (AutoEnd_step e c) us (r1, w3) = (res, w')"
    by (auto simp: run bind_res_Inr_iff pair_result_iff)
  note t = finder_ok [OF assms(1,2) f [unfolded DelegationRepository_FindDueForDailyWarn_def]]
  have inv: "db_inv (db w2)" using Warn_fold_inv [of w1 e c now ts zeroResult] assms(2) t(2) run by simp
  note t2 = finder_ok [OF assms(1) inv f2 [unfolded DelegationRepository_FindDueForAutoEnd_def]]
  let ?ts = "filter (needsWarn now) ts"
  have run': "fold (Warn_step e c now) ?ts (zeroResult, w1) = (r1, w2)"
    using run Warn_fold_filter [of e c now ts "(zeroResult, w1)"] by simp
  have "\<forall>x \<in> set ?ts. warnTarget c now x"
    using t(4) assms(1) by (auto simp: jobTarget_def warnTarget_def dueForWarn_def reviewTracked_def)
  moreover have "db_inv (db w1)" "set ?ts \<subseteq> set (delegations (db w1))" using assms(2) t by auto
  moreover have "distinct (map d_ID ?ts)" using t(5) by (simp add: distinct_map_filter)
  ultimately obtain warned where h: "subseq warned ?ts" "swept (warnUpd now) (warnPay now) (jobPub e c) warned (db w1) (db w2)"
    "warnedCount r1 = warnedCount zeroResult + int (length warned)" "all_up e \<Longrightarrow> warned = ?ts"
    "\<exists>calls. up_log w2 = up_log w1 @ calls"
    using warn.sweep [OF run'] by (metis (no_types, lifting))
  have "\<forall>x \<in> set us. jobTarget c DelegationActive x"
    using t2(4) assms(1) by (auto simp: jobTarget_def dueForAutoEnd_def reviewTracked_def)
  moreover have "db_inv (db w3)" "set us \<subseteq> set (delegations (db w3))" using inv t2 by auto
  ultimately obtain ended where h2: "subseq ended us" "swept endedRow (expiredPayload EndReasonReviewExpired) (jobPub e c) ended (db w3) (db w')"
    "res_Expired res = res_Expired r1 + int (length ended)" "all_up e \<Longrightarrow> ended = us"
    "\<exists>calls. up_log w' = up_log w3 @ calls \<and> (\<forall>x \<in> set ended. set (clearCall x) \<subseteq> set calls)"
    using autoend.sweep [OF run2] t2(5) by metis
  have "res_Expired r1 = 0" using Warn_fold_Expired [of e c now ts zeroResult w1] run by simp
  moreover have "warnedCount res = warnedCount r1" using AutoEnd_fold_warned [of e c us r1 w3] run2 by simp
  moreover have "?ts = warnBatch jc now (db w)" "us = autoEndBatch jc now (db w2)"
    using t(1) t2(1) by (simp_all add: warnBatch_def autoEndBatch_def)
  moreover from h(5) h2(5) t(3) t2(3) obtain calls where "up_log w' = up_log w @ calls"
    "\<forall>r \<in> set ended. UPClear (d_TenantID r) (d_DelegatorID r) True \<in> set calls" by (auto simp: clearCall_def)
  ultimately show ?thesis using that [of warned "db w2" ended calls] h h2 t(2) t2(2) by simp
qed

text \<open>A warned row is not warned again for the same day's bucket.\<close>

lemma warned_once: "\<not> needsWarn now (warnUpd now t d)"
  by (simp add: needsWarn_def warnUpd_def warnedRow_def)

text \<open>
  The cleanup removes rows whose soft deletion is older than the retention, oldest first and at
  most one batch, and reports how many; apart from them only the dedup ledger may shrink.
\<close>

definition purgeBatch :: "JobContext \<Rightarrow> time \<Rightarrow> db \<Rightarrow> Delegation list" where
  "purgeBatch jc now d = order_limit (\<lambda>r. the (d_DeletedAt r)) (limitOrDefault (batchLimit jc))
     (rows_matching (purgeableRow (now - retentionDays jc * day)) (delegations d))"

definition only_ledger :: "db \<Rightarrow> db \<Rightarrow> bool" where
  "only_ledger d d' \<longleftrightarrow> (\<exists>l. d' = d\<lparr>processed_events := l\<rparr> \<and> set l \<subseteq> set (processed_events d))"

interpretation only_ledger: db_frame only_ledger
proof (unfold_locales, goal_cases)
  case (1 d)
  show ?case unfolding only_ledger_def by (intro exI [of _ "processed_events d"]) simp
next
  case (2 d1 d2 d3)
  then obtain l l' where "d3 = d1\<lparr>processed_events := l'\<rparr>" "set l' \<subseteq> set l" "set l \<subseteq> set (processed_events d1)"
    by (auto simp: only_ledger_def)
  then show ?case unfolding only_ledger_def by (intro exI [of _ l']) auto
qed

lemma Prune_only_ledger: "only_ledger (db w) (db (snd (ProcessedEventsRepository_Prune e c n l w)))"
  unfolding ProcessedEventsRepository_Prune_def
proof (rule only_ledger.w.frame_withPool, rule only_ledger.w.frame_stmt, goal_cases)
  case (1 t w1)
  show ?case
    unfolding Let_def
    by (cases "l < 0") (simp add: only_ledger.db_refl, auto simp: only_ledger_def)
qed

lemma Cleanup_ok:
  assumes "c_tx c = None" "db_inv (db w)" "Cleanup e jc c w = (Inr res, w')"
  defines "gone \<equiv> purgeBatch jc (clock e (tick w)) (db w)"
  shows "only_ledger ((db w)\<lparr>delegations := filter (\<lambda>r. r \<notin> set gone) (delegations (db w))\<rparr>) (db w')"
    "res = zeroResult\<lparr>res_Purged := int (length gone)\<rparr>"
proof -
  from assms(3) obtain n w1 where
      hp: "DelegationRepository_HardPurgeSoftDeletedBefore e SysPool c (clock e (tick w) - retentionDays jc * day) (batchLimit jc) w = (Inr n, w1)"
    and res: "res = zeroResult\<lparr>res_Purged := n\<rparr>"
    and w': "w' = (if jc_ProcessedEvents jc then snd (ProcessedEventsRepository_Prune e c (ledgerTTLDays jc) (batchLimit jc) w1) else w1)"
    unfolding Cleanup_def res_iff by auto
  obtain t g where t: "pool_tx SysPool c t"
    "g = order_limit (\<lambda>r. the (d_DeletedAt r)) (limitOrDefault (batchLimit jc))
       (rows_matching (\<lambda>r. rls_visible t (d_TenantID r) \<and> purgeableRow (clock e (tick w) - retentionDays jc * day) r) (delegations (db w)))"
    "db w1 = (db w)\<lparr>delegations := filter (\<lambda>r. r \<notin> set g) (delegations (db w))\<rparr>" "n = int (length g)"
    by (rule HardPurge_ok [OF assms(2) hp])
  have "g = gone" using t(1,2) assms(1) by (simp add: gone_def purgeBatch_def pool_tx_def rls_visible_def)
  with t res w' show "only_ledger ((db w)\<lparr>delegations := filter (\<lambda>r. r \<notin> set gone) (delegations (db w))\<rparr>) (db w')"
    "res = zeroResult\<lparr>res_Purged := int (length gone)\<rparr>"
    using Prune_only_ledger [of w1 e c "ledgerTTLDays jc" "batchLimit jc"] by (auto simp: only_ledger.db_refl)
qed

lemma purgeBatch_old:
  assumes "r \<in> set (purgeBatch jc now d)"
  obtains t where "d_DeletedAt r = Some t" "t + retentionDays jc * day < now"
  using assms set_order_limit [of "\<lambda>r. the (d_DeletedAt r)" "limitOrDefault (batchLimit jc)"
      "rows_matching (purgeableRow (now - retentionDays jc * day)) (delegations d)"]
  by (auto simp: purgeBatch_def rows_matching_def purgeableRow_def split: option.splits)

text \<open>A job whose finder fails changes nothing.\<close>

lemma job_error:
  assumes "c_tx c = None"
  shows "Expiry e jc c w = (Inl err, w') \<Longrightarrow> db w' = db w"
    "Activation e jc c w = (Inl err, w') \<Longrightarrow> db w' = db w"
    "Cleanup e jc c w = (Inl err, w') \<Longrightarrow> db w' = db w"
proof -
  have q: "DelegationRepository_listWhere e SysPool c P ord w = (Inl err, w') \<Longrightarrow> db w' = db w" for P ord
    using listWhere_db [of e SysPool c P ord w] by simp
  show "Expiry e jc c w = (Inl err, w') \<Longrightarrow> db w' = db w"
    by (auto simp: Expiry_def res_iff DelegationRepository_ListExpiringBefore_def split: prod.splits dest: q)
  show "Activation e jc c w = (Inl err, w') \<Longrightarrow> db w' = db w"
    by (auto simp: Activation_def res_iff DelegationRepository_ListScheduledBefore_def split: prod.splits dest: q)
  show "Cleanup e jc c w = (Inl err, w') \<Longrightarrow> db w' = db w"
    using assms by (auto simp: Cleanup_def res_iff DelegationRepository_HardPurgeSoftDeletedBefore_def dest: withPool_error)
qed

end
