(* ===== verification/Scenario.thy ===== *)
theory Scenario
  imports Consumer Jobs
begin

text \<open>
  A concrete environment and world: one tenant (10) with users 1, 2 and 3, no faults, every
  client answering. The witnesses of the properties evaluate the model on it. \<open>demo_row\<close> is an
  active open-ended delegation from user 1 to user 2; \<open>demo_world\<close> is empty.
\<close>

definition demo_now :: time where "demo_now = 1700000000000000"

text \<open>The ids of the scenario and their text.\<close>

definition demo_ids :: "(string \<times> uuid) list" where
  "demo_ids = [(''1'', 1), (''2'', 2), (''3'', 3), (''10'', 10), (''77'', 77), (''500'', 500)]"

definition demo_env :: env where
  "demo_env =
     \<lparr>clock = (\<lambda>_. demo_now), pg_clock = (\<lambda>_. demo_now), new_uuid = (\<lambda>n. word_of_nat (100 + n)),
      uuid_Parse = map_of demo_ids,
      uuid_String = (\<lambda>u. case find (\<lambda>p. snd p = u) demo_ids of Some p \<Rightarrow> fst p | None \<Rightarrow> ''-''),
      pg_fault = (\<lambda>_. None), kv_fault = (\<lambda>_. None), schema_valid = (\<lambda>_. True),
      membershipExists = (\<lambda>_ _ u. Inr (True, u + 50)),
      getAvailability = (\<lambda>_ _ _. Inr \<lparr>snap_Status = ''available'', snap_OOOUntil = None\<rparr>),
      setAvailability = (\<lambda>_ _. None), clearDelegatePointer = (\<lambda>_ _ _. None), departmentActive = None,
      hasIdempotency = True, hasCache = True, hasMetrics = True, hasPublisher = True\<rparr>"

definition demo_ctx :: ctx where
  "demo_ctx = \<lparr>c_guc = Some 10, c_tx = None, c_publisher = False, c_rc = None\<rparr>"

definition demo_db :: db where
  "demo_db = \<lparr>delegations = [], tenant_settings = (\<lambda>_. None), processed_events = [], outbox = []\<rparr>"

definition demo_world :: world where
  "demo_world = \<lparr>tick = 0, db = demo_db, kv = (\<lambda>_. None), up_log = [], metric_log = []\<rparr>"

definition demo_row :: Delegation where
  "demo_row =
     \<lparr>d_ID = 77, d_TenantID = 10, d_DelegatorID = 1, d_DelegateID = 2, d_DelegatorMembershipID = 51,
      d_DelegateMembershipID = 52, d_Scope = ScopeAll, d_ScopeID = None, d_Reason = ''leave'',
      d_StartsAt = demo_now - 10 * day, d_EndsAt = None, d_Status = DelegationActive, d_RecordVersion = 3,
      d_CreatedAt = demo_now - 10 * day, d_UpdatedAt = demo_now - 10 * day, d_DeletedAt = None,
      d_ReviewDueAt = Some (demo_now + 80 * day), d_ReviewLastWarnedBucket = None, d_ReviewWindowDays = Some 90\<rparr>"

definition demo_rows :: "Delegation list \<Rightarrow> world" where
  "demo_rows rs = demo_world\<lparr>db := demo_db\<lparr>delegations := rs\<rparr>\<rparr>"

definition demo_req :: CreateInput where
  "demo_req =
     \<lparr>ci_DelegateID = 2, ci_Scope = ''all'', ci_ScopeID = None, ci_Reason = ''leave'',
      ci_StartsAt = None, ci_EndsAt = None\<rparr>"

definition demo_reassign :: ReassignInput where
  "demo_reassign =
     \<lparr>ri_NewDelegateID = Some 3, ri_Scope = None, ri_ScopeID = None, ri_ScopeIDSet = False,
      ri_EndsAt = None, ri_EndsAtProvided = False, ri_Reason = None\<rparr>"

text \<open>Rows the jobs act on: past its end, due to start, due for review in two days.\<close>

definition demo_expired :: Delegation where
  "demo_expired = demo_row\<lparr>d_EndsAt := Some (demo_now - 1), d_ReviewDueAt := None\<rparr>"

definition demo_scheduled :: Delegation where
  "demo_scheduled = demo_row\<lparr>d_Status := DelegationScheduled, d_StartsAt := demo_now\<rparr>"

definition demo_due :: Delegation where
  "demo_due = demo_row\<lparr>d_ReviewDueAt := Some (demo_now + 2 * day)\<rparr>"

definition demo_jobs :: JobContext where
  "demo_jobs = \<lparr>jc_BatchLimit = 0, jc_RetentionDays = 0, jc_ProcessedEvents = True, jc_ProcessedEventsTTLDays = 0\<rparr>"

definition demo_revoked :: Envelope where
  "demo_revoked =
     \<lparr>ee_ID = ''500'', ee_Type = ''MembershipRevoked'', ee_TenantID = ''10'',
      ee_Payload = Some (JObj [(''tenant_id'', JStr ''10''), (''user_id'', JStr ''2'')])\<rparr>"

section \<open>Facts the witnesses share\<close>

lemma demo_env_simps [simp]:
  "no_faults demo_env" "kv_fault demo_env = (\<lambda>_. None)" "sane_clock demo_env" "hasIdempotency demo_env"
  "hasPublisher demo_env" "clock demo_env n = demo_now" "hasCache demo_env" "hasMetrics demo_env"
  by (simp_all add: demo_env_def no_faults_def sane_clock_def demo_now_def)

lemma demo_ctx_simps [simp]:
  "c_tx demo_ctx = None" "request_ctx 10 demo_ctx" "tenant_ctx 10 demo_ctx"
  by (simp_all add: demo_ctx_def request_ctx_def tenant_ctx_def)

lemma demo_row_simps [simp]:
  "d_ID demo_row = 77" "d_TenantID demo_row = 10" "d_DelegatorID demo_row = 1" "d_DelegateID demo_row = 2"
  "d_Status demo_row = DelegationActive" "d_RecordVersion demo_row = 3" "d_EndsAt demo_row = None" "d_DeletedAt demo_row = None"
  by (simp_all add: demo_row_def)

lemma demo_rows_simps [simp]:
  "delegations (db (demo_rows rs)) = rs" "outbox (db (demo_rows rs)) = []" "up_log (demo_rows rs) = []"
  by (simp_all add: demo_rows_def demo_db_def demo_world_def)

lemma demo_ledger: "ledger 10 (db (demo_rows [demo_row])) 77 = Some demo_row"
  by (simp add: ledger_def liveRow_def)

lemma demo_up [simp]: "all_up demo_env"
  by (simp add: all_up_def) (simp add: demo_env_def)

lemma demo_inv [simp]:
  "db_inv (db demo_world)" "db_inv (db (demo_rows [demo_row]))" "db_inv (db (demo_rows [demo_expired]))"
  "db_inv (db (demo_rows [demo_scheduled]))" "db_inv (db (demo_rows [demo_due]))"
  by (simp_all add: demo_world_def demo_rows_def demo_db_def db_inv_def demo_row_def delegationRowOK_def chk_scope_id_def
      demo_expired_def demo_scheduled_def demo_due_def day_def second_def)

lemma not_isl_run:
  assumes "\<not> isl (fst p)"
  obtains a s where "p = (Inr a, s)"
  using assms by (metis prod.collapse sum.collapse(2))

lemma isl_run:
  assumes "isl (fst p)"
  obtains err s where "p = (Inl err, s)"
  using assms by (metis prod.collapse sum.collapse(1))

lemma demo_create: "\<not> isl (fst (DelegationService_Create demo_env demo_ctx 10 1 ''k'' demo_req demo_world))"
  by code_simp

end
