(* ===== verification/Wire.thy ===== *)
theory Wire
  imports Utf8
begin

text \<open>
  What the code uses of Go's \<^verbatim>\<open>strconv\<close>, \<^verbatim>\<open>strings\<close> and \<^verbatim>\<open>time\<close> on text from outside:
  decimal integers of 64 bits with their range errors, the test for blank text, and the strict
  RFC 3339 timestamps of JSON bodies. Fractions of a second are kept to the microsecond.
\<close>

section \<open>Decimal integers\<close>

datatype NumError = ErrSyntax | ErrRange

definition isDigit :: "char \<Rightarrow> bool" where
  "isDigit c \<longleftrightarrow> 48 \<le> (of_char c :: int) \<and> (of_char c :: int) \<le> 57"

definition digitVal :: "char \<Rightarrow> int" where "digitVal c = of_char c - 48"

definition digitChar :: "int \<Rightarrow> char" where "digitChar n = char_of (48 + n)"

text \<open>The digits left to right; a value beyond 64 bits stops the scan before the rest is looked at.\<close>

fun uintFrom :: "int \<Rightarrow> string \<Rightarrow> NumError + int" where
  "uintFrom n [] = Inr n"
| "uintFrom n (c # s) =
     (if \<not> isDigit c then Inl ErrSyntax
      else if 2 ^ 64 \<le> n * 10 + digitVal c then Inl ErrRange
      else uintFrom (n * 10 + digitVal c) s)"

definition ParseUint :: "string \<Rightarrow> NumError + int" where
  "ParseUint s = (if s = [] then Inl ErrSyntax else uintFrom 0 s)"

text \<open>\<open>strconv.ParseInt(s, 10, 64)\<close>: the value returned and whether there was an error.\<close>

definition ParseInt :: "string \<Rightarrow> int \<times> NumError option" where
  "ParseInt s =
     (let neg = (s \<noteq> [] \<and> hd s = CHR ''-'');
          digits = (if s \<noteq> [] \<and> (hd s = CHR ''-'' \<or> hd s = CHR ''+'') then tl s else s)
      in case ParseUint digits of
           Inl ErrSyntax \<Rightarrow> (0, Some ErrSyntax)
         | Inl ErrRange \<Rightarrow> (if neg then - (2 ^ 63) else 2 ^ 63 - 1, Some ErrRange)
         | Inr un \<Rightarrow>
             if \<not> neg \<and> 2 ^ 63 \<le> un then (2 ^ 63 - 1, Some ErrRange)
             else if neg \<and> 2 ^ 63 < un then (- (2 ^ 63), Some ErrRange)
             else (if neg then - un else un, None))"

function formatUint :: "int \<Rightarrow> string" where
  "formatUint n = (if n < 10 then [digitChar n] else formatUint (n div 10) @ [digitChar (n mod 10)])"
  by pat_completeness auto
termination
  by (relation "measure nat") auto

declare formatUint.simps [simp del]

definition FormatInt :: "int \<Rightarrow> string" where
  "FormatInt i = (if i < 0 then CHR ''-'' # formatUint (- i) else formatUint i)"

lemma of_char_char_of_int [simp]: "0 \<le> n \<Longrightarrow> n < 256 \<Longrightarrow> (of_char (char_of n) :: int) = n"
  by (simp add: of_char_of)

lemma digit_char [simp]:
  "0 \<le> n \<Longrightarrow> n < 10 \<Longrightarrow> isDigit (digitChar n)" "0 \<le> n \<Longrightarrow> n < 10 \<Longrightarrow> digitVal (digitChar n) = n"
  by (simp_all add: isDigit_def digitChar_def digitVal_def)

lemma uintFrom_snoc:
  "uintFrom n s = Inr m \<Longrightarrow> isDigit c \<Longrightarrow> m * 10 + digitVal c < 2 ^ 64 \<Longrightarrow> uintFrom n (s @ [c]) = Inr (m * 10 + digitVal c)"
  by (induction n s rule: uintFrom.induct) (auto split: if_splits)

lemma uintFrom_formatUint: "0 \<le> n \<Longrightarrow> n < 2 ^ 64 \<Longrightarrow> uintFrom 0 (formatUint n) = Inr n"
proof (induction n rule: formatUint.induct)
  case (1 n)
  show ?case
  proof (cases "n < 10")
    case True
    with 1(2) show ?thesis by (simp add: formatUint.simps)
  next
    case False
    with 1 have "uintFrom 0 (formatUint (n div 10)) = Inr (n div 10)" by simp
    from uintFrom_snoc [OF this, of "digitChar (n mod 10)"] False 1(3) show ?thesis
      by (subst formatUint.simps) simp
  qed
qed

lemma formatUint_nonempty [simp]: "formatUint n \<noteq> []"
  by (subst formatUint.simps) simp

lemma formatUint_digits: "0 \<le> n \<Longrightarrow> c \<in> set (formatUint n) \<Longrightarrow> isDigit c"
proof (induction n rule: formatUint.induct)
  case (1 n)
  then show ?case by (subst (asm) (2) formatUint.simps) (auto split: if_splits)
qed

lemma ParseInt_FormatInt:
  assumes "- (2 ^ 63) \<le> i" "i < 2 ^ 63"
  shows "ParseInt (FormatInt i) = (i, None)"
proof (cases "i < 0")
  case True
  with assms show ?thesis
    by (simp add: ParseInt_def FormatInt_def ParseUint_def uintFrom_formatUint)
next
  case False
  have "isDigit (hd (formatUint i))"
    by (rule formatUint_digits [of i]) (use False in simp_all)
  then have "hd (formatUint i) \<noteq> CHR ''-''" "hd (formatUint i) \<noteq> CHR ''+''"
    by (auto simp: isDigit_def)
  with False assms show ?thesis
    by (simp add: ParseInt_def FormatInt_def ParseUint_def uintFrom_formatUint)
qed

lemma uintFrom_nonneg: "0 \<le> n \<Longrightarrow> uintFrom n s = Inr m \<Longrightarrow> 0 \<le> m"
  by (induction n s rule: uintFrom.induct) (auto simp: isDigit_def digitVal_def split: if_splits)

lemma ParseUint_nonneg: "ParseUint s = Inr m \<Longrightarrow> 0 \<le> m"
  using uintFrom_nonneg [of 0 s m] by (auto simp: ParseUint_def split: if_splits)

lemma ParseInt_range: "- (2 ^ 63) \<le> fst (ParseInt s) \<and> fst (ParseInt s) < 2 ^ 63"
proof -
  define digits where "digits = (if s \<noteq> [] \<and> (hd s = CHR ''-'' \<or> hd s = CHR ''+'') then tl s else s)"
  show ?thesis
  proof (cases "ParseUint digits")
    case (Inl err)
    then show ?thesis by (cases err) (simp_all add: ParseInt_def Let_def digits_def [symmetric])
  next
    case (Inr un)
    with ParseUint_nonneg [OF Inr] show ?thesis by (simp add: ParseInt_def Let_def digits_def [symmetric])
  qed
qed

section \<open>Blank text\<close>

definition IsSpace :: "nat \<Rightarrow> bool" where
  "IsSpace r \<longleftrightarrow> 9 \<le> r \<and> r \<le> 13 \<or> 0x2000 \<le> r \<and> r \<le> 0x200A
     \<or> r \<in> {0x20, 0x85, 0xA0, 0x1680, 0x2028, 0x2029, 0x202F, 0x205F, 0x3000}"

text \<open>The runes of a byte string with the bytes of each, as \<open>range\<close> over a string visits them.\<close>

function runes :: "string \<Rightarrow> (nat \<times> string) list" where
  "runes s =
     (if s = [] then []
      else (fst (DecodeRuneInString s), take (snd (DecodeRuneInString s)) s) # runes (drop (snd (DecodeRuneInString s)) s))"
  by pat_completeness auto
termination
  by (relation "measure length") (use DecodeRune_width in \<open>auto\<close>)

declare runes.simps [simp del]

lemma runes_Nil [simp]: "runes [] = []"
  by (simp add: runes.simps)

lemma concat_runes: "concat (map snd (runes s)) = s"
proof (induction s rule: runes.induct)
  case (1 s)
  then show ?case by (cases "s = []") (simp, subst runes.simps, simp)
qed

definition TrimSpace :: "string \<Rightarrow> string" where
  "TrimSpace s =
     (let blank = (\<lambda>p. IsSpace (fst p))
      in concat (map snd (rev (dropWhile blank (rev (dropWhile blank (runes s)))))))"

text \<open>\<open>strings.TrimRight(s, "/")\<close>.\<close>

definition TrimRightSlash :: "string \<Rightarrow> string" where
  "TrimRightSlash s = rev (dropWhile (\<lambda>c. c = CHR ''/'') (rev s))"

section \<open>Timestamps\<close>

definition isLeap :: "int \<Rightarrow> bool" where
  "isLeap y \<longleftrightarrow> 4 dvd y \<and> (\<not> 100 dvd y \<or> 400 dvd y)"

definition daysIn :: "int \<Rightarrow> int \<Rightarrow> int" where
  "daysIn m y = (if m = 2 then (if isLeap y then 29 else 28) else if m \<in> {4, 6, 9, 11} then 30 else 31)"

text \<open>Days from 1970-01-01 to the given date of the proleptic Gregorian calendar.\<close>

definition daysBeforeYear :: "int \<Rightarrow> int" where
  "daysBeforeYear y =
     365 * y + (y + 3) div 4 - (y + 99) div 100 + (y + 399) div 400 - 719528"

definition dateDays :: "int \<Rightarrow> int \<Rightarrow> int \<Rightarrow> int" where
  "dateDays y m d = daysBeforeYear y + sum_list (map (\<lambda>k. daysIn k y) [1..m - 1]) + d - 1"

definition num :: "string \<Rightarrow> int option" where
  "num s = (if s \<noteq> [] \<and> list_all isDigit s then Some (fold (\<lambda>c n. n * 10 + digitVal c) s 0) else None)"

definition numIn :: "int \<Rightarrow> int \<Rightarrow> string \<Rightarrow> int option" where
  "numIn lo hi s = (case num s of Some n \<Rightarrow> if lo \<le> n \<and> n \<le> hi then Some n else None | None \<Rightarrow> None)"

text \<open>The fraction of a second: its first six digits.\<close>

definition fractionMicros :: "string \<Rightarrow> int" where
  "fractionMicros s = fold (\<lambda>c n. n * 10 + digitVal c) (take 6 (s @ ''000000'')) 0"

definition slice :: "nat \<Rightarrow> nat \<Rightarrow> string \<Rightarrow> string" where
  "slice i n s = take n (drop i s)"

text \<open>
  \<open>time.Parse(time.RFC3339, s)\<close>, and the stricter form a JSON body must have: two digits for the
  hour, a point before the fraction, a zone offset below 24 hours and 60 minutes. The zone is
  \<open>Z\<close>, or a sign, hours and minutes, in seconds east.
\<close>

definition parseZone :: "bool \<Rightarrow> string \<Rightarrow> int option" where
  "parseZone strict s =
     (if s = ''Z'' then Some 0
      else if length s = 6 \<and> (s ! 0 = CHR ''+'' \<or> s ! 0 = CHR ''-'') \<and> s ! 3 = CHR '':''
      then (case (numIn 0 (if strict then 23 else 24) (slice 1 2 s), numIn 0 (if strict then 59 else 60) (slice 4 2 s)) of
              (Some hr, Some mm) \<Rightarrow>
                Some (if s ! 0 = CHR ''-'' then - (hr * 3600 + mm * 60) else hr * 3600 + mm * 60)
            | _ \<Rightarrow> None)
      else None)"

definition parseDate :: "string \<Rightarrow> int option" where
  "parseDate s =
     (if length s \<noteq> 11 \<or> \<not> (s ! 4 = CHR ''-'' \<and> s ! 7 = CHR ''-'' \<and> s ! 10 = CHR ''T'') then None
      else case (num (slice 0 4 s), numIn 1 12 (slice 5 2 s), num (slice 8 2 s)) of
        (Some y, Some mo, Some d) \<Rightarrow> if d < 1 \<or> daysIn mo y < d then None else Some (dateDays y mo d)
      | _ \<Rightarrow> None)"

definition parseClock :: "string \<Rightarrow> string \<Rightarrow> int option" where
  "parseClock hour s =
     (if length s \<noteq> 6 \<or> \<not> (s ! 0 = CHR '':'' \<and> s ! 3 = CHR '':'') then None
      else case (numIn 0 23 hour, numIn 0 59 (slice 1 2 s), numIn 0 59 (slice 4 2 s)) of
        (Some h, Some mi, Some sec) \<Rightarrow> Some (h * 3600 + mi * 60 + sec)
      | _ \<Rightarrow> None)"

definition parseTimestamp :: "bool \<Rightarrow> string \<Rightarrow> time option" where
  "parseTimestamp strict s =
     (let s1 = drop 11 s;
          n = (if strict \<or> length s1 \<ge> 2 \<and> isDigit (s1 ! 1) then 2 else 1);
          s2 = drop n s1;
          rest = drop 6 s2;
          frac = (if rest \<noteq> [] \<and> (hd rest = CHR ''.'' \<or> \<not> strict \<and> hd rest = CHR '','')
                  then takeWhile isDigit (tl rest) else []);
          zone = (if frac = [] then rest else drop (Suc (length frac)) rest)
      in case (parseDate (take 11 s), parseClock (take n s1) (take 6 s2), parseZone strict zone) of
           (Some days, Some secs, Some off) \<Rightarrow>
             Some ((days * 86400 + secs - off) * 1000000 + fractionMicros frac)
         | _ \<Rightarrow> None)"

definition parseRFC3339 :: "string \<Rightarrow> time option" where
  "parseRFC3339 = parseTimestamp True"

lemma rfc3339_examples:
  "parseRFC3339 ''1970-01-01T00:00:00Z'' = Some 0"
  "parseRFC3339 ''2023-11-14T22:13:20Z'' = Some 1700000000000000"
  "parseRFC3339 ''2024-02-29T12:00:00.25+01:30'' = Some 1709202600250000"
  "parseRFC3339 ''2023-02-29T12:00:00Z'' = None"
  "parseTimestamp False ''1970-01-01T0:00:00,5Z'' = Some 500000"
  "parseRFC3339 ''1970-01-01T0:00:00Z'' = None"
  by code_simp+

text \<open>
  \<open>t.UTC().Format(time.RFC3339)\<close>. The year is searched upwards from a lower bound, the month
  within the year.
\<close>

lemma ceil_step:
  fixes k :: int
  assumes k: "0 < k" and j: "j = k - 1"
  shows "(y + 1 + j) div k = (y + j) div k + (if k dvd y then 1 else 0)"
proof (cases "k dvd y")
  case True
  then obtain q where q: "y = k * q" ..
  have "(y + j) div k = q"
    by (rule int_div_pos_eq [where r = j]) (use k q j in simp_all)
  moreover have "(y + 1 + j) div k = q + 1"
    by (rule int_div_pos_eq [where r = 0]) (use k q j in \<open>simp_all add: algebra_simps\<close>)
  ultimately show ?thesis using True by simp
next
  case False
  have y: "y = k * (y div k) + y mod k" by simp
  have "0 < y mod k"
    using False k by (metis dvd_eq_mod_eq_0 less_le pos_mod_sign)
  moreover have "y mod k < k" using k by simp
  ultimately have "(y + j) div k = y div k + 1" "(y + 1 + j) div k = y div k + 1"
    by (intro int_div_pos_eq [where r = "y mod k - 1"] int_div_pos_eq [where r = "y mod k"]; use y j in \<open>simp add: algebra_simps\<close>)+
  with False show ?thesis by simp
qed

lemma year_sum:
  fixes A A' B B' C C' :: int
  shows "A' = A + a \<Longrightarrow> B' = B + b \<Longrightarrow> C' = C + c \<Longrightarrow>
    365 * (y + 1) + A' - B' + C' - 719528 = 365 * y + A - B + C - 719528 + (365 + a - b + c)"
  by simp

lemma leap_count:
  "(c \<longrightarrow> b) \<Longrightarrow> (b \<longrightarrow> a) \<Longrightarrow> (if a \<and> (\<not> b \<or> c) then 366 else 365) =
     (365 + (if a then 1 else 0) - (if b then 1 else 0) + (if c then 1 else 0) :: int)"
  by (cases a; cases b; cases c) simp_all

lemma daysBeforeYear_Suc: "daysBeforeYear (y + 1) = daysBeforeYear y + (if isLeap y then 366 else 365)"
proof -
  have "(4 :: int) dvd 100" "(100 :: int) dvd 400" by simp_all
  then have "100 dvd y \<longrightarrow> 4 dvd y" "400 dvd y \<longrightarrow> 100 dvd y" by (blast intro: dvd_trans)+
  then have leap: "(if isLeap y then 366 else 365) =
      (365 + (if 4 dvd y then 1 else 0) - (if 100 dvd y then 1 else 0) + (if 400 dvd y then 1 else 0) :: int)"
    unfolding isLeap_def by (intro leap_count)
  show ?thesis
    unfolding daysBeforeYear_def leap by (rule year_sum; rule ceil_step; simp)
qed

lemma daysBeforeYear_less: "daysBeforeYear y < daysBeforeYear (y + 1)"
  by (simp add: daysBeforeYear_Suc)

function yearFrom :: "int \<Rightarrow> int \<Rightarrow> int" where
  "yearFrom y d = (if daysBeforeYear (y + 1) \<le> d then yearFrom (y + 1) d else y)"
  by pat_completeness auto
termination
proof (relation "measure (\<lambda>(y, d). nat (d - daysBeforeYear y))")
  fix y d :: int
  assume "daysBeforeYear (y + 1) \<le> d"
  with daysBeforeYear_less [of y] show "((y + 1, d), y, d) \<in> measure (\<lambda>(y, d). nat (d - daysBeforeYear y))"
    by simp
qed simp

declare yearFrom.simps [simp del]

definition yearOf :: "int \<Rightarrow> int" where
  "yearOf d = yearFrom ((d + 719528) div 366) d"

function monthFrom :: "int \<Rightarrow> int \<Rightarrow> int \<Rightarrow> int \<times> int" where
  "monthFrom m y r = (if m < 12 \<and> daysIn m y \<le> r then monthFrom (m + 1) y (r - daysIn m y) else (m, r + 1))"
  by pat_completeness auto
termination
  by (relation "measure (\<lambda>(m, y, r). nat (12 - m))") auto

declare monthFrom.simps [simp del]

definition pad2 :: "int \<Rightarrow> string" where
  "pad2 n = [digitChar (n div 10), digitChar (n mod 10)]"

definition yearText :: "int \<Rightarrow> string" where
  "yearText y = (if y < 0 then CHR ''-'' # pad2 (- y div 100) @ pad2 (- y mod 100)
     else if y \<le> 9999 then pad2 (y div 100) @ pad2 (y mod 100) else FormatInt y)"

definition formatRFC3339 :: "time \<Rightarrow> string" where
  "formatRFC3339 t =
     (let secs = t div 1000000; d = secs div 86400; s = secs mod 86400; y = yearOf d;
          md = monthFrom 1 y (d - daysBeforeYear y)
      in yearText y @ ''-'' @ pad2 (fst md) @ ''-'' @ pad2 (snd md) @ ''T''
           @ pad2 (s div 3600) @ '':'' @ pad2 (s mod 3600 div 60) @ '':'' @ pad2 (s mod 60) @ ''Z'')"

lemma formatRFC3339_example: "formatRFC3339 1700000000000000 = ''2023-11-14T22:13:20Z''"
  by code_simp

section \<open>Timestamps read back\<close>

lemma yearFrom_correct:
  "daysBeforeYear y \<le> d \<Longrightarrow> daysBeforeYear (yearFrom y d) \<le> d \<and> d < daysBeforeYear (yearFrom y d + 1) \<and> y \<le> yearFrom y d"
proof (induction y d rule: yearFrom.induct)
  case (1 y d)
  show ?case
  proof (cases "daysBeforeYear (y + 1) \<le> d")
    case True
    with 1 show ?thesis by (subst (1 2 3) yearFrom.simps) auto
  next
    case False
    with 1(2) show ?thesis by (simp add: yearFrom.simps)
  qed
qed

lemma daysBeforeYear_upper:
  assumes "0 \<le> y"
  shows "daysBeforeYear y \<le> 366 * y - 719528"
proof -
  have "(y + 3) div 4 \<le> y" using assms by presburger
  moreover have "(y + 399) div 400 \<le> (y + 99) div 100"
  proof -
    have "400 * ((y + 399) div 400) \<le> y + 399" by simp
    moreover have "y \<le> 100 * ((y + 99) div 100)" by presburger
    moreover have "0 \<le> (y + 99) div 100" using assms by simp
    ultimately show ?thesis by linarith
  qed
  ultimately show ?thesis unfolding daysBeforeYear_def by linarith
qed

lemma daysBeforeYear_mono: "y \<le> z \<Longrightarrow> daysBeforeYear y \<le> daysBeforeYear z"
proof (induction z rule: int_ge_induct)
  case (step z)
  with daysBeforeYear_less [of z] show ?case by simp
qed simp

lemma yearOf_correct:
  assumes "daysBeforeYear 0 \<le> d" "d < daysBeforeYear 10000"
  shows "daysBeforeYear (yearOf d) \<le> d" "d < daysBeforeYear (yearOf d + 1)" "0 \<le> yearOf d" "yearOf d \<le> 9999"
proof -
  let ?y = "(d + 719528) div 366"
  have "daysBeforeYear 0 = - 719528" by (simp add: daysBeforeYear_def)
  with assms(1) have y: "0 \<le> ?y" by simp
  have "366 * ?y \<le> d + 719528" by simp
  with daysBeforeYear_upper [OF y] have "daysBeforeYear ?y \<le> d" by linarith
  from yearFrom_correct [OF this] y
  show *: "daysBeforeYear (yearOf d) \<le> d" "d < daysBeforeYear (yearOf d + 1)" "0 \<le> yearOf d"
    by (auto simp: yearOf_def)
  show "yearOf d \<le> 9999"
  proof (rule ccontr)
    assume "\<not> yearOf d \<le> 9999"
    then have "daysBeforeYear 10000 \<le> daysBeforeYear (yearOf d)" by (intro daysBeforeYear_mono) simp
    with * assms(2) show False by simp
  qed
qed

lemma daysIn_pos [simp]: "0 < daysIn m y"
  by (simp add: daysIn_def)

lemma monthFrom_correct:
  assumes "1 \<le> m" "m \<le> 12" "0 \<le> r" "r < sum_list (map (\<lambda>k. daysIn k y) [m..12])" "monthFrom m y r = (m', d')"
  shows "m \<le> m' \<and> m' \<le> 12 \<and> 1 \<le> d' \<and> d' \<le> daysIn m' y \<and> sum_list (map (\<lambda>k. daysIn k y) [m..m' - 1]) + d' - 1 = r"
  using assms
proof (induction m y r rule: monthFrom.induct)
  case (1 m y r)
  have sum: "sum_list (map (\<lambda>k. daysIn k y) [m..12]) = daysIn m y + sum_list (map (\<lambda>k. daysIn k y) [m + 1..12])"
    using 1(3) by (simp add: upto_rec1)
  show ?case
  proof (cases "m < 12 \<and> daysIn m y \<le> r")
    case True
    with 1(6) have "monthFrom (m + 1) y (r - daysIn m y) = (m', d')" by (simp add: monthFrom.simps [of m])
    with 1(1) [OF True] 1(2-5) True sum
    have "m + 1 \<le> m' \<and> m' \<le> 12 \<and> 1 \<le> d' \<and> d' \<le> daysIn m' y
        \<and> sum_list (map (\<lambda>k. daysIn k y) [m + 1..m' - 1]) + d' - 1 = r - daysIn m y"
      by auto
    then show ?thesis by (auto simp: upto_rec1 [of m])
  next
    case False
    then have "m' = m" "d' = r + 1" using 1(6) by (simp_all add: monthFrom.simps [of m] split: if_splits)
    moreover have "r < daysIn m y"
    proof (cases "m < 12")
      case False
      with 1(3) have "m = 12" by simp
      with 1(5) show ?thesis by (simp add: upto_rec1)
    qed (use False in simp)
    ultimately show ?thesis using 1(3,4) by simp
  qed
qed

lemma year_length: "sum_list (map (\<lambda>k. daysIn k y) [1..12]) = daysBeforeYear (y + 1) - daysBeforeYear y"
  by (simp add: daysBeforeYear_Suc upto_rec1 daysIn_def)

lemma pad2_digits: "0 \<le> n \<Longrightarrow> n < 100 \<Longrightarrow> \<exists>a b. pad2 n = [a, b] \<and> num [a, b] = Some n"
  by (auto simp: pad2_def num_def)

lemma yearText_digits: "0 \<le> y \<Longrightarrow> y \<le> 9999 \<Longrightarrow> \<exists>a b c d. yearText y = [a, b, c, d] \<and> num [a, b, c, d] = Some y"
proof -
  assume y: "0 \<le> y" "y \<le> 9999"
  have "(((y div 100 div 10) * 10 + y div 100 mod 10) * 10 + y mod 100 div 10) * 10 + y mod 100 mod 10 = y"
    using y by presburger
  with y show ?thesis by (auto simp: yearText_def pad2_def num_def algebra_simps)
qed

lemma hms_sum: "(a :: int) * 60 + b = r \<Longrightarrow> q * 3600 + r = s \<Longrightarrow> q * 3600 + a * 60 + b = s"
  by simp

lemma clock_parts:
  fixes s :: int
  assumes "0 \<le> s" "s < 86400"
  obtains h mi sec where "s div 3600 = h" "s mod 3600 div 60 = mi" "s mod 60 = sec"
    "0 \<le> h" "h \<le> 23" "0 \<le> mi" "mi \<le> 59" "0 \<le> sec" "sec \<le> 59" "h * 3600 + mi * 60 + sec = s"
proof -
  have h: "s div 3600 \<le> 23" using zdiv_mono1 [of s 86399 3600] assms by simp
  have "s mod 3600 < 3600" by (rule pos_mod_bound) simp
  then have m: "s mod 3600 div 60 \<le> 59" using zdiv_mono1 [of "s mod 3600" 3599 60] by simp
  have "0 \<le> s mod 3600" by (rule pos_mod_sign) simp
  then have m0: "0 \<le> s mod 3600 div 60" by (rule pos_imp_zdiv_nonneg_iff [THEN iffD2, rotated]) simp
  have h0: "0 \<le> s div 3600" by (rule pos_imp_zdiv_nonneg_iff [THEN iffD2, rotated]) (rule assms, simp)
  have "s mod 60 < 60" by (rule pos_mod_bound) simp
  then have s1: "s mod 60 \<le> 59" by simp
  have s0: "0 \<le> s mod 60" by (rule pos_mod_sign) simp
  have "s mod 3600 mod 60 = s mod 60" by (rule mod_mod_cancel) simp
  with div_mult_mod_eq [of "s mod 3600" 60] have "s mod 3600 div 60 * 60 + s mod 60 = s mod 3600" by metis
  from hms_sum [OF this div_mult_mod_eq] h m m0 h0 s0 s1 show thesis
    by (intro that [OF refl refl refl])
qed

text \<open>The times RFC 3339 can write: the years 0 to 9999.\<close>

definition wireTime :: "time \<Rightarrow> bool" where
  "wireTime t \<longleftrightarrow> daysBeforeYear 0 \<le> t div 86400000000 \<and> t div 86400000000 < daysBeforeYear 10000"

lemma parse_format:
  assumes "wireTime t"
  shows "parseRFC3339 (formatRFC3339 t) = Some (t - t mod 1000000)"
proof -
  define d where "d = t div 1000000 div 86400"
  define s where "s = t div 1000000 mod 86400"
  define y where "y = yearOf d"
  obtain m dd where md: "monthFrom 1 y (d - daysBeforeYear y) = (m, dd)" by force
  have "t div 86400000000 = d" by (simp add: d_def zdiv_zmult2_eq [symmetric])
  with assms have y: "daysBeforeYear y \<le> d" "d < daysBeforeYear (y + 1)" "0 \<le> y" "y \<le> 9999"
    using yearOf_correct [of d] by (simp_all add: y_def wireTime_def)
  with monthFrom_correct [OF _ _ _ _ md] year_length [of y]
  have m: "1 \<le> m" "m \<le> 12" "1 \<le> dd" "dd \<le> daysIn m y" "dateDays y m dd = d"
    by (auto simp: dateDays_def)
  have "daysIn m y < 100" by (simp add: daysIn_def)
  then obtain d1 d2 where dd: "pad2 dd = [d1, d2]" "num [d1, d2] = Some dd"
    using pad2_digits [of dd] m by auto
  obtain m1 m2 where mm: "pad2 m = [m1, m2]" "num [m1, m2] = Some m"
    using pad2_digits [of m] m by auto
  obtain y1 y2 y3 y4 where yy: "yearText y = [y1, y2, y3, y4]" "num [y1, y2, y3, y4] = Some y"
    using yearText_digits [of y] y by auto
  have s: "0 \<le> s" "s < 86400" by (simp_all add: s_def)
  from s obtain h mi sec where hms: "s div 3600 = h" "s mod 3600 div 60 = mi" "s mod 60 = sec"
    "0 \<le> h" "h \<le> 23" "0 \<le> mi" "mi \<le> 59" "0 \<le> sec" "sec \<le> 59" "h * 3600 + mi * 60 + sec = s"
    by (rule clock_parts)
  obtain h1 h2 where hh: "pad2 h = [h1, h2]" "num [h1, h2] = Some h"
    using pad2_digits [of h] hms(4,5) by auto
  obtain i1 i2 where ii: "pad2 mi = [i1, i2]" "num [i1, i2] = Some mi"
    using pad2_digits [of mi] hms(6,7) by auto
  obtain e1 e2 where ee: "pad2 sec = [e1, e2]" "num [e1, e2] = Some sec"
    using pad2_digits [of sec] hms(8,9) by auto
  have form: "formatRFC3339 t = [y1, y2, y3, y4] @ ''-'' @ [m1, m2] @ ''-'' @ [d1, d2] @ ''T''
      @ [h1, h2] @ '':'' @ [i1, i2] @ '':'' @ [e1, e2] @ ''Z''"
    unfolding formatRFC3339_def Let_def d_def [symmetric] s_def [symmetric] y_def [symmetric] md
    by (simp add: yy mm dd hms(1-3) hh ii ee)
  have date: "parseDate (take 11 (formatRFC3339 t)) = Some d"
    using m by (simp add: form parseDate_def slice_def numIn_def yy(2) mm(2) dd(2))
  have clock: "parseClock [h1, h2] [CHR '':'', i1, i2, CHR '':'', e1, e2] = Some s"
    using hms(4-10) by (simp add: parseClock_def slice_def numIn_def hh(2) ii(2) ee(2))
  have "d * 86400 + s = t div 1000000" by (simp add: d_def s_def)
  then have "(d * 86400 + s) * 1000000 = t - t mod 1000000" by (simp add: minus_mod_eq_mult_div)
  with date clock show ?thesis
    unfolding parseRFC3339_def parseTimestamp_def
    by (simp add: form Let_def parseZone_def fractionMicros_def digitVal_def)
qed

end
