(* ===== verification/HttpBase.thy ===== *)
theory HttpBase
  imports Repositories Json Wire DelegationService Jobs
begin

text \<open>
  The base of \<^verbatim>\<open>src/internal/adapter/inbound/http\<close>: requests and responses, the error
  mapping of \<^verbatim>\<open>errors.go\<close>, the wire shapes of \<^verbatim>\<open>dto.go\<close>, the middleware, and the
  authorization check of \<^verbatim>\<open>authz.go\<close>.

  A request is what gin hands a handler: the route it matched, path parameters, query, headers
  and body. gin and gincommon are not part of the repository; the record \<open>Gin\<close> holds what the
  handlers obtain from them (the identity established by the protected middlewares, trace and
  request ids). A step of a handler that writes an error response and returns is \<open>Inl\<close> of that
  response. Log lines and the 30 second timeout middleware are left out.
\<close>

section \<open>Requests\<close>

text \<open>
  The body: its length in bytes, the value of the whole body for \<open>json.Unmarshal\<close>, and the
  first value with the offset where it ends, which is all a \<open>json.Decoder\<close> reads.
\<close>

record Body =
  b_Length :: nat
  b_Whole :: raw_json
  b_First :: "(json \<times> nat) option"

record Request =
  rq_Params :: "(string \<times> string) list"
  rq_Query :: "(string \<times> string) list"
  rq_Headers :: "(string \<times> string) list"
  rq_Body :: Body

definition valueOf :: "string \<Rightarrow> (string \<times> string) list \<Rightarrow> string" where
  "valueOf k kvs = (case map_of kvs k of Some v \<Rightarrow> v | None \<Rightarrow> '''')"

text \<open>\<open>http.MaxBytesReader(c.Writer, c.Request.Body, 1<<20)\<close>: reading past the cap is an error.\<close>

definition maxBodyBytes :: int where "maxBodyBytes = 2 ^ 20"

definition ReadAll :: "Request \<Rightarrow> raw_json option" where
  "ReadAll rq = (if int (b_Length (rq_Body rq)) \<le> maxBodyBytes then Some (b_Whole (rq_Body rq)) else None)"

text \<open>\<open>c.ShouldBindJSON\<close> decodes the first value; an empty or broken body is an error.\<close>

definition firstValue :: "Request \<Rightarrow> raw_json" where
  "firstValue rq =
     (case b_First (rq_Body rq) of
        Some (v, off) \<Rightarrow> if int off \<le> maxBodyBytes then Some v else None
      | None \<Rightarrow> None)"

section \<open>Wire shapes\<close>

record DelegationCreateRequest =
  cr_DelegateID :: uuid
  cr_Scope :: string
  cr_ScopeID :: "uuid option"
  cr_StartsAt :: "time option"
  cr_EndsAt :: "time option"
  cr_OOONote :: string

record DelegationResponse =
  dr_DelegationID :: uuid
  dr_DelegatorID :: uuid
  dr_DelegateID :: uuid
  dr_Scope :: string
  dr_ScopeID :: "uuid option"
  dr_StartsAt :: time
  dr_EndsAt :: "time option"
  dr_Status :: string
  dr_RecordVersion :: int
  dr_ReviewDueAt :: "time option"
  dr_ReviewLastWarnedBucket :: "int option"
  dr_ReviewWindowDays :: "int option"

fun statusString :: "DelegationStatus \<Rightarrow> string" where
  "statusString StatusZero = ''''"
| "statusString DelegationScheduled = ''scheduled''"
| "statusString DelegationActive = ''active''"
| "statusString DelegationEnded = ''ended''"
| "statusString DelegationCancelled = ''cancelled''"

definition DelegationToResponse :: "Delegation \<Rightarrow> DelegationResponse" where
  "DelegationToResponse d =
     \<lparr>dr_DelegationID = d_ID d, dr_DelegatorID = d_DelegatorID d, dr_DelegateID = d_DelegateID d,
      dr_Scope = scopeString (d_Scope d), dr_ScopeID = d_ScopeID d, dr_StartsAt = d_StartsAt d,
      dr_EndsAt = d_EndsAt d, dr_Status = statusString (d_Status d), dr_RecordVersion = d_RecordVersion d,
      dr_ReviewDueAt = d_ReviewDueAt d, dr_ReviewLastWarnedBucket = d_ReviewLastWarnedBucket d,
      dr_ReviewWindowDays = d_ReviewWindowDays d\<rparr>"

record DelegationExtendRequest =
  xr_ExtendDays :: "int option"
  xr_RecordVersion :: int

record DelegationExtendResponse =
  xe_DelegationID :: uuid
  xe_ReviewDueAt :: "time option"
  xe_ReviewLastWarnedBucket :: "int option"
  xe_RecordVersion :: int

definition DelegationToExtendResponse :: "Delegation \<Rightarrow> DelegationExtendResponse" where
  "DelegationToExtendResponse d =
     \<lparr>xe_DelegationID = d_ID d, xe_ReviewDueAt = d_ReviewDueAt d,
      xe_ReviewLastWarnedBucket = d_ReviewLastWarnedBucket d, xe_RecordVersion = d_RecordVersion d\<rparr>"

record DelegationReassignRequest =
  rr_NewDelegateID :: "uuid option"
  rr_Scope :: "string option"
  rr_ScopeID :: "uuid option"
  rr_EndsAt :: "time option"
  rr_Reason :: "string option"
  rr_RecordVersion :: int

record SettingsResponse =
  se_MaxDurationDays :: int
  se_ReviewWindowDays :: int
  se_RecordVersion :: int

definition SettingsToResponse :: "DelegationTenantSettings \<Rightarrow> SettingsResponse" where
  "SettingsToResponse s =
     \<lparr>se_MaxDurationDays = s_MaxDurationDays s, se_ReviewWindowDays = s_ReviewWindowDays s,
      se_RecordVersion = s_RecordVersion s\<rparr>"

record SettingsSetRequest =
  sq_MaxDurationDays :: int
  sq_ReviewWindowDays :: int

record DeptDelegateResponse =
  dd_Found :: bool
  dd_DelegationID :: "uuid option"
  dd_DelegatorID :: "uuid option"
  dd_DelegateID :: "uuid option"

record ActiveDelegationView =
  av_DelegationID :: uuid
  av_DelegatorID :: uuid
  av_DelegateID :: uuid
  av_Scope :: string
  av_ScopeID :: "uuid option"
  av_EndsAt :: "time option"

definition DelegationToActiveView :: "Delegation \<Rightarrow> ActiveDelegationView" where
  "DelegationToActiveView d =
     \<lparr>av_DelegationID = d_ID d, av_DelegatorID = d_DelegatorID d, av_DelegateID = d_DelegateID d,
      av_Scope = scopeString (d_Scope d), av_ScopeID = d_ScopeID d, av_EndsAt = d_EndsAt d\<rparr>"

record ExpiryRunResponse =
  xp_Attempted :: int
  xp_Succeeded :: int
  xp_Failed :: int

record ReviewSweepRunResponse =
  rs_Warned3d :: int
  rs_Warned2d :: int
  rs_Warned1d :: int
  rs_Expired :: int
  rs_Deferred :: int
  rs_Failed :: int

text \<open>The error envelope; without details it is gincommon's plain one.\<close>

record ErrorResponse =
  er_Error :: string
  er_Status :: int
  er_TraceID :: string
  er_RequestID :: string
  er_Details :: "(string \<times> int) list"

section \<open>Responses\<close>

text \<open>What pgcommon reports of a pool; the utilization as it is printed.\<close>

record HealthStatus =
  hs_Healthy :: bool
  hs_TotalConns :: int
  hs_IdleConns :: int
  hs_AcquiredConns :: int
  hs_MaxConns :: int
  hs_Utilization :: string

datatype CheckValue =
  CheckText string
| CheckPool "(string \<times> int) list" string

datatype ResponseBody =
  BodyError ErrorResponse
| BodyDelegation DelegationResponse
| BodyList "DelegationResponse list"
| BodyExtend DelegationExtendResponse
| BodySettings SettingsResponse
| BodyDept DeptDelegateResponse
| BodyActive "ActiveDelegationView list"
| BodyExpiry ExpiryRunResponse
| BodyReview ReviewSweepRunResponse
| BodyChecks string "(string \<times> CheckValue) list"
| BodyDocs string
| BodyNone

record Response =
  rp_Status :: int
  rp_Body :: ResponseBody

definition JSON :: "int \<Rightarrow> ResponseBody \<Rightarrow> Response" where
  "JSON status body = \<lparr>rp_Status = status, rp_Body = body\<rparr>"

text \<open>The identity gincommon establishes from the gateway's headers.\<close>

record Identity =
  pid_UserID :: string
  pid_TenantID :: string
  pid_Roles :: "string list"
  pid_ClientIP :: string

record Gin =
  g_Protected :: "Request \<Rightarrow> Response + Identity option"   \<comment> \<open>answered by the middleware, or passed on\<close>
  g_TraceID :: "Request \<Rightarrow> string"
  g_RequestID :: "Request \<Rightarrow> string"

type_synonym 'a handled = "(Response, 'a, world) outcome"

section \<open>Error mapping\<close>

definition errorStatusByCode :: "(string \<times> int) list" where
  "errorStatusByCode =
     [(sentinelCode ErrValidation, 400), (sentinelCode ErrMissingIdentity, 401),
      (sentinelCode ErrInsufficientRole, 403), (sentinelCode ErrOptimisticLockConflict, 409),
      (sentinelCode ErrIdempotencyKeyInFlight, 409),
      (sentinelCode ErrInvalidDelegationScope, 400), (sentinelCode ErrInvalidDelegationMaxDurationDays, 400),
      (sentinelCode ErrInvalidDelegationReviewWindow, 400),
      (sentinelCode ErrDelegationNotFound, 404),
      (sentinelCode ErrScopeIDRequired, 422), (sentinelCode ErrInvalidScopeID, 422),
      (sentinelCode ErrSelfDelegation, 422), (sentinelCode ErrInvalidDelegate, 422),
      (sentinelCode ErrDelegateUnavailable, 422), (sentinelCode ErrReasonTooLong, 422),
      (sentinelCode ErrDelegationWindowInverted, 422), (sentinelCode ErrDelegationWindowTooLong, 422),
      (sentinelCode ErrDelegationStartInPast, 422), (sentinelCode ErrDelegationStartTooFarFuture, 422),
      (sentinelCode ErrNotReviewTracked, 422), (sentinelCode ErrExtendDaysOutOfRange, 422),
      (sentinelCode ErrOrgMembershipUnavailable, 503), (sentinelCode ErrUserProfileUnavailable, 503),
      (sentinelCode ErrCatalogAdminUnavailable, 503), (sentinelCode ErrDBUnavailable, 503)]"

definition writeErrorWithDetails :: "Gin \<Rightarrow> Request \<Rightarrow> int \<Rightarrow> string \<Rightarrow> (string \<times> int) list \<Rightarrow> Response" where
  "writeErrorWithDetails g rq status code details =
     JSON status (BodyError \<lparr>er_Error = code, er_Status = status, er_TraceID = g_TraceID g rq,
       er_RequestID = g_RequestID g rq, er_Details = details\<rparr>)"

definition writeError :: "Gin \<Rightarrow> Request \<Rightarrow> int \<Rightarrow> string \<Rightarrow> Response" where
  "writeError g rq status code = writeErrorWithDetails g rq status code []"

fun HandleError :: "Gin \<Rightarrow> Request \<Rightarrow> error \<Rightarrow> Response" where
  "HandleError g rq (Domain derr) =
     (let status = (case map_of errorStatusByCode (e_Code derr) of Some st \<Rightarrow> st | None \<Rightarrow> 500)
      in writeErrorWithDetails g rq status (e_Code derr) (e_Details derr))"
| "HandleError g rq (Raw r) =
     (if IsConnectionException r \<or> IsInsufficientResources r \<or> isOperatorOrSystemErrorSQLState r
      then writeError g rq 503 (sentinelCode ErrDBUnavailable)
      else writeError g rq 500 ''internal_server_error'')"

text \<open>\<open>if err != nil { HandleError(c, err); return }\<close>.\<close>

definition answering :: "Gin \<Rightarrow> Request \<Rightarrow> (error, 'a, world) outcome \<Rightarrow> 'a handled" where
  "answering g rq p = (case p of (Inl err, w) \<Rightarrow> (Inl (HandleError g rq err), w) | (Inr a, w) \<Rightarrow> (Inr a, w))"

definition requiring :: "Gin \<Rightarrow> Request \<Rightarrow> error \<Rightarrow> 'a option \<Rightarrow> world \<Rightarrow> 'a handled" where
  "requiring g rq err x w = (case x of Some a \<Rightarrow> (Inr a, w) | None \<Rightarrow> (Inl (HandleError g rq err), w))"

section \<open>Identity and authorization\<close>

definition missingIdentity :: error where
  "missingIdentity = domainErr ErrMissingIdentity ''missing identity headers''"

definition identityOrError :: "Gin \<Rightarrow> Request \<Rightarrow> ctx \<Rightarrow> world \<Rightarrow> requestctx handled" where
  "identityOrError g rq c = requiring g rq missingIdentity (c_rc c)"

definition parseUUIDParam :: "env \<Rightarrow> Gin \<Rightarrow> Request \<Rightarrow> string \<Rightarrow> world \<Rightarrow> uuid handled" where
  "parseUUIDParam e g rq name =
     requiring g rq (domainErr ErrValidation (name @ '' must be a valid UUID'')) (uuid_Parse e (valueOf name (rq_Params rq)))"

text \<open>\<open>uuid.Parse(rc.TenantID)\<close> and \<open>uuid.Parse(rc.UserID)\<close> of the handlers.\<close>

definition tenantOrError :: "env \<Rightarrow> Gin \<Rightarrow> Request \<Rightarrow> requestctx \<Rightarrow> world \<Rightarrow> uuid handled" where
  "tenantOrError e g rq rc =
     requiring g rq (domainErr ErrMissingIdentity ''invalid tenant identity'') (uuid_Parse e (rc_TenantID rc))"

definition userOrError :: "env \<Rightarrow> Gin \<Rightarrow> Request \<Rightarrow> requestctx \<Rightarrow> world \<Rightarrow> uuid handled" where
  "userOrError e g rq rc =
     requiring g rq (domainErr ErrMissingIdentity ''invalid user identity'') (uuid_Parse e (rc_UserID rc))"

definition selfOrAdmin :: "env \<Rightarrow> requestctx \<Rightarrow> Delegation \<Rightarrow> bool" where
  "selfOrAdmin e rc d \<longleftrightarrow> uuid_String e (d_DelegatorID d) = rc_UserID rc \<or> IsAdmin rc"

definition requireSelfOrAdmin :: "env \<Rightarrow> Gin \<Rightarrow> Request \<Rightarrow> ctx \<Rightarrow> uuid \<Rightarrow> uuid \<Rightarrow> world \<Rightarrow> Delegation handled" where
  "requireSelfOrAdmin e g rq c tenantID did w =
     bind_res (requiring g rq missingIdentity (c_rc c) w) (\<lambda>rc w.
     bind_res (answering g rq (DelegationRepository_FindByID e AppPool c tenantID did w)) (\<lambda>d w.
       if \<not> selfOrAdmin e rc d
       then (Inl (HandleError g rq
               (domainErr ErrInsufficientRole ''caller is neither the delegator nor a tenant admin'')), w)
       else (Inr d, w)))"

section \<open>Middleware\<close>

definition maxIdempotencyKeyLen :: nat where "maxIdempotencyKeyLen = 1024"

definition ContextMiddleware :: "Request \<Rightarrow> Identity option \<Rightarrow> ctx \<Rightarrow> ctx" where
  "ContextMiddleware rq prc c =
     (case prc of
        None \<Rightarrow> c
      | Some p \<Rightarrow> c\<lparr>c_rc := Some \<lparr>rc_UserID = pid_UserID p, rc_TenantID = pid_TenantID p, rc_Roles = pid_Roles p,
                      rc_ClientIP = pid_ClientIP p, rc_UserAgent = valueOf ''User-Agent'' (rq_Headers rq)\<rparr>\<rparr>)"

definition RequireAnyRole :: "Gin \<Rightarrow> Request \<Rightarrow> string list \<Rightarrow> ctx \<Rightarrow> world \<Rightarrow> unit handled" where
  "RequireAnyRole g rq roles c w =
     bind_res (requiring g rq missingIdentity (c_rc c) w) (\<lambda>rc w.
       if list_ex (HasRole rc) roles then (Inr (), w)
       else (Inl (HandleError g rq (domainErr ErrInsufficientRole ''caller lacks a required role'')), w))"

definition requireIdempotencyKey :: "Gin \<Rightarrow> Request \<Rightarrow> world \<Rightarrow> unit handled" where
  "requireIdempotencyKey g rq w =
     (let key = valueOf ''Idempotency-Key'' (rq_Headers rq)
      in if TrimSpace key = [] \<or> length key > maxIdempotencyKeyLen
         then (Inl (HandleError g rq (domainErr ErrValidation ''Idempotency-Key header is required'')), w)
         else (Inr (), w))"

type_synonym BindTenantGUC = "ctx \<Rightarrow> string \<Rightarrow> string \<Rightarrow> ctx"

definition tenantGUCMiddleware :: "BindTenantGUC \<Rightarrow> ctx \<Rightarrow> ctx" where
  "tenantGUCMiddleware bind c =
     (case c_rc c of Some rc \<Rightarrow> bind c (rc_TenantID rc) (rc_UserID rc) | None \<Rightarrow> c)"

text \<open>The binding \<^verbatim>\<open>cmd/server/main.go\<close> wires in: an unparsable tenant leaves the context as it is.\<close>

definition bindTenantGUC :: "env \<Rightarrow> BindTenantGUC" where
  "bindTenantGUC e c tenantID userID =
     (case uuid_Parse e tenantID of Some t \<Rightarrow> WithTenantGUC c t | None \<Rightarrow> c)"

section \<open>Decoding request bodies\<close>

definition dec_time :: "json \<Rightarrow> time option" where
  "dec_time = dec_text parseRFC3339"

definition bindCreate :: "env \<Rightarrow> raw_json \<Rightarrow> DelegationCreateRequest option" where
  "bindCreate e body =
     (case members body of
        None \<Rightarrow> None
      | Some ms \<Rightarrow>
          (case (field_from ''delegate_id'' (dec_text (uuid_Parse e)) 0 ms, field_from ''scope'' dec_string '''' ms,
                 pointer_from ''scope_id'' (dec_text (uuid_Parse e)) None ms, pointer_from ''starts_at'' dec_time None ms,
                 pointer_from ''ends_at'' dec_time None ms, field_from ''ooo_note'' dec_string '''' ms) of
             (Some d, Some s, Some si, Some st, Some en, Some note) \<Rightarrow>
               Some \<lparr>cr_DelegateID = d, cr_Scope = s, cr_ScopeID = si, cr_StartsAt = st, cr_EndsAt = en, cr_OOONote = note\<rparr>
           | _ \<Rightarrow> None))"

definition bindExtend :: "raw_json \<Rightarrow> DelegationExtendRequest option" where
  "bindExtend body =
     (case members body of
        None \<Rightarrow> None
      | Some ms \<Rightarrow>
          (case (pointer_from ''extend_days'' dec_int64 None ms, field_from ''record_version'' dec_int64 0 ms) of
             (Some n, Some v) \<Rightarrow> Some \<lparr>xr_ExtendDays = n, xr_RecordVersion = v\<rparr>
           | _ \<Rightarrow> None))"

definition unmarshalReassign :: "env \<Rightarrow> raw_json \<Rightarrow> DelegationReassignRequest option" where
  "unmarshalReassign e body =
     (case members body of
        None \<Rightarrow> None
      | Some ms \<Rightarrow>
          (case (pointer_from ''new_delegate_id'' (dec_text (uuid_Parse e)) None ms, pointer_from ''scope'' dec_string None ms,
                 pointer_from ''scope_id'' (dec_text (uuid_Parse e)) None ms, pointer_from ''ends_at'' dec_time None ms,
                 pointer_from ''reason'' dec_string None ms, field_from ''record_version'' dec_int64 0 ms) of
             (Some d, Some s, Some si, Some en, Some r, Some v) \<Rightarrow>
               Some \<lparr>rr_NewDelegateID = d, rr_Scope = s, rr_ScopeID = si, rr_EndsAt = en, rr_Reason = r, rr_RecordVersion = v\<rparr>
           | _ \<Rightarrow> None))"

definition bindSettings :: "raw_json \<Rightarrow> SettingsSetRequest option" where
  "bindSettings body =
     (case members body of
        None \<Rightarrow> None
      | Some ms \<Rightarrow>
          (case (field_from ''max_duration_days'' dec_int64 0 ms, field_from ''review_window_days'' dec_int64 0 ms) of
             (Some a, Some b) \<Rightarrow> Some \<lparr>sq_MaxDurationDays = a, sq_ReviewWindowDays = b\<rparr>
           | _ \<Rightarrow> None))"

definition invalidBody :: error where "invalidBody = domainErr ErrValidation ''invalid request body''"

section \<open>Facts about the combinators\<close>

lemma answering_simps [simp]:
  "snd (answering g rq p) = snd p" "answering g rq (Inr a, w) = (Inr a, w)"
  "answering g rq (Inl err, w) = (Inl (HandleError g rq err), w)"
  by (simp_all add: answering_def split: prod.split sum.split)

lemma answering_iff [res_iff]:
  "answering g rq p = (Inr a, w') \<longleftrightarrow> p = (Inr a, w')"
  "answering g rq p = (Inl resp, w') \<longleftrightarrow> (\<exists>err. p = (Inl err, w') \<and> resp = HandleError g rq err)"
  by (auto simp: answering_def split: prod.splits sum.splits)

lemma requiring_simps [simp]:
  "snd (requiring g rq err x w) = w" "requiring g rq err (Some a) w = (Inr a, w)"
  "requiring g rq err None w = (Inl (HandleError g rq err), w)"
  by (simp_all add: requiring_def split: option.split)

lemma requiring_iff [res_iff]:
  "requiring g rq err x w = (Inr a, w') \<longleftrightarrow> x = Some a \<and> w' = w"
  "requiring g rq err x w = (Inl resp, w') \<longleftrightarrow> x = None \<and> resp = HandleError g rq err \<and> w' = w"
  by (auto simp: requiring_def split: option.splits)

lemma quiet_answering: "quiet w (snd p) \<Longrightarrow> quiet w (snd (answering g rq p))"
  by simp

lemmas handler_parts = identityOrError_def parseUUIDParam_def tenantOrError_def userOrError_def

lemma handler_parts_snd [simp]:
  "snd (identityOrError g rq c w) = w" "snd (parseUUIDParam e g rq name w) = w"
  "snd (tenantOrError e g rq rc w) = w" "snd (userOrError e g rq rc w) = w"
  by (simp_all add: handler_parts)

lemma requireSelfOrAdmin_ok:
  assumes "requireSelfOrAdmin e g rq c T did w = (Inr d, w')"
  obtains rc where "c_rc c = Some rc" "d \<in> set (delegations (db w))" "liveRow T did d" "selfOrAdmin e rc d" "quiet w w'"
  using assms unfolding requireSelfOrAdmin_def res_iff
  by (auto split: if_splits dest: FindByID_ok quiet_FindByID)

lemma quiet_requireSelfOrAdmin: "quiet w (snd (requireSelfOrAdmin e g rq c T did w))"
proof -
  have "quiet w (snd (DelegationRepository_FindByID e AppPool c T did w))" for w
    by (metis prod.collapse quiet_FindByID)
  then show ?thesis
    unfolding requireSelfOrAdmin_def by (intro quiet.frame_bind) auto
qed

lemma middleware_snd [simp]:
  "snd (requireIdempotencyKey g rq w) = w" "snd (RequireAnyRole g rq roles c w) = w"
  by (auto simp: requireIdempotencyKey_def RequireAnyRole_def Let_def bind_res_def requiring_def split: option.split)

section \<open>The error taxonomy\<close>

text \<open>The classes of errors and the status each answers with.\<close>

definition malformedInput :: "Sentinel set" where
  "malformedInput = {ErrValidation, ErrInvalidDelegationScope, ErrInvalidDelegationMaxDurationDays, ErrInvalidDelegationReviewWindow}"

definition dependencyDown :: "Sentinel set" where
  "dependencyDown = {ErrOrgMembershipUnavailable, ErrUserProfileUnavailable, ErrCatalogAdminUnavailable, ErrDBUnavailable}"

definition taxonomy :: "Sentinel \<Rightarrow> int" where
  "taxonomy s =
     (if s \<in> malformedInput then 400
      else if s \<in> dependencyDown then 503
      else case s of
        ErrMissingIdentity \<Rightarrow> 401 | ErrInsufficientRole \<Rightarrow> 403 | ErrDelegationNotFound \<Rightarrow> 404
      | ErrOptimisticLockConflict \<Rightarrow> 409 | ErrIdempotencyKeyInFlight \<Rightarrow> 409 | _ \<Rightarrow> 422)"

lemma status_taxonomy: "map_of errorStatusByCode (sentinelCode s) = Some (taxonomy s)"
  by (cases s) (simp_all add: errorStatusByCode_def taxonomy_def malformedInput_def dependencyDown_def)

lemma HandleError_NewError [simp]:
  "HandleError g rq (domainErr s m) = writeErrorWithDetails g rq (taxonomy s) (sentinelCode s) []"
  by (simp add: status_taxonomy Let_def)

lemma taxonomy_range: "taxonomy s \<in> {400, 401, 403, 404, 409, 422, 503}"
  by (cases s) (simp_all add: taxonomy_def malformedInput_def dependencyDown_def)

lemma status_unknown: "\<forall>t. c \<noteq> sentinelCode t \<Longrightarrow> map_of errorStatusByCode c = None"
  by (simp add: errorStatusByCode_def del: sentinelCode.simps)

text \<open>The bodies written out, and the classes of the errors that are not the domain's.\<close>

lemmas error_body = writeError_def writeErrorWithDetails_def JSON_def

lemma taxonomy_classes:
  "taxonomy s =
     (if s \<in> {ErrValidation, ErrInvalidDelegationScope, ErrInvalidDelegationMaxDurationDays, ErrInvalidDelegationReviewWindow} then 400
      else if s = ErrMissingIdentity then 401
      else if s = ErrInsufficientRole then 403
      else if s = ErrDelegationNotFound then 404
      else if s \<in> {ErrOptimisticLockConflict, ErrIdempotencyKeyInFlight} then 409
      else if s \<in> {ErrOrgMembershipUnavailable, ErrUserProfileUnavailable, ErrCatalogAdminUnavailable, ErrDBUnavailable} then 503
      else 422)"
  by (cases s) (simp_all add: taxonomy_def malformedInput_def dependencyDown_def)

lemmas raw_classes =
  IsConnectionException_def IsInsufficientResources_def isOperatorOrSystemErrorSQLState_def pgClass_def

text \<open>The three answers, field by field.\<close>

lemma HandleError_catalogue:
  "HandleError g rq (Domain (WithDetails (NewError s m) ds)) =
     \<lparr>rp_Status = taxonomy s, rp_Body = BodyError \<lparr>er_Error = sentinelCode s, er_Status = taxonomy s,
        er_TraceID = g_TraceID g rq, er_RequestID = g_RequestID g rq, er_Details = ds\<rparr>\<rparr>"
  by (simp add: WithDetails_def NewError_def status_taxonomy Let_def error_body)

lemma HandleError_unknown:
  "\<forall>t. e_Code de \<noteq> sentinelCode t \<Longrightarrow> HandleError g rq (Domain de) =
     \<lparr>rp_Status = 500, rp_Body = BodyError \<lparr>er_Error = e_Code de, er_Status = 500,
        er_TraceID = g_TraceID g rq, er_RequestID = g_RequestID g rq, er_Details = e_Details de\<rparr>\<rparr>"
  by (simp add: status_unknown Let_def error_body)

lemma HandleError_raw:
  "HandleError g rq (Raw x) =
     (if map_option (take 2) (raw_SQLState x) \<in> {Some ''08'', Some ''53''}
         \<or> raw_SQLState x \<noteq> None \<and> (strContains (raw_Text x) ''SQLSTATE 57'' \<or> strContains (raw_Text x) ''SQLSTATE 58'')
      then \<lparr>rp_Status = 503, rp_Body = BodyError \<lparr>er_Error = ''db_unavailable'', er_Status = 503,
        er_TraceID = g_TraceID g rq, er_RequestID = g_RequestID g rq, er_Details = []\<rparr>\<rparr>
      else \<lparr>rp_Status = 500, rp_Body = BodyError \<lparr>er_Error = ''internal_server_error'', er_Status = 500,
        er_TraceID = g_TraceID g rq, er_RequestID = g_RequestID g rq, er_Details = []\<rparr>\<rparr>)"
  by (simp add: error_body raw_classes)

end
