(* ===== verification/Http.thy ===== *)
theory Http
  imports HttpBase
begin

text \<open>
  The handlers and the router of \<^verbatim>\<open>src/internal/adapter/inbound/http\<close>, with the adapters of
  \<^verbatim>\<open>src/cmd/server/adapters.go\<close> that feed the internal routes. A public request passes
  gincommon's protected middlewares, the context bridge and the tenant binding before its
  handler; an internal one reaches its handler at once, with no identity and no tenant bound.
\<close>

section \<open>Delegation handlers\<close>

definition DelegationHandler_List :: "env \<Rightarrow> Gin \<Rightarrow> Request \<Rightarrow> ctx \<Rightarrow> world \<Rightarrow> Response handled" where
  "DelegationHandler_List e g rq c w =
     bind_res (identityOrError g rq c w) (\<lambda>rc w.
     bind_res (tenantOrError e g rq rc w) (\<lambda>tenantID w.
     bind_res (userOrError e g rq rc w) (\<lambda>delegatorID w.
     bind_res (answering g rq (DelegationService_List e c tenantID delegatorID w)) (\<lambda>list w.
       (Inr (JSON 200 (BodyList (map DelegationToResponse list))), w)))))"

definition toCreateInput :: "DelegationCreateRequest \<Rightarrow> CreateInput" where
  "toCreateInput req =
     \<lparr>ci_DelegateID = cr_DelegateID req, ci_Scope = cr_Scope req, ci_ScopeID = cr_ScopeID req,
      ci_Reason = cr_OOONote req, ci_StartsAt = cr_StartsAt req, ci_EndsAt = cr_EndsAt req\<rparr>"

definition DelegationHandler_Create :: "env \<Rightarrow> Gin \<Rightarrow> Request \<Rightarrow> ctx \<Rightarrow> world \<Rightarrow> Response handled" where
  "DelegationHandler_Create e g rq c w =
     bind_res (identityOrError g rq c w) (\<lambda>rc w.
     bind_res (tenantOrError e g rq rc w) (\<lambda>tenantID w.
     bind_res (userOrError e g rq rc w) (\<lambda>delegatorID w.
     bind_res (requiring g rq invalidBody (bindCreate e (firstValue rq)) w) (\<lambda>req w.
     bind_res (answering g rq (DelegationService_Create e c tenantID delegatorID
                 (valueOf ''Idempotency-Key'' (rq_Headers rq)) (toCreateInput req) w)) (\<lambda>d w.
       (Inr (JSON 201 (BodyDelegation (DelegationToResponse d))), w))))))"

text \<open>What \<open>Cancel\<close>, \<open>Extend\<close> and \<open>Reassign\<close> do first: the id, the tenant, and the ownership check.\<close>

definition ownedTarget :: "env \<Rightarrow> Gin \<Rightarrow> Request \<Rightarrow> ctx \<Rightarrow> world \<Rightarrow> (uuid \<times> uuid) handled" where
  "ownedTarget e g rq c w =
     bind_res (parseUUIDParam e g rq ''id'' w) (\<lambda>did w.
     bind_res (identityOrError g rq c w) (\<lambda>rc w.
     bind_res (tenantOrError e g rq rc w) (\<lambda>tenantID w.
     bind_res (requireSelfOrAdmin e g rq c tenantID did w) (\<lambda>_ w. (Inr (tenantID, did), w)))))"

definition DelegationHandler_Cancel :: "env \<Rightarrow> Gin \<Rightarrow> Request \<Rightarrow> ctx \<Rightarrow> world \<Rightarrow> Response handled" where
  "DelegationHandler_Cancel e g rq c w =
     bind_res (ownedTarget e g rq c w) (\<lambda>(tenantID, did) w.
     bind_res (answering g rq (DelegationService_Cancel e c tenantID did
                 (fst (ParseInt (valueOf ''record_version'' (rq_Query rq)))) w)) (\<lambda>d w.
       (Inr (JSON 200 (BodyDelegation (DelegationToResponse d))), w)))"

definition DelegationHandler_Extend :: "env \<Rightarrow> Gin \<Rightarrow> Request \<Rightarrow> ctx \<Rightarrow> world \<Rightarrow> Response handled" where
  "DelegationHandler_Extend e g rq c w =
     bind_res (ownedTarget e g rq c w) (\<lambda>(tenantID, did) w.
     bind_res (requiring g rq invalidBody (bindExtend (firstValue rq)) w) (\<lambda>req w.
     bind_res (answering g rq (DelegationService_Extend e c tenantID did (xr_ExtendDays req) (xr_RecordVersion req) w)) (\<lambda>d w.
       (Inr (JSON 200 (BodyExtend (DelegationToExtendResponse d))), w))))"

definition toReassignInput :: "raw_json \<Rightarrow> DelegationReassignRequest \<Rightarrow> ReassignInput" where
  "toReassignInput body req =
     \<lparr>ri_NewDelegateID = rr_NewDelegateID req, ri_Scope = rr_Scope req, ri_ScopeID = rr_ScopeID req,
      ri_ScopeIDSet = rawKey ''scope_id'' body, ri_EndsAt = rr_EndsAt req,
      ri_EndsAtProvided = rawKey ''ends_at'' body, ri_Reason = rr_Reason req\<rparr>"

definition DelegationHandler_Reassign :: "env \<Rightarrow> Gin \<Rightarrow> Request \<Rightarrow> ctx \<Rightarrow> world \<Rightarrow> Response handled" where
  "DelegationHandler_Reassign e g rq c w =
     bind_res (ownedTarget e g rq c w) (\<lambda>(tenantID, did) w.
     bind_res (requiring g rq (domainErr ErrValidation ''unable to read request body'') (ReadAll rq) w) (\<lambda>body w.
     bind_res (requiring g rq invalidBody (unmarshalReassign e body) w) (\<lambda>req w.
     bind_res (answering g rq (DelegationService_Reassign e c tenantID did (rr_RecordVersion req) (toReassignInput body req) w)) (\<lambda>d w.
       (Inr (JSON 201 (BodyDelegation (DelegationToResponse d))), w)))))"

section \<open>Settings handlers\<close>

definition SettingsHandler_Get :: "env \<Rightarrow> Gin \<Rightarrow> Request \<Rightarrow> ctx \<Rightarrow> world \<Rightarrow> Response handled" where
  "SettingsHandler_Get e g rq c w =
     bind_res (identityOrError g rq c w) (\<lambda>rc w.
     bind_res (tenantOrError e g rq rc w) (\<lambda>tenantID w.
     bind_res (answering g rq (SettingsService_Get e c tenantID w)) (\<lambda>s w.
       (Inr (JSON 200 (BodySettings (SettingsToResponse s))), w))))"

definition SettingsHandler_Set :: "env \<Rightarrow> Gin \<Rightarrow> Request \<Rightarrow> ctx \<Rightarrow> world \<Rightarrow> Response handled" where
  "SettingsHandler_Set e g rq c w =
     bind_res (identityOrError g rq c w) (\<lambda>rc w.
     bind_res (tenantOrError e g rq rc w) (\<lambda>tenantID w.
     bind_res (requiring g rq invalidBody (bindSettings (firstValue rq)) w) (\<lambda>req w.
     bind_res (answering g rq (SettingsService_Set e c tenantID (sq_MaxDurationDays req) (sq_ReviewWindowDays req) w)) (\<lambda>s w.
       (Inr (JSON 200 (BodySettings (SettingsToResponse s))), w)))))"

section \<open>Internal handlers\<close>

text \<open>\<open>jctx\<close> of \<^verbatim>\<open>cmd/server/main.go\<close>, shared by the two cron entry points.\<close>

definition serverJobs :: JobContext where
  "serverJobs = \<lparr>jc_BatchLimit = 50, jc_RetentionDays = 90, jc_ProcessedEvents = False, jc_ProcessedEventsTTLDays = 0\<rparr>"

definition reconcilerRunner_RunExpiry :: "env \<Rightarrow> ctx \<Rightarrow> world \<Rightarrow> (error, ExpiryRunResponse, world) outcome" where
  "reconcilerRunner_RunExpiry e c w =
     bind_res (Expiry e serverJobs c w) (\<lambda>res w.
       (Inr \<lparr>xp_Attempted = res_Attempted res, xp_Succeeded = res_Succeeded res, xp_Failed = res_Failed res\<rparr>, w))"

definition reconcilerRunner_RunReviewSweep :: "env \<Rightarrow> ctx \<Rightarrow> world \<Rightarrow> (error, ReviewSweepRunResponse, world) outcome" where
  "reconcilerRunner_RunReviewSweep e c w =
     bind_res (ReviewSweep e serverJobs c w) (\<lambda>res w.
       (Inr \<lparr>rs_Warned3d = res_Warned3d res, rs_Warned2d = res_Warned2d res, rs_Warned1d = res_Warned1d res,
             rs_Expired = res_Expired res, rs_Deferred = res_Deferred res, rs_Failed = res_Failed res\<rparr>, w))"

definition InternalHandler_Expire :: "env \<Rightarrow> Gin \<Rightarrow> Request \<Rightarrow> ctx \<Rightarrow> world \<Rightarrow> Response handled" where
  "InternalHandler_Expire e g rq c w =
     bind_res (answering g rq (reconcilerRunner_RunExpiry e c w)) (\<lambda>res w. (Inr (JSON 200 (BodyExpiry res)), w))"

definition InternalHandler_ReviewSweep :: "env \<Rightarrow> Gin \<Rightarrow> Request \<Rightarrow> ctx \<Rightarrow> world \<Rightarrow> Response handled" where
  "InternalHandler_ReviewSweep e g rq c w =
     bind_res (answering g rq (reconcilerRunner_RunReviewSweep e c w)) (\<lambda>res w. (Inr (JSON 200 (BodyReview res)), w))"

definition gucBoundReader_FindActiveDeptDelegateForUser :: "env \<Rightarrow> ctx \<Rightarrow> uuid \<Rightarrow> uuid \<Rightarrow> uuid \<Rightarrow> world \<Rightarrow> (error, Delegation option, world) outcome" where
  "gucBoundReader_FindActiveDeptDelegateForUser e c tenantID =
     DelegationRepository_FindActiveDeptDelegateForUser e AppPool (WithTenantGUC c tenantID) tenantID"

definition gucBoundReader_FindActiveByDelegator :: "env \<Rightarrow> ctx \<Rightarrow> uuid \<Rightarrow> uuid \<Rightarrow> world \<Rightarrow> (error, Delegation list, world) outcome" where
  "gucBoundReader_FindActiveByDelegator e c tenantID =
     DelegationRepository_FindActiveByDelegator e AppPool (WithTenantGUC c tenantID) tenantID"

definition queryUUID :: "env \<Rightarrow> Gin \<Rightarrow> Request \<Rightarrow> string \<Rightarrow> world \<Rightarrow> uuid handled" where
  "queryUUID e g rq name =
     requiring g rq (domainErr ErrValidation (name @ '' must be a valid UUID'')) (uuid_Parse e (valueOf name (rq_Query rq)))"

definition deptDelegateBody :: "Delegation option \<Rightarrow> DeptDelegateResponse" where
  "deptDelegateBody x =
     (case x of
        None \<Rightarrow> \<lparr>dd_Found = False, dd_DelegationID = None, dd_DelegatorID = None, dd_DelegateID = None\<rparr>
      | Some d \<Rightarrow> \<lparr>dd_Found = True, dd_DelegationID = Some (d_ID d), dd_DelegatorID = Some (d_DelegatorID d),
                   dd_DelegateID = Some (d_DelegateID d)\<rparr>)"

definition InternalHandler_DeptDelegate :: "env \<Rightarrow> Gin \<Rightarrow> Request \<Rightarrow> ctx \<Rightarrow> world \<Rightarrow> Response handled" where
  "InternalHandler_DeptDelegate e g rq c w =
     bind_res (queryUUID e g rq ''tenant_id'' w) (\<lambda>tenantID w.
     bind_res (queryUUID e g rq ''user_id'' w) (\<lambda>userID w.
     bind_res (queryUUID e g rq ''dept_id'' w) (\<lambda>deptID w.
     bind_res (answering g rq (gucBoundReader_FindActiveDeptDelegateForUser e c tenantID userID deptID w)) (\<lambda>d w.
       (Inr (JSON 200 (BodyDept (deptDelegateBody d))), w)))))"

definition InternalHandler_ActiveDelegations :: "env \<Rightarrow> Gin \<Rightarrow> Request \<Rightarrow> ctx \<Rightarrow> world \<Rightarrow> Response handled" where
  "InternalHandler_ActiveDelegations e g rq c w =
     bind_res (parseUUIDParam e g rq ''id'' w) (\<lambda>userID w.
     bind_res (queryUUID e g rq ''tenant_id'' w) (\<lambda>tenantID w.
     bind_res (answering g rq (gucBoundReader_FindActiveByDelegator e c tenantID userID w)) (\<lambda>list w.
       (Inr (JSON 200 (BodyActive (map DelegationToActiveView list))), w))))"

section \<open>Readiness\<close>

text \<open>The dependencies the check probes; \<open>None\<close> when not wired.\<close>

record healthHandlers =
  hh_postgres :: "HealthStatus option"
  hh_sysPostgres :: "HealthStatus option"
  hh_cache :: "bool option"   \<comment> \<open>Ping without error\<close>
  hh_outbox :: "bool option"

definition poolCheck :: "string \<Rightarrow> HealthStatus option \<Rightarrow> (string \<times> CheckValue) list" where
  "poolCheck name x =
     (case x of
        None \<Rightarrow> []
      | Some hs \<Rightarrow>
          [(name, CheckText (if hs_Healthy hs then ''ok'' else ''error'')),
           (name @ ''_pool'', CheckPool [(''total_conns'', hs_TotalConns hs), (''idle_conns'', hs_IdleConns hs),
              (''acquired_conns'', hs_AcquiredConns hs), (''max_conns'', hs_MaxConns hs)] (hs_Utilization hs))])"

definition pingCheck :: "string \<Rightarrow> bool option \<Rightarrow> (string \<times> CheckValue) list" where
  "pingCheck name x =
     (case x of None \<Rightarrow> [] | Some up \<Rightarrow> [(name, CheckText (if up then ''ok'' else ''degraded''))])"

definition poolDown :: "HealthStatus option \<Rightarrow> bool" where
  "poolDown x = (case x of None \<Rightarrow> False | Some hs \<Rightarrow> \<not> hs_Healthy hs)"

definition readyz :: "healthHandlers \<Rightarrow> Response" where
  "readyz h =
     (let healthy = (\<not> poolDown (hh_postgres h) \<and> \<not> poolDown (hh_sysPostgres h));
          checks = poolCheck ''postgres'' (hh_postgres h) @ poolCheck ''sys_postgres'' (hh_sysPostgres h)
                     @ pingCheck ''valkey'' (hh_cache h) @ pingCheck ''outbox'' (hh_outbox h)
      in if healthy then JSON 200 (BodyChecks ''ok'' checks) else JSON 503 (BodyChecks ''error'' checks))"

section \<open>Documentation routes\<close>

record DocsConfig =
  dc_Environment :: string
  dc_Enabled :: bool
  dc_AuthToken :: string

definition DocsConfig_active :: "DocsConfig \<Rightarrow> bool" where
  "DocsConfig_active d \<longleftrightarrow> dc_Environment d \<noteq> ''production'' \<or> dc_Enabled d"

text \<open>Both lengths are compared first, so the constant-time comparison is equality.\<close>

definition docsAuthMiddleware :: "string \<Rightarrow> Request \<Rightarrow> world \<Rightarrow> unit handled" where
  "docsAuthMiddleware token rq w =
     (let want = ''Bearer '' @ token; got = valueOf ''Authorization'' (rq_Headers rq)
      in if length got \<noteq> length want \<or> got \<noteq> want then (Inl (JSON 401 BodyNone), w) else (Inr (), w))"

datatype DocsPage = SwaggerTheme | SwaggerInitializer | SwaggerFile string | AsyncAPIPage | AsyncAPIYAML

definition strHasSuffix :: "string \<Rightarrow> string \<Rightarrow> bool" where
  "strHasSuffix s suf \<longleftrightarrow> length suf \<le> length s \<and> drop (length s - length suf) s = suf"

definition swaggerPage :: "string \<Rightarrow> DocsPage" where
  "swaggerPage path =
     (if strHasSuffix path ''/index.css'' then SwaggerTheme
      else if strHasSuffix path ''/swagger-initializer.js'' then SwaggerInitializer
      else SwaggerFile path)"

text \<open>The page served, or the response when there is none: unmounted routes are gin's 404.\<close>

definition docsRoutes :: "DocsConfig \<Rightarrow> Request \<Rightarrow> DocsPage \<Rightarrow> world \<Rightarrow> DocsPage handled" where
  "docsRoutes docs rq page w =
     (if \<not> DocsConfig_active docs then (Inl (JSON 404 BodyNone), w)
      else if dc_Environment docs = ''production'' \<and> dc_AuthToken docs \<noteq> ''''
      then bind_res (docsAuthMiddleware (dc_AuthToken docs) rq w) (\<lambda>_ w. (Inr page, w))
      else (Inr page, w))"

section \<open>The router\<close>

datatype Route =
  R_List | R_Create | R_Cancel | R_Extend | R_Reassign | R_SettingsGet | R_SettingsSet
| R_Expire | R_ReviewSweep | R_DeptDelegate | R_ActiveDelegations

definition routeTable :: "(string \<times> string \<times> Route) list" where
  "routeTable =
     [(''GET'', ''/api/v1/delegations'', R_List), (''POST'', ''/api/v1/delegations'', R_Create),
      (''DELETE'', ''/api/v1/delegations/:id'', R_Cancel), (''POST'', ''/api/v1/delegations/:id/extend'', R_Extend),
      (''POST'', ''/api/v1/delegations/:id/reassign'', R_Reassign), (''GET'', ''/api/v1/delegations/settings'', R_SettingsGet),
      (''PUT'', ''/api/v1/delegations/settings'', R_SettingsSet),
      (''POST'', ''/internal/delegations/expire'', R_Expire), (''POST'', ''/internal/delegations/review-sweep'', R_ReviewSweep),
      (''GET'', ''/internal/delegations/dept-delegate'', R_DeptDelegate),
      (''GET'', ''/internal/users/:id/active-delegations'', R_ActiveDelegations)]"

definition settingsSetRoles :: "string list" where
  "settingsSetRoles = [''tenant_admin'', ''tenant_owner'']"

definition publicRoutes :: "Route set" where
  "publicRoutes = {R_List, R_Create, R_Cancel, R_Extend, R_Reassign, R_SettingsGet, R_SettingsSet}"

fun routeHandler :: "env \<Rightarrow> Gin \<Rightarrow> Route \<Rightarrow> Request \<Rightarrow> ctx \<Rightarrow> world \<Rightarrow> Response handled" where
  "routeHandler e g R_List rq c w = DelegationHandler_List e g rq c w"
| "routeHandler e g R_Create rq c w =
     bind_res (requireIdempotencyKey g rq w) (\<lambda>_ w. DelegationHandler_Create e g rq c w)"
| "routeHandler e g R_Cancel rq c w = DelegationHandler_Cancel e g rq c w"
| "routeHandler e g R_Extend rq c w = DelegationHandler_Extend e g rq c w"
| "routeHandler e g R_Reassign rq c w = DelegationHandler_Reassign e g rq c w"
| "routeHandler e g R_SettingsGet rq c w = SettingsHandler_Get e g rq c w"
| "routeHandler e g R_SettingsSet rq c w =
     bind_res (RequireAnyRole g rq settingsSetRoles c w) (\<lambda>_ w. SettingsHandler_Set e g rq c w)"
| "routeHandler e g R_Expire rq c w = InternalHandler_Expire e g rq c w"
| "routeHandler e g R_ReviewSweep rq c w = InternalHandler_ReviewSweep e g rq c w"
| "routeHandler e g R_DeptDelegate rq c w = InternalHandler_DeptDelegate e g rq c w"
| "routeHandler e g R_ActiveDelegations rq c w = InternalHandler_ActiveDelegations e g rq c w"

text \<open>The context of a fresh request, and what the public group's middlewares make of it.\<close>

definition requestContext :: ctx where
  "requestContext = \<lparr>c_guc = None, c_tx = None, c_publisher = False, c_rc = None\<rparr>"

definition publicContext :: "env \<Rightarrow> Request \<Rightarrow> Identity option \<Rightarrow> ctx" where
  "publicContext e rq prc = tenantGUCMiddleware (bindTenantGUC e) (ContextMiddleware rq prc requestContext)"

definition NewRouter :: "env \<Rightarrow> Gin \<Rightarrow> Route \<Rightarrow> Request \<Rightarrow> world \<Rightarrow> Response handled" where
  "NewRouter e g route rq w =
     (if route \<in> publicRoutes
      then (case g_Protected g rq of
              Inl resp \<Rightarrow> (Inl resp, w)
            | Inr prc \<Rightarrow> routeHandler e g route rq (publicContext e rq prc) w)
      else routeHandler e g route rq requestContext w)"

definition serve :: "env \<Rightarrow> Gin \<Rightarrow> Route \<Rightarrow> Request \<Rightarrow> world \<Rightarrow> Response \<times> world" where
  "serve e g route rq w = (case NewRouter e g route rq w of (r, w) \<Rightarrow> (case r of Inl resp \<Rightarrow> resp | Inr resp \<Rightarrow> resp, w))"

lemma routeTable_complete: "distinct (map (\<lambda>(m, p, _). (m, p)) routeTable)" "\<exists>m p. (m, p, r) \<in> set routeTable"
  by (simp add: routeTable_def) (cases r; auto simp: routeTable_def)

section \<open>Identity and ownership\<close>

text \<open>The tenant a public request acts for, and the caller gincommon names.\<close>

definition callerTenant :: "env \<Rightarrow> Gin \<Rightarrow> Request \<Rightarrow> uuid option" where
  "callerTenant e g rq = (case g_Protected g rq of Inr (Some p) \<Rightarrow> uuid_Parse e (pid_TenantID p) | _ \<Rightarrow> None)"

definition callerOf :: "Request \<Rightarrow> Identity \<Rightarrow> requestctx" where
  "callerOf rq p =
     \<lparr>rc_UserID = pid_UserID p, rc_TenantID = pid_TenantID p, rc_Roles = pid_Roles p,
      rc_ClientIP = pid_ClientIP p, rc_UserAgent = valueOf ''User-Agent'' (rq_Headers rq)\<rparr>"

lemma publicContext_simps [simp]:
  "publicContext e rq None = requestContext"
  "c_rc (publicContext e rq (Some p)) = Some (callerOf rq p)"
  "c_tx (publicContext e rq prc) = None" "c_publisher (publicContext e rq prc) = False"
  "uuid_Parse e (pid_TenantID p) = Some T \<Longrightarrow> c_guc (publicContext e rq (Some p)) = Some T"
  "uuid_Parse e (pid_TenantID p) = None \<Longrightarrow> c_guc (publicContext e rq (Some p)) = None"
  "c_rc requestContext = None" "c_tx requestContext = None"
  by (auto simp: publicContext_def tenantGUCMiddleware_def ContextMiddleware_def requestContext_def
      bindTenantGUC_def WithTenantGUC_def callerOf_def split: option.splits)

lemma callerOf_simps [simp]:
  "rc_UserID (callerOf rq p) = pid_UserID p" "rc_TenantID (callerOf rq p) = pid_TenantID p"
  "rc_Roles (callerOf rq p) = pid_Roles p"
  by (simp_all add: callerOf_def)

lemma ownedTarget_ok:
  assumes "ownedTarget e g rq c w = (Inr (T, did), w')"
  obtains rc d where "c_rc c = Some rc" "uuid_Parse e (rc_TenantID rc) = Some T"
    "uuid_Parse e (valueOf ''id'' (rq_Params rq)) = Some did"
    "d \<in> set (delegations (db w))" "liveRow T did d" "selfOrAdmin e rc d" "quiet w w'"
  using assms unfolding ownedTarget_def handler_parts res_iff
  by (force elim: requireSelfOrAdmin_ok)

lemma quiet_ownedTarget: "quiet w (snd (ownedTarget e g rq c w))"
  unfolding ownedTarget_def
  by (intro quiet.frame_bind) (auto simp: quiet_requireSelfOrAdmin)

text \<open>A handler that begins with the ownership check does nothing to speak of unless it passes.\<close>

lemma owned_only:
  assumes "bind_res (ownedTarget e g rq c w) k = (r, w')"
  shows "quiet w w' \<or> (\<exists>rc T did d. c_rc c = Some rc \<and> uuid_Parse e (rc_TenantID rc) = Some T
    \<and> uuid_Parse e (valueOf ''id'' (rq_Params rq)) = Some did
    \<and> d \<in> set (delegations (db w)) \<and> liveRow T did d \<and> selfOrAdmin e rc d)"
proof (cases rule: bind_res_cases [of "ownedTarget e g rq c w" k])
  case (error resp t)
  with quiet_ownedTarget [of w e g rq c] assms show ?thesis by auto
next
  case (ok a t)
  then show ?thesis by (cases a) (auto elim!: ownedTarget_ok)
qed

lemma owner_routes:
  assumes "route \<in> {R_Cancel, R_Extend, R_Reassign}" "NewRouter e g route rq w = (r, w')"
  shows "quiet w w' \<or> (\<exists>p T did d. g_Protected g rq = Inr (Some p) \<and> uuid_Parse e (pid_TenantID p) = Some T
    \<and> uuid_Parse e (valueOf ''id'' (rq_Params rq)) = Some did
    \<and> d \<in> set (delegations (db w)) \<and> liveRow T did d
    \<and> (uuid_String e (d_DelegatorID d) = pid_UserID p \<or> ''tenant_admin'' \<in> set (pid_Roles p) \<or> ''tenant_owner'' \<in> set (pid_Roles p)))"
proof (cases "g_Protected g rq")
  case (Inl resp)
  with assms show ?thesis by (auto simp: NewRouter_def publicRoutes_def)
next
  case (Inr prc)
  define c where "c = publicContext e rq prc"
  have "\<exists>k. bind_res (ownedTarget e g rq c w) k = (r, w')"
    using assms Inr c_def
    by (auto simp: NewRouter_def publicRoutes_def DelegationHandler_Cancel_def DelegationHandler_Extend_def DelegationHandler_Reassign_def)
  then have "quiet w w' \<or> (\<exists>rc T did d. c_rc c = Some rc \<and> uuid_Parse e (rc_TenantID rc) = Some T
    \<and> uuid_Parse e (valueOf ''id'' (rq_Params rq)) = Some did
    \<and> d \<in> set (delegations (db w)) \<and> liveRow T did d \<and> selfOrAdmin e rc d)"
    by (auto dest: owned_only)
  with Inr show ?thesis
    by (cases prc) (auto simp: c_def selfOrAdmin_def IsAdmin_def HasRole_def)
qed

section \<open>Frames\<close>

lemma reader_db [simp]:
  "db (snd (gucBoundReader_FindActiveDeptDelegateForUser e c T u d w)) = db w"
  "db (snd (gucBoundReader_FindActiveByDelegator e c T u w)) = db w"
  unfolding gucBoundReader_FindActiveDeptDelegateForUser_def DelegationRepository_FindActiveDeptDelegateForUser_def
    gucBoundReader_FindActiveByDelegator_def DelegationRepository_FindActiveByDelegator_def
  by (rule same_db.w.frame_withPool, rule same_db.w.frame_bind) (auto split: list.split)

lemma List_db [simp]: "db (snd (DelegationService_List e c T u w)) = db w"
proof -
  have r: "db w1 = db w0" if "DelegationRepository_ListByDelegator e AppPool c T u w0 = (x, w1)" for w0 w1 x
    using that listWhere_db by (metis DelegationRepository_ListByDelegator_def snd_conv)
  have k: "db w1 = db w" if "Cache_GetDelegatorList e T u w = (x, w1)" for x w1
    using quiet_Cache_Get [OF that] by (simp add: quiet_def)
  show ?thesis
    by (auto simp: DelegationService_List_def bind_res_def split: prod.split option.split sum.split dest!: r k)
qed

lemma ownedTarget_db [simp]: "db (snd (ownedTarget e g rq c w)) = db w"
  using quiet_ownedTarget [of w e g rq c] by (simp add: quiet_def)

text \<open>Whose authority a route may grant: the caller's own, or that of the delegation reassigned.\<close>

definition routeGrants :: "env \<Rightarrow> Route \<Rightarrow> Request \<Rightarrow> ctx \<Rightarrow> db \<Rightarrow> uuid \<Rightarrow> uuid \<Rightarrow> bool" where
  "routeGrants e route rq c d T u \<longleftrightarrow>
     (\<exists>rc. c_rc c = Some rc \<and> uuid_Parse e (rc_TenantID rc) = Some T
        \<and> (route = R_Create \<and> uuid_Parse e (rc_UserID rc) = Some u
           \<or> route = R_Reassign \<and> (\<exists>did r. uuid_Parse e (valueOf ''id'' (rq_Params rq)) = Some did
                \<and> r \<in> set (delegations d) \<and> liveRow T did r \<and> d_DelegatorID r = u)))"

lemma requiring_ok: "requiring g rq err x w = (Inr a, w') \<longleftrightarrow> x = Some a \<and> w' = w"
  by (auto simp: requiring_def split: option.splits)

context sweeper_frame
begin

lemma frame_answering: "R (db w) (db (snd p)) \<Longrightarrow> R (db w) (db (snd (answering g rq p)))"
  by simp

lemma frame_owned:
  assumes "\<And>T did w1. ownedTarget e g rq c w = (Inr (T, did), w1) \<Longrightarrow> db w1 = db w \<Longrightarrow> R (db w1) (db (snd (k (T, did) w1)))"
  shows "R (db w) (db (snd (bind_res (ownedTarget e g rq c w) k)))"
proof (cases rule: bind_res_cases [of "ownedTarget e g rq c w" k])
  case (error resp w1)
  then have "db w1 = db w" using ownedTarget_db [of e g rq c w] by simp
  with error show ?thesis by (simp add: db_refl)
next
  case (ok a w1)
  then have w1: "db w1 = db w" using ownedTarget_db [of e g rq c w] by simp
  obtain T did where a: "a = (T, did)" by force
  from assms [OF ok(1) [unfolded a] w1] show ?thesis unfolding ok(2) a w1 .
qed

lemma frame_Create_route:
  assumes "okc c" "\<And>T u. routeGrants e R_Create rq c (db w) T u \<Longrightarrow> okg T u"
  shows "R (db w) (db (snd (DelegationHandler_Create e g rq c w)))"
proof -
  have "okg T u" if "c_rc c = Some rc" "uuid_Parse e (rc_TenantID rc) = Some T" "uuid_Parse e (rc_UserID rc) = Some u" for rc T u
    using assms(2) that by (auto simp: routeGrants_def)
  with assms(1) show ?thesis
    unfolding DelegationHandler_Create_def handler_parts
    by (auto simp: db_refl requiring_ok intro!: w.frame_bind frame_answering frame_Create)
qed

lemma frame_Reassign_route:
  assumes "okc c" "\<And>T u. routeGrants e R_Reassign rq c (db w) T u \<Longrightarrow> okg T u"
  shows "R (db w) (db (snd (DelegationHandler_Reassign e g rq c w)))"
  unfolding DelegationHandler_Reassign_def
proof (rule frame_owned)
  fix T did w1
  assume own: "ownedTarget e g rq c w = (Inr (T, did), w1)" and w1: "db w1 = db w"
  have g: "okg T (d_DelegatorID d)" if "d \<in> set (delegations (db w))" "liveRow T did d" for d
    using own assms(2) that by (elim ownedTarget_ok) (auto simp: routeGrants_def)
  with assms(1) w1 show "R (db w1) (db (snd ((\<lambda>(tenantID, did) w.
     bind_res (requiring g rq (domainErr ErrValidation ''unable to read request body'') (ReadAll rq) w) (\<lambda>body w.
     bind_res (requiring g rq invalidBody (unmarshalReassign e body) w) (\<lambda>req w.
     bind_res (answering g rq (DelegationService_Reassign e c tenantID did (rr_RecordVersion req) (toReassignInput body req) w)) (\<lambda>d w.
       (Inr (JSON 201 (BodyDelegation (DelegationToResponse d))), w))))) (T, did) w1)))"
    unfolding case_prod_conv
    by (auto simp: db_refl requiring_ok intro!: w.frame_bind frame_answering frame_Reassign)
qed

lemma frame_public:
  assumes "okc c" "route \<in> publicRoutes" "\<And>T u. routeGrants e route rq c (db w) T u \<Longrightarrow> okg T u"
  shows "R (db w) (db (snd (routeHandler e g route rq c w)))"
proof -
  have "R (db w) (db (snd (DelegationHandler_Cancel e g rq c w)))"
    unfolding DelegationHandler_Cancel_def DelegationService_Cancel_def
    by (rule frame_owned, unfold case_prod_conv) (intro w.frame_bind frame_answering frame_cancelInternal assms(1); simp add: db_refl)
  moreover have "R (db w) (db (snd (DelegationHandler_Extend e g rq c w)))"
    unfolding DelegationHandler_Extend_def
    by (rule frame_owned, unfold case_prod_conv) (intro w.frame_bind frame_answering frame_Extend assms(1); simp add: db_refl)
  moreover have "R (db w) (db (snd (SettingsService_Set e c T m n w)))" for T m n w
    using assms(1) by (simp add: SettingsService_Set_def db_refl b_Upsert)
  then have "R (db w) (db (snd (SettingsHandler_Set e g rq c w)))" for w
    unfolding SettingsHandler_Set_def
    by (intro w.frame_bind) (simp_all add: db_refl)
  moreover have "R (db w) (db (snd (DelegationHandler_List e g rq c w)))"
    unfolding DelegationHandler_List_def
    by (intro w.frame_bind) (simp_all add: db_refl)
  moreover have "R (db w) (db (snd (SettingsHandler_Get e g rq c w)))"
    unfolding SettingsHandler_Get_def SettingsService_Get_def
    by (intro w.frame_bind) (simp_all add: db_refl)
  moreover have "R (db w) (db (snd (routeHandler e g R_Create rq c w)))" if "route = R_Create"
    using frame_Create_route [OF assms(1), of e rq w g] assms(3) that
    by (auto simp: requireIdempotencyKey_def Let_def db_refl)
  moreover have "R (db w) (db (snd (DelegationHandler_Reassign e g rq c w)))" if "route = R_Reassign"
    using frame_Reassign_route [OF assms(1), of e rq w g] assms(3) that by auto
  ultimately show ?thesis
    using assms(2) unfolding publicRoutes_def by (auto intro!: w.frame_bind simp: db_refl simp del: routeHandler.simps(2))
qed

lemma frame_internal:
  assumes "\<And>T. okc (WithTenantGUC c T)" "route \<notin> publicRoutes"
  shows "R (db w) (db (snd (routeHandler e g route rq c w)))"
proof -
  have "R (db w) (db (snd (InternalHandler_Expire e g rq c w)))"
    unfolding InternalHandler_Expire_def reconcilerRunner_RunExpiry_def
    by (intro w.frame_bind frame_answering) (simp_all add: db_refl frame_jobs assms)
  moreover have "R (db w) (db (snd (InternalHandler_ReviewSweep e g rq c w)))"
    unfolding InternalHandler_ReviewSweep_def reconcilerRunner_RunReviewSweep_def
    by (intro w.frame_bind frame_answering) (simp_all add: db_refl frame_jobs assms)
  moreover have "R (db w) (db (snd (InternalHandler_DeptDelegate e g rq c w)))"
    unfolding InternalHandler_DeptDelegate_def queryUUID_def
    by (intro w.frame_bind) (simp_all add: db_refl)
  moreover have "R (db w) (db (snd (InternalHandler_ActiveDelegations e g rq c w)))"
    unfolding InternalHandler_ActiveDelegations_def queryUUID_def
    by (intro w.frame_bind) (simp_all add: db_refl)
  ultimately show ?thesis
    using assms(2) by (cases route) (auto simp: publicRoutes_def)
qed

end

section \<open>Tenant isolation\<close>

lemma no_tenant_no_effect:
  assumes "route \<in> publicRoutes" "callerTenant e g rq = None"
  shows "snd (NewRouter e g route rq w) = w"
proof (cases "g_Protected g rq")
  case (Inl resp)
  with assms show ?thesis by (simp add: NewRouter_def)
next
  case (Inr prc)
  define c where "c = publicContext e rq prc"
  have rc: "c_rc c = None \<or> (\<exists>rc. c_rc c = Some rc \<and> uuid_Parse e (rc_TenantID rc) = None)"
    using assms(2) Inr by (cases prc) (simp_all add: c_def callerTenant_def)
  have own: "snd (bind_res (ownedTarget e g rq c w) k) = w" for k :: "uuid \<times> uuid \<Rightarrow> world \<Rightarrow> Response handled"
    using rc by (cases "uuid_Parse e (valueOf ''id'' (rq_Params rq))") (auto simp: ownedTarget_def handler_parts)
  have "snd (routeHandler e g route rq c w) = w"
    using assms(1) rc own
    by (auto simp: publicRoutes_def DelegationHandler_List_def DelegationHandler_Create_def DelegationHandler_Cancel_def
        DelegationHandler_Extend_def DelegationHandler_Reassign_def SettingsHandler_Get_def SettingsHandler_Set_def
        handler_parts requireIdempotencyKey_def RequireAnyRole_def Let_def bind_res_def split: prod.split sum.split if_splits)
  with Inr assms(1) show ?thesis by (simp add: NewRouter_def c_def)
qed

lemma public_isolated:
  assumes "route \<in> publicRoutes" "callerTenant e g rq = Some T"
  shows "other_tenants_kept T (db w) (db (snd (NewRouter e g route rq w)))"
proof -
  from assms(2) obtain p where p: "g_Protected g rq = Inr (Some p)" "uuid_Parse e (pid_TenantID p) = Some T"
    by (auto simp: callerTenant_def split: sum.splits option.splits)
  then have "tenant_ctx T (publicContext e rq (Some p))" by (simp add: tenant_ctx_def)
  with p assms(1) show ?thesis by (simp add: NewRouter_def jiso.frame_public)
qed

lemma serve_step: "db_step (db w) (db (snd (NewRouter e g route rq w)))"
  by (auto simp: NewRouter_def step.db_refl jstep.frame_public jstep.frame_internal split: sum.split)

section \<open>Settings\<close>

lemma settings_set_admin:
  assumes "NewRouter e g R_SettingsSet rq w = (r, w')" "w' \<noteq> w"
  shows "\<exists>p. g_Protected g rq = Inr (Some p) \<and> (''tenant_admin'' \<in> set (pid_Roles p) \<or> ''tenant_owner'' \<in> set (pid_Roles p))"
proof (cases "g_Protected g rq")
  case (Inl resp)
  with assms show ?thesis by (auto simp: NewRouter_def publicRoutes_def)
next
  case (Inr prc)
  with assms show ?thesis
    by (cases prc) (auto simp: NewRouter_def publicRoutes_def RequireAnyRole_def settingsSetRoles_def HasRole_def split: if_splits)
qed

lemma settings_put_ok:
  assumes "NewRouter e g R_SettingsSet rq w = (Inr resp, w')"
  obtains T req s where "callerTenant e g rq = Some T" "bindSettings (firstValue rq) = Some req"
    "1 \<le> sq_MaxDurationDays req" "sq_MaxDurationDays req \<le> 180"
    "1 \<le> sq_ReviewWindowDays req" "sq_ReviewWindowDays req \<le> 180"
    "resp = JSON 200 (BodySettings (SettingsToResponse s))" "tenant_settings (db w') T = Some s"
    "s_MaxDurationDays s = sq_MaxDurationDays req" "s_ReviewWindowDays s = sq_ReviewWindowDays req"
proof -
  from assms obtain prc where prc: "g_Protected g rq = Inr prc"
    by (auto simp: NewRouter_def publicRoutes_def split: sum.splits)
  with assms obtain p where p: "prc = Some p"
    by (cases prc) (auto simp: NewRouter_def publicRoutes_def RequireAnyRole_def res_iff)
  define c where "c = publicContext e rq (Some p)"
  from assms prc p obtain T req s where
    "uuid_Parse e (pid_TenantID p) = Some T" "bindSettings (firstValue rq) = Some req"
    "SettingsService_Set e c T (sq_MaxDurationDays req) (sq_ReviewWindowDays req) w = (Inr s, w')"
    "resp = JSON 200 (BodySettings (SettingsToResponse s))"
    by (auto simp: NewRouter_def publicRoutes_def c_def RequireAnyRole_def SettingsHandler_Set_def handler_parts res_iff split: if_splits)
  with prc p show ?thesis
    by (intro that [of T req s])
       (auto simp: callerTenant_def SettingsService_Set_def PolicyDaysMin_def PolicyDaysMax_def split: if_splits dest: Settings_Upsert_ok)
qed

lemma settings_get_ok:
  assumes "NewRouter e g R_SettingsGet rq w = (Inr resp, w')"
  obtains T where "callerTenant e g rq = Some T"
    "resp = JSON 200 (BodySettings (SettingsToResponse (effectiveSettings T (db w))))" "db w' = db w"
proof -
  from assms obtain prc where prc: "g_Protected g rq = Inr prc"
    by (auto simp: NewRouter_def publicRoutes_def split: sum.splits)
  with assms obtain p where p: "prc = Some p"
    by (cases prc) (auto simp: NewRouter_def publicRoutes_def SettingsHandler_Get_def handler_parts res_iff)
  define c where "c = publicContext e rq (Some p)"
  from assms prc p obtain T s where T: "uuid_Parse e (pid_TenantID p) = Some T"
    and s: "SettingsRepository_Get e c T w = (Inr s, w')" "resp = JSON 200 (BodySettings (SettingsToResponse s))"
    by (auto simp: NewRouter_def publicRoutes_def c_def SettingsHandler_Get_def SettingsService_Get_def handler_parts res_iff)
  have "bound_ctx T c" using T by (simp add: bound_ctx_def c_def)
  with s have "s = effectiveSettings T (db w)" by (simp add: Settings_Get_bound)
  with s T prc p quiet_Settings_Get [OF s(1)] show ?thesis
    by (intro that [of T]) (simp_all add: callerTenant_def quiet_def)
qed

text \<open>What was written is read back.\<close>

lemma settings_read_back:
  assumes "NewRouter e g R_SettingsSet rq w = (Inr resp, w')" "NewRouter e2 g2 R_SettingsGet rq2 w' = (Inr resp2, w2)"
    and "callerTenant e2 g2 rq2 = callerTenant e g rq"
  shows "resp2 = resp" "\<exists>req v. bindSettings (firstValue rq) = Some req
    \<and> sq_MaxDurationDays req \<in> {1..180} \<and> sq_ReviewWindowDays req \<in> {1..180}
    \<and> resp = JSON 200 (BodySettings \<lparr>se_MaxDurationDays = sq_MaxDurationDays req,
        se_ReviewWindowDays = sq_ReviewWindowDays req, se_RecordVersion = v\<rparr>)"
  by (rule settings_put_ok [OF assms(1)], rule settings_get_ok [OF assms(2)],
      use assms(3) in \<open>auto simp: effectiveSettings_def SettingsToResponse_def\<close>)+

section \<open>Cancelling over HTTP\<close>

lemma http_cancel_ok:
  assumes inv: "db_inv (db w)" and run: "NewRouter e g R_Cancel rq w = (Inr resp, w')"
  obtains p T did d now ok where "g_Protected g rq = Inr (Some p)" "uuid_Parse e (pid_TenantID p) = Some T"
    "uuid_Parse e (valueOf ''id'' (rq_Params rq)) = Some did"
    "d \<in> set (delegations (db w))" "liveRow T did d" "selfOrAdmin e (callerOf rq p) d" "openStatus (d_Status d)"
    "d_RecordVersion d = fst (ParseInt (valueOf ''record_version'' (rq_Query rq)))"
    "resp = JSON 200 (BodyDelegation (DelegationToResponse (stamped now (d\<lparr>d_Status := DelegationCancelled\<rparr>))))"
    "changed (db w) (replace_row (stamped now (d\<lparr>d_Status := DelegationCancelled\<rparr>)) (delegations (db w)))
       (published (hasPublisher e) [endedPayload T d EndReasonCancelled (cancelActor e (publicContext e rq (Some p)) d)]) (db w')"
    "pointerCalls w' = pointerCalls w @ [UPClear T (d_DelegatorID d) ok]"
proof -
  from run obtain prc where prc: "g_Protected g rq = Inr prc"
    by (auto simp: NewRouter_def publicRoutes_def split: sum.splits)
  define c where "c = publicContext e rq prc"
  let ?v = "fst (ParseInt (valueOf ''record_version'' (rq_Query rq)))"
  from run prc obtain T did out w1 where o: "ownedTarget e g rq c w = (Inr (T, did), w1)"
    and s: "cancelInternal e c T did ?v EndReasonCancelled w1 = (Inr out, w')"
    and r: "resp = JSON 200 (BodyDelegation (DelegationToResponse out))"
    by (auto simp: NewRouter_def publicRoutes_def c_def DelegationHandler_Cancel_def DelegationService_Cancel_def res_iff)
  from o obtain rc d where own: "c_rc c = Some rc" "uuid_Parse e (rc_TenantID rc) = Some T"
    "uuid_Parse e (valueOf ''id'' (rq_Params rq)) = Some did"
    "d \<in> set (delegations (db w))" "liveRow T did d" "selfOrAdmin e rc d" and q: "quiet w w1"
    by (rule ownedTarget_ok)
  from own(1) obtain p where p: "prc = Some p" "rc = callerOf rq p"
    by (cases prc) (simp_all add: c_def)
  have c: "c_tx c = None" "c_publisher c = False" by (simp_all add: c_def)
  from q have w1: "db w1 = db w" "pointerCalls w1 = pointerCalls w" by (simp_all add: quiet_def)
  from inv have "db_inv (db w1)" by (simp add: w1)
  from cancelInternal_ok [OF c(1) this s] obtain d' now ok where d': "d' \<in> set (delegations (db w))" "liveRow T did d'"
    "d_RecordVersion d' = ?v" "openStatus (d_Status d')" "out = stamped now (d'\<lparr>d_Status := DelegationCancelled\<rparr>)"
    "changed (db w) (replace_row out (delegations (db w)))
       (if hasPublisher e \<or> c_publisher c then [endedPayload T d' EndReasonCancelled (cancelActor e c d')] else []) (db w')"
    "pointerCalls w' = pointerCalls w @ [UPClear T (d_DelegatorID d') ok]"
    by (metis w1)
  have "d' = d"
    using d'(1,2) own(4,5) inv by (auto simp: db_inv_def liveRow_def intro: distinct_key_eq)
  moreover have "c = publicContext e rq (Some p)" by (simp add: c_def p)
  ultimately show ?thesis
    using d' own p prc c r
    by (intro that [of p T did d now ok]) (auto simp: published_def)
qed

section \<open>The internal reads\<close>

lemma find_filter: "find P xs = (case filter P xs of [] \<Rightarrow> None | x # _ \<Rightarrow> Some x)"
  by (induction xs) auto

lemma dept_reader_answer:
  assumes "no_faults e" "c_tx c = None"
  shows "fst (gucBoundReader_FindActiveDeptDelegateForUser e c T u dept w) =
    Inr (find (deptDelegateRow T u dept) (delegations (db w)))"
proof -
  let ?t = "\<lparr>tx_pool = AppPool, tx_guc = Some T, tx_now = pg_clock e (tick w)\<rparr>"
  have "(rls_visible ?t (d_TenantID r) \<and> deptDelegateRow T u dept r) = deptDelegateRow T u dept r" for r
    by (auto simp: rls_visible_def deptDelegateRow_def)
  then have "sql_select e ?t (deptDelegateRow T u dept) (bump w)
      = (Inr (filter (deptDelegateRow T u dept) (delegations (db w))), bump (bump w))"
    using assms(1) by (simp add: sql_select_def rows_matching_def)
  with assms show ?thesis
    unfolding gucBoundReader_FindActiveDeptDelegateForUser_def DelegationRepository_FindActiveDeptDelegateForUser_def
    by (subst withPool_no_faults) (auto simp: WithTenantGUC_def find_filter split: list.split)
qed

lemma dept_delegate_answer:
  assumes "no_faults e" "uuid_Parse e (valueOf ''tenant_id'' (rq_Query rq)) = Some T"
    "uuid_Parse e (valueOf ''user_id'' (rq_Query rq)) = Some u" "uuid_Parse e (valueOf ''dept_id'' (rq_Query rq)) = Some dept"
  shows "fst (NewRouter e g R_DeptDelegate rq w) =
    Inr (JSON 200 (BodyDept (deptDelegateBody (find (deptDelegateRow T u dept) (delegations (db w))))))"
proof -
  obtain w1 where "gucBoundReader_FindActiveDeptDelegateForUser e requestContext T u dept w
      = (Inr (find (deptDelegateRow T u dept) (delegations (db w))), w1)"
    using dept_reader_answer [OF assms(1), of requestContext T u dept w] by (metis prod.collapse publicContext_simps(8))
  with assms show ?thesis
    by (simp add: NewRouter_def publicRoutes_def InternalHandler_DeptDelegate_def queryUUID_def)
qed

end
