(* ===== verification/Codec.thy ===== *)
theory Codec
  imports Wire Json Consumer
begin

text \<open>
  The codecs of \<^verbatim>\<open>src/internal/adapter/outbound/eventbus\<close>: the Glue wire header with its schema
  version (\<^verbatim>\<open>codec.go\<close>), the validating codec of the enqueue path and the validator of consumed
  payloads. A payload is its list of bytes. The Glue registry, the embedded schema documents,
  the JSON parser on bytes and the compiled schemas are parameters.
\<close>

section \<open>The wire header\<close>

definition glueHeaderVersion :: char where "glueHeaderVersion = CHR 0x03"
definition glueNoCompression :: char where "glueNoCompression = CHR 0x00"
definition glueHeaderSize :: nat where "glueHeaderSize = 18"

text \<open>The 16 bytes of a UUID, most significant first.\<close>

fun be_bytes :: "nat \<Rightarrow> int \<Rightarrow> string" where
  "be_bytes 0 n = []"
| "be_bytes (Suc k) n = be_bytes k (n div 256) @ [char_of (n mod 256)]"

definition be_value :: "string \<Rightarrow> int" where
  "be_value bs = fold (\<lambda>c n. n * 256 + of_char c) bs 0"

definition uuid_bytes :: "uuid \<Rightarrow> string" where "uuid_bytes u = be_bytes 16 (uint u)"
definition uuid_of_bytes :: "string \<Rightarrow> uuid" where "uuid_of_bytes bs = word_of_int (be_value bs)"

definition stripGlueHeader :: "string \<Rightarrow> error + string" where
  "stripGlueHeader encoded =
     (if length encoded < glueHeaderSize then Inl (Raw (plainError ''glue codec: encoded payload is shorter than the Glue header''))
      else if encoded ! 0 \<noteq> glueHeaderVersion then Inl (Raw (plainError ''glue codec: unexpected header version byte''))
      else Inr (drop glueHeaderSize encoded))"

definition prependGlueHeader :: "env \<Rightarrow> string \<Rightarrow> string \<Rightarrow> error + string" where
  "prependGlueHeader e schemaVersionID payload =
     (case uuid_Parse e schemaVersionID of
        None \<Rightarrow> Inl (Raw (plainError ''parse schema version UUID''))
      | Some i \<Rightarrow> Inr ([glueHeaderVersion, glueNoCompression] @ uuid_bytes i @ payload))"

definition GlueDecodeCodec_Encode :: "string \<Rightarrow> string \<Rightarrow> error + (string \<times> string)" where
  "GlueDecodeCodec_Encode etype payload =
     Inl (Raw (plainError ''glue decode codec: Encode is not supported''))"

definition GlueDecodeCodec_Decode :: "string \<Rightarrow> error + string" where
  "GlueDecodeCodec_Decode encoded = stripGlueHeader encoded"

section \<open>Registered definitions\<close>

text \<open>\<open>json.Compact\<close> on a well-formed document: white space outside strings goes.\<close>

datatype scan = Outside | InString | Escaped

fun compact :: "scan \<Rightarrow> string \<Rightarrow> string" where
  "compact st [] = []"
| "compact Outside (c # s) =
     (if c \<in> {CHR '' '', CHR 0x09, CHR 0x0A, CHR 0x0D} then compact Outside s
      else c # compact (if c = CHR 0x22 then InString else Outside) s)"
| "compact InString (c # s) =
     c # compact (if c = CHR 0x22 then Outside else if c = CHR 0x5C then Escaped else InString) s"
| "compact Escaped (c # s) = c # compact InString s"

definition hexDigit :: "nat \<Rightarrow> char" where
  "hexDigit n = (if n < 10 then char_of (48 + n) else char_of (87 + n))"

text \<open>\<open>%04x\<close> of a value below \<open>0x10000\<close>.\<close>

definition hex4 :: "nat \<Rightarrow> string" where
  "hex4 n = map hexDigit [n div 4096 mod 16, n div 256 mod 16, n div 16 mod 16, n mod 16]"

definition escapeRune :: "nat \<Rightarrow> string" where
  "escapeRune r =
     (if r < 0x80 then [char_of r]
      else if r > 0xFFFF
      then (let r' = r - 0x10000
            in [CHR 0x5C, CHR ''u''] @ hex4 (0xD800 + r' div 1024) @ [CHR 0x5C, CHR ''u''] @ hex4 (0xDC00 + r' mod 1024))
      else [CHR 0x5C, CHR ''u''] @ hex4 r)"

definition asciiEscape :: "string \<Rightarrow> string" where
  "asciiEscape b = concat (map (escapeRune \<circ> fst) (runes b))"

text \<open>What the codec asks of the registry and of the JSON library.\<close>

record GlueReply =
  gr_SchemaVersionId :: "string option"
  gr_Status :: string

record Registry =
  rg_wellFormed :: "string \<Rightarrow> bool"   \<comment> \<open>the document is JSON\<close>
  rg_GetSchemaByDefinition :: "nat \<Rightarrow> string \<Rightarrow> string \<Rightarrow> string \<Rightarrow> error + GlueReply"   \<comment> \<open>registry, schema name, definition\<close>

definition registeredDefinition :: "Registry \<Rightarrow> string \<Rightarrow> error + string" where
  "registeredDefinition rg raw =
     (if \<not> rg_wellFormed rg raw then Inl (Raw (plainError ''compact schema''))
      else Inr (asciiEscape (compact Outside raw)))"

section \<open>The Glue codec\<close>

record GlueCodec =
  gl_registryName :: string
  gl_definitions :: "string \<Rightarrow> string option"
  gl_versionCache :: "string \<Rightarrow> string option"
  gl_calls :: nat   \<comment> \<open>requests sent to the registry so far\<close>

definition schemaProblem :: "string \<Rightarrow> error" where "schemaProblem t = Raw (plainError t)"

definition fetchVersionID :: "Registry \<Rightarrow> string \<Rightarrow> GlueCodec \<Rightarrow> (error, string, GlueCodec) outcome" where
  "fetchVersionID rg etype g =
     (case gl_definitions g etype of
        None \<Rightarrow> (Inl (schemaProblem ''no embedded schema''), g)
      | Some raw \<Rightarrow>
          (case registeredDefinition rg raw of
             Inl err \<Rightarrow> (Inl err, g)
           | Inr definition_text \<Rightarrow>
               (case rg_GetSchemaByDefinition rg (gl_calls g) (gl_registryName g) etype definition_text of
                  Inl err \<Rightarrow> (Inl err, g\<lparr>gl_calls := Suc (gl_calls g)\<rparr>)
                | Inr out \<Rightarrow>
                    (case gr_SchemaVersionId out of
                       None \<Rightarrow> (Inl (schemaProblem ''nil SchemaVersionId''), g\<lparr>gl_calls := Suc (gl_calls g)\<rparr>)
                     | Some i \<Rightarrow>
                         if gr_Status out \<noteq> ''AVAILABLE''
                         then (Inl (schemaProblem ''schema version is not AVAILABLE''), g\<lparr>gl_calls := Suc (gl_calls g)\<rparr>)
                         else (Inr i, g\<lparr>gl_calls := Suc (gl_calls g)\<rparr>)))))"

fun fetchAll :: "Registry \<Rightarrow> string list \<Rightarrow> GlueCodec \<Rightarrow> (error, unit, GlueCodec) outcome" where
  "fetchAll rg [] g = (Inr (), g)"
| "fetchAll rg (name # names) g =
     bind_res (fetchVersionID rg name g) (\<lambda>i g.
       fetchAll rg names (g\<lparr>gl_versionCache := (gl_versionCache g)(name \<mapsto> i)\<rparr>))"

definition NewGlueCodec :: "Registry \<Rightarrow> string \<Rightarrow> (string \<Rightarrow> string option) \<Rightarrow> string list \<Rightarrow> error + GlueCodec" where
  "NewGlueCodec rg registryName definitions schemaNames =
     (case fetchAll rg schemaNames
             \<lparr>gl_registryName = registryName, gl_definitions = definitions, gl_versionCache = (\<lambda>_. None), gl_calls = 0\<rparr> of
        (Inl err, _) \<Rightarrow> Inl err
      | (Inr _, g) \<Rightarrow> Inr g)"

definition versionID :: "Registry \<Rightarrow> string \<Rightarrow> GlueCodec \<Rightarrow> (error, string, GlueCodec) outcome" where
  "versionID rg etype g =
     (case gl_versionCache g etype of
        Some i \<Rightarrow> (Inr i, g)
      | None \<Rightarrow> bind_res (fetchVersionID rg etype g) (\<lambda>i g.
                   (Inr i, g\<lparr>gl_versionCache := (gl_versionCache g)(etype \<mapsto> i)\<rparr>)))"

definition GlueCodec_Encode :: "env \<Rightarrow> Registry \<Rightarrow> string \<Rightarrow> string \<Rightarrow> GlueCodec \<Rightarrow> (error, string \<times> string, GlueCodec) outcome" where
  "GlueCodec_Encode e rg etype payload g =
     bind_res (versionID rg etype g) (\<lambda>vid g.
       case prependGlueHeader e vid payload of
         Inl err \<Rightarrow> (Inl err, g)
       | Inr out \<Rightarrow> (Inr (out, vid), g))"

definition GlueCodec_Decode :: "string \<Rightarrow> error + string" where
  "GlueCodec_Decode encoded = stripGlueHeader encoded"

section \<open>Validation\<close>

type_synonym schemas = "string \<Rightarrow> (json \<Rightarrow> bool) option"   \<comment> \<open>compiled schemas by event type\<close>

text \<open>The validating codec around another one; an event type without a schema passes.\<close>

definition ValidatingCodec_Encode :: "(string \<Rightarrow> raw_json) \<Rightarrow> schemas \<Rightarrow> (string \<Rightarrow> string \<Rightarrow> error + (string \<times> string)) \<Rightarrow> string \<Rightarrow> string \<Rightarrow> error + (string \<times> string)" where
  "ValidatingCodec_Encode parse sch inner etype payload =
     (case sch etype of
        None \<Rightarrow> inner etype payload
      | Some valid \<Rightarrow>
          (case parse payload of
             None \<Rightarrow> Inl (Raw (plainError ''payload is not JSON''))
           | Some doc \<Rightarrow> if valid doc then inner etype payload else Inl (Raw (plainError ''validate''))))"

definition ErrSchemaViolation :: RawError where
  "ErrSchemaViolation = (plainError ''inbound payload violates consumed schema'')\<lparr>raw_SchemaViolation := True\<rparr>"

definition ConsumedValidator_Validate :: "schemas \<Rightarrow> PayloadValidator" where
  "ConsumedValidator_Validate sch etype payload =
     (case sch etype of
        None \<Rightarrow> None
      | Some valid \<Rightarrow>
          (case payload of
             None \<Rightarrow> Some ErrSchemaViolation
           | Some instance_value \<Rightarrow> if valid instance_value then None else Some ErrSchemaViolation))"

text \<open>The strict validator: an unregistered event type is an error.\<close>

definition SchemaValidator_Validate :: "schemas \<Rightarrow> string \<Rightarrow> raw_json \<Rightarrow> error option" where
  "SchemaValidator_Validate sch etype payload =
     (case sch etype of
        None \<Rightarrow> Some (Raw (plainError ''no schema registered for event type''))
      | Some valid \<Rightarrow>
          (case payload of
             None \<Rightarrow> Some (Raw (plainError ''schema validation: unmarshal payload''))
           | Some instance_value \<Rightarrow>
               if valid instance_value then None else Some (Raw (plainError ''event payload violates schema''))))"

section \<open>The header round trip\<close>

lemma be_value_snoc: "be_value (xs @ [c]) = be_value xs * 256 + of_char c"
  by (simp add: be_value_def)

lemma of_char_byte: "(of_char (char_of (n mod 256 :: int)) :: int) = n mod 256"
  by (simp add: of_char_of)

lemma be_value_bytes: "be_value (be_bytes k n) = n mod 256 ^ k"
proof (induction k arbitrary: n)
  case 0
  show ?case by (simp add: be_value_def)
next
  case (Suc k)
  have "n mod (256 * 256 ^ k) = 256 * (n div 256 mod 256 ^ k) + n mod 256"
    by (rule zmod_zmult2_eq) simp
  with Suc [of "n div 256"] show ?case by (simp add: be_value_snoc of_char_byte)
qed

lemma length_be_bytes [simp]: "length (be_bytes k n) = k"
  by (induction k arbitrary: n) auto

lemma uuid_bytes_back [simp]: "uuid_of_bytes (uuid_bytes u) = u" "length (uuid_bytes u) = 16"
proof -
  have "uint u < 256 ^ 16" using uint_lt2p [of u] by simp
  then show "uuid_of_bytes (uuid_bytes u) = u"
    by (simp add: uuid_of_bytes_def uuid_bytes_def be_value_bytes)
qed (simp add: uuid_bytes_def)

lemma header_round_trip:
  assumes "prependGlueHeader e vid payload = Inr out"
  shows "stripGlueHeader out = Inr payload"
    "uuid_Parse e vid = Some (uuid_of_bytes (take 16 (drop 2 out)))" "length out = glueHeaderSize + length payload"
  using assms by (auto simp: prependGlueHeader_def stripGlueHeader_def glueHeaderSize_def split: option.splits)

lemma Encode_ok:
  assumes "GlueCodec_Encode e rg etype payload g = (Inr (out, vid), g')"
  shows "prependGlueHeader e vid payload = Inr out" "gl_versionCache g' etype = Some vid"
proof -
  from assms obtain vid' g1 where v: "versionID rg etype g = (Inr vid', g1)"
    and k: "(case prependGlueHeader e vid' payload of Inl err \<Rightarrow> (Inl err, g1) | Inr out \<Rightarrow> (Inr (out, vid'), g1)) = (Inr (out, vid), g')"
    unfolding GlueCodec_Encode_def res_iff by blast
  from k have "prependGlueHeader e vid payload = Inr out" "vid' = vid" "g1 = g'"
    by (cases "prependGlueHeader e vid' payload"; simp)+
  with v show "prependGlueHeader e vid payload = Inr out" "gl_versionCache g' etype = Some vid"
    by (auto simp: versionID_def res_iff split: option.splits)
qed

section \<open>Pinned versions\<close>

text \<open>The registry has answered that this version is available for exactly this definition.\<close>

definition registered :: "Registry \<Rightarrow> GlueCodec \<Rightarrow> string \<Rightarrow> string \<Rightarrow> bool" where
  "registered rg g name vid \<longleftrightarrow>
     (\<exists>raw txt n out. gl_definitions g name = Some raw \<and> registeredDefinition rg raw = Inr txt
        \<and> rg_GetSchemaByDefinition rg n (gl_registryName g) name txt = Inr out
        \<and> gr_SchemaVersionId out = Some vid \<and> gr_Status out = ''AVAILABLE'')"

definition pinned :: "Registry \<Rightarrow> GlueCodec \<Rightarrow> bool" where
  "pinned rg g \<longleftrightarrow> (\<forall>name vid. gl_versionCache g name = Some vid \<longrightarrow> registered rg g name vid)"

lemma fetchVersionID_ok:
  assumes "fetchVersionID rg name g = (Inr i, g')"
  shows "registered rg g name i" "gl_definitions g' = gl_definitions g" "gl_registryName g' = gl_registryName g"
    "gl_versionCache g' = gl_versionCache g"
  using assms by (force simp: fetchVersionID_def registered_def split: option.splits sum.splits if_splits)+

lemma registered_cong:
  "gl_definitions g' = gl_definitions g \<Longrightarrow> gl_registryName g' = gl_registryName g \<Longrightarrow> registered rg g' = registered rg g"
  by (intro ext) (simp add: registered_def)

lemma pinned_extend:
  assumes "pinned rg g" "fetchVersionID rg name g = (Inr i, g1)"
  shows "pinned rg (g1\<lparr>gl_versionCache := (gl_versionCache g1)(name \<mapsto> i)\<rparr>)"
proof -
  note f = fetchVersionID_ok [OF assms(2)]
  have "registered rg (g1\<lparr>gl_versionCache := (gl_versionCache g1)(name \<mapsto> i)\<rparr>) = registered rg g"
    by (rule registered_cong) (simp_all add: f)
  with assms(1) f show ?thesis by (simp add: pinned_def)
qed

lemma fetchAll_ok:
  "pinned rg g \<Longrightarrow> fetchAll rg names g = (Inr u, g') \<Longrightarrow>
     pinned rg g' \<and> (\<forall>n. n \<in> set names \<or> gl_versionCache g n \<noteq> None \<longrightarrow> gl_versionCache g' n \<noteq> None)"
proof (induction names arbitrary: g)
  case (Cons name names)
  from Cons.prems(2) obtain i g1 where f: "fetchVersionID rg name g = (Inr i, g1)"
    and r: "fetchAll rg names (g1\<lparr>gl_versionCache := (gl_versionCache g1)(name \<mapsto> i)\<rparr>) = (Inr u, g')"
    by (auto simp: res_iff)
  from Cons.IH [OF pinned_extend [OF Cons.prems(1) f] r] fetchVersionID_ok(4) [OF f] show ?case by auto
qed simp

lemma NewGlueCodec_ok:
  assumes "NewGlueCodec rg registryName definitions names = Inr g"
  shows "pinned rg g" "n \<in> set names \<Longrightarrow> gl_versionCache g n \<noteq> None"
proof -
  let ?g0 = "\<lparr>gl_registryName = registryName, gl_definitions = definitions, gl_versionCache = (\<lambda>_. None), gl_calls = 0\<rparr>"
  from assms obtain u where f: "fetchAll rg names ?g0 = (Inr u, g)"
    by (auto simp: NewGlueCodec_def split: prod.splits sum.splits)
  have "pinned rg ?g0" by (simp add: pinned_def)
  from fetchAll_ok [OF this f] show "pinned rg g" "n \<in> set names \<Longrightarrow> gl_versionCache g n \<noteq> None" by auto
qed

lemma Encode_pinned:
  assumes "pinned rg g" "GlueCodec_Encode e rg etype payload g = (r, g')"
  shows "pinned rg g'" "gl_versionCache g etype \<noteq> None \<Longrightarrow> g' = g"
proof -
  obtain x g1 where v: "versionID rg etype g = (x, g1)" by force
  have "pinned rg g1"
  proof (cases "gl_versionCache g etype")
    case None
    obtain y g2 where f: "fetchVersionID rg etype g = (y, g2)" by force
    show ?thesis
    proof (cases y)
      case (Inl err)
      with f have "gl_definitions g2 = gl_definitions g \<and> gl_registryName g2 = gl_registryName g \<and> gl_versionCache g2 = gl_versionCache g"
        by (auto simp: fetchVersionID_def split: option.splits sum.splits if_splits)
      moreover from this have "registered rg g2 = registered rg g" by (intro registered_cong) simp_all
      ultimately show ?thesis
        using Inl f v None assms(1) by (auto simp: versionID_def pinned_def)
    next
      case (Inr i)
      with f v None pinned_extend [OF assms(1)] show ?thesis by (auto simp: versionID_def)
    qed
  qed (use v assms(1) in \<open>simp add: versionID_def\<close>)
  with v assms(2) show "pinned rg g'"
    by (cases x) (auto simp: GlueCodec_Encode_def split: sum.splits)
  show "gl_versionCache g etype \<noteq> None \<Longrightarrow> g' = g"
    using assms(2) by (auto simp: GlueCodec_Encode_def versionID_def split: sum.splits)
qed

section \<open>Escaping\<close>

lemma hexDigit_ascii: "n < 16 \<Longrightarrow> of_char (hexDigit n) < (0x80 :: nat)"
  by (auto simp: hexDigit_def)

lemma escapeRune_ascii: "c \<in> set (escapeRune r) \<Longrightarrow> of_char c < (0x80 :: nat)"
  by (auto simp: escapeRune_def hex4_def Let_def hexDigit_ascii split: if_splits)

lemma asciiEscape_ascii: "c \<in> set (asciiEscape b) \<Longrightarrow> of_char c < (0x80 :: nat)"
  by (auto simp: asciiEscape_def escapeRune_ascii)

lemma runes_ascii:
  "\<forall>c \<in> set s. of_char c < (0x80 :: nat) \<Longrightarrow> runes s = map (\<lambda>c. (of_char c, [c])) s"
proof (induction s)
  case (Cons c s)
  then have "DecodeRuneInString (c # s) = (of_char c, 1)" by (simp add: DecodeRuneInString_def Let_def)
  with Cons show ?case by (subst runes.simps) simp
qed simp

lemma asciiEscape_id: "\<forall>c \<in> set s. of_char c < (0x80 :: nat) \<Longrightarrow> asciiEscape s = s"
  by (induction s) (simp_all add: asciiEscape_def runes_ascii escapeRune_def)

end
