(* ===== verification/EventSchema.thy ===== *)
theory EventSchema
  imports Codec CascadeService Jobs
begin

text \<open>
  The published event payloads as JSON and the embedded schemas of
  \<^verbatim>\<open>src/internal/eventschema\<close> that the enqueue path validates them against. Of JSON Schema
  (draft 7) the documents use \<open>type\<close>, \<open>required\<close>, \<open>properties\<close>, \<open>enum\<close>, \<open>minItems\<close>, \<open>items\<close> and
  \<open>format\<close>; unknown members are allowed. What the schema library accepts as a format is a
  parameter.
\<close>

section \<open>Schemas\<close>

datatype schema =
  SString "string list option" "string option"   \<comment> \<open>enum, format\<close>
| SInteger "int list"   \<comment> \<open>enum\<close>
| SStrings nat   \<comment> \<open>array of strings, minItems\<close>
| SObject "string list" "(string \<times> schema) list"   \<comment> \<open>required, properties\<close>

text \<open>An object is decoded into a map first: the last of two equal keys wins.\<close>

definition lastMember :: "(string \<times> json) list \<Rightarrow> string \<Rightarrow> json option" where
  "lastMember ms k = map_of (rev ms) k"

fun isStr :: "json \<Rightarrow> bool" where "isStr (JStr _) = True" | "isStr _ = False"

fun satisfies :: "(string \<Rightarrow> string \<Rightarrow> bool) \<Rightarrow> schema \<Rightarrow> json \<Rightarrow> bool" where
  "satisfies fmt (SString en f) (JStr s) \<longleftrightarrow>
     (case en of None \<Rightarrow> True | Some xs \<Rightarrow> s \<in> set xs) \<and> (case f of None \<Rightarrow> True | Some name \<Rightarrow> fmt name s)"
| "satisfies fmt (SInteger xs) (JNum n) \<longleftrightarrow> n \<in> set xs"
| "satisfies fmt (SStrings k) (JArr xs) \<longleftrightarrow> k \<le> length xs \<and> list_all isStr xs"
| "satisfies fmt (SObject req props) (JObj ms) \<longleftrightarrow>
     list_all (\<lambda>k. lastMember ms k \<noteq> None) req
     \<and> list_all (\<lambda>(k, sch). case lastMember ms k of None \<Rightarrow> True | Some v \<Rightarrow> satisfies fmt sch v) props"
| "satisfies fmt _ _ \<longleftrightarrow> False"

abbreviation SUuid :: schema where "SUuid \<equiv> SString None (Some ''uuid'')"
abbreviation STime :: schema where "STime \<equiv> SString None (Some ''date-time'')"
abbreviation SEnum :: "string list \<Rightarrow> schema" where "SEnum xs \<equiv> SString (Some xs) None"

definition scopeEnum :: schema where "scopeEnum = SEnum [''all'', ''department'', ''tender'']"

definition delegationStartedSchema :: schema where
  "delegationStartedSchema =
     SObject [''delegation_id'', ''delegator_id'', ''delegate_id'', ''scope'', ''starts_at'']
       [(''delegation_id'', SUuid), (''tenant_id'', SUuid), (''delegator_id'', SUuid), (''delegate_id'', SUuid),
        (''scope'', scopeEnum), (''scope_id'', SUuid), (''starts_at'', STime), (''ends_at'', STime), (''actor_id'', SUuid)]"

definition endedReasonEnum :: schema where
  "endedReasonEnum = SEnum [''expired'', ''cancelled'', ''reassigned'', ''delegate_removed'', ''review_expired'', ''delegate_disabled'']"

definition delegationEndedSchema :: schema where
  "delegationEndedSchema =
     SObject [''delegation_id'', ''delegator_id'', ''delegate_id'', ''ended_reason'']
       [(''delegation_id'', SUuid), (''tenant_id'', SUuid), (''delegator_id'', SUuid), (''delegate_id'', SUuid),
        (''scope'', scopeEnum), (''scope_id'', SUuid),
        (''ended_reason'', endedReasonEnum),
        (''actor_id'', SUuid)]"

definition delegationReviewRequestedSchema :: schema where
  "delegationReviewRequestedSchema =
     SObject [''delegation_id'', ''delegator_id'', ''delegate_id'', ''days_remaining'']
       [(''delegation_id'', SUuid), (''tenant_id'', SUuid), (''delegator_id'', SUuid), (''delegate_id'', SUuid),
        (''scope'', scopeEnum), (''scope_id'', SUuid), (''days_remaining'', SInteger [3, 2, 1]), (''actor_id'', SUuid)]"

definition delegationEscalationRequestedSchema :: schema where
  "delegationEscalationRequestedSchema =
     SObject [''delegation_id'', ''delegator_id'', ''delegate_id'', ''reason'']
       [(''delegation_id'', SUuid), (''tenant_id'', SUuid), (''delegator_id'', SUuid), (''delegate_id'', SUuid),
        (''scope'', scopeEnum), (''scope_id'', SUuid), (''reason'', SEnum [''delegate_disabled'']), (''actor_id'', SUuid)]"

definition membershipRevokedSchema :: schema where
  "membershipRevokedSchema =
     SObject [''tenant_id'', ''user_id''] [(''tenant_id'', SUuid), (''user_id'', SUuid), (''actor_id'', SUuid)]"

definition tenantMembershipsPurgedSchema :: schema where
  "tenantMembershipsPurgedSchema = SObject [''tenant_id''] [(''tenant_id'', SUuid), (''actor_id'', SUuid)]"

definition userUpdatedSchema :: schema where
  "userUpdatedSchema =
     SObject [''user_id'', ''changed_fields'']
       [(''user_id'', SUuid), (''changed_fields'', SStrings 1), (''status'', SEnum [''active'', ''disabled'', ''deleted''])]"

definition ByEventType :: "(string \<times> schema) list" where
  "ByEventType =
     [(''DelegationStarted'', delegationStartedSchema), (''DelegationEnded'', delegationEndedSchema),
      (''DelegationReviewRequested'', delegationReviewRequestedSchema),
      (''DelegationEscalationRequested'', delegationEscalationRequestedSchema)]"

definition Consumed :: "(string \<times> schema) list" where
  "Consumed =
     [(''MembershipRevoked'', membershipRevokedSchema), (''TenantMembershipsPurged'', tenantMembershipsPurgedSchema),
      (''UserUpdated'', userUpdatedSchema)]"

definition compiled :: "(string \<Rightarrow> string \<Rightarrow> bool) \<Rightarrow> (string \<times> schema) list \<Rightarrow> schemas" where
  "compiled fmt table name = map_option (satisfies fmt) (map_of table name)"

definition consumedValidator :: "(string \<Rightarrow> string \<Rightarrow> bool) \<Rightarrow> PayloadValidator" where
  "consumedValidator fmt = ConsumedValidator_Validate (compiled fmt Consumed)"

section \<open>Payloads as JSON\<close>

fun endReasonString :: "EndReason \<Rightarrow> string" where
  "endReasonString EndReasonExpired = ''expired''"
| "endReasonString EndReasonCancelled = ''cancelled''"
| "endReasonString EndReasonReassigned = ''reassigned''"
| "endReasonString EndReasonDelegateRemoved = ''delegate_removed''"
| "endReasonString EndReasonReviewExpired = ''review_expired''"
| "endReasonString EndReasonDelegateDisabled = ''delegate_disabled''"

text \<open>
  \<open>time.Time.MarshalJSON\<close>: RFC 3339 with the fraction's trailing zeros dropped. (It fails for a
  year outside 0 to 9999; \<open>wireTimes\<close> below says that a row has none.)
\<close>

definition fractionText :: "int \<Rightarrow> string" where
  "fractionText us =
     (if us = 0 then [] else CHR ''.'' # rev (dropWhile (\<lambda>c. c = CHR ''0'') (rev (pad2 (us div 10000) @ pad2 (us div 100 mod 100) @ pad2 (us mod 100)))))"

definition timeJSON :: "time \<Rightarrow> string" where
  "timeJSON t = butlast (formatRFC3339 t) @ fractionText (t mod 1000000) @ ''Z''"

definition optional :: "string \<Rightarrow> ('a \<Rightarrow> json) \<Rightarrow> 'a option \<Rightarrow> (string \<times> json) list" where
  "optional k f x = (case x of None \<Rightarrow> [] | Some v \<Rightarrow> [(k, f v)])"

abbreviation uuidJSON :: "env \<Rightarrow> uuid \<Rightarrow> json" where "uuidJSON e u \<equiv> JStr (uuid_String e u)"

fun payloadJSON :: "env \<Rightarrow> EventData \<Rightarrow> json" where
  "payloadJSON e (DelegationStarted p) =
     JObj ([(''delegation_id'', uuidJSON e (st_DelegationID p)), (''tenant_id'', uuidJSON e (st_TenantID p)),
            (''delegator_id'', uuidJSON e (st_DelegatorID p)), (''delegate_id'', uuidJSON e (st_DelegateID p)),
            (''scope'', JStr (scopeString (st_Scope p)))]
       @ optional ''scope_id'' (uuidJSON e) (st_ScopeID p)
       @ [(''starts_at'', JStr (timeJSON (st_StartsAt p)))]
       @ optional ''ends_at'' (\<lambda>t. JStr (timeJSON t)) (st_EndsAt p)
       @ [(''actor_id'', uuidJSON e (st_ActorID p))])"
| "payloadJSON e (DelegationEndedEv p) =
     JObj ([(''delegation_id'', uuidJSON e (en_DelegationID p)), (''tenant_id'', uuidJSON e (en_TenantID p)),
            (''delegator_id'', uuidJSON e (en_DelegatorID p)), (''delegate_id'', uuidJSON e (en_DelegateID p)),
            (''scope'', JStr (scopeString (en_Scope p)))]
       @ optional ''scope_id'' (uuidJSON e) (en_ScopeID p)
       @ [(''ended_reason'', JStr (endReasonString (en_EndedReason p))), (''actor_id'', uuidJSON e (en_ActorID p))])"
| "payloadJSON e (DelegationReviewRequested p) =
     JObj ([(''delegation_id'', uuidJSON e (rv_DelegationID p)), (''tenant_id'', uuidJSON e (rv_TenantID p)),
            (''delegator_id'', uuidJSON e (rv_DelegatorID p)), (''delegate_id'', uuidJSON e (rv_DelegateID p)),
            (''scope'', JStr (scopeString (rv_Scope p)))]
       @ optional ''scope_id'' (uuidJSON e) (rv_ScopeID p)
       @ [(''days_remaining'', JNum (rv_DaysRemaining p)), (''actor_id'', uuidJSON e (rv_ActorID p))])"
| "payloadJSON e (DelegationEscalationRequested p) =
     JObj ([(''delegation_id'', uuidJSON e (es_DelegationID p)), (''tenant_id'', uuidJSON e (es_TenantID p)),
            (''delegator_id'', uuidJSON e (es_DelegatorID p)), (''delegate_id'', uuidJSON e (es_DelegateID p)),
            (''scope'', JStr (scopeString (es_Scope p)))]
       @ optional ''scope_id'' (uuidJSON e) (es_ScopeID p)
       @ [(''reason'', JStr (endReasonString (es_Reason p))), (''actor_id'', uuidJSON e (es_ActorID p))])"

text \<open>The enqueue check: the validating codec's schema for the event type, on the payload.\<close>

definition enqueueValid :: "(string \<Rightarrow> string \<Rightarrow> bool) \<Rightarrow> env \<Rightarrow> EventData \<Rightarrow> bool" where
  "enqueueValid fmt e d =
     (case compiled fmt ByEventType (eventType d) of None \<Rightarrow> True | Some valid \<Rightarrow> valid (payloadJSON e d))"

definition with_schemas :: "(string \<Rightarrow> string \<Rightarrow> bool) \<Rightarrow> env \<Rightarrow> env" where
  "with_schemas fmt e = e\<lparr>schema_valid := (\<lambda>evt. enqueueValid fmt e (ev_Data evt))\<rparr>"

section \<open>The service's own events pass its own validation\<close>

text \<open>What the format checks of the schema library must accept.\<close>

definition formatsOK :: "(string \<Rightarrow> string \<Rightarrow> bool) \<Rightarrow> env \<Rightarrow> bool" where
  "formatsOK fmt e \<longleftrightarrow> (\<forall>u. fmt ''uuid'' (uuid_String e u)) \<and> (\<forall>t. wireTime t \<longrightarrow> fmt ''date-time'' (timeJSON t))"

text \<open>The window of a delegation can be written in RFC 3339.\<close>

definition wireTimes :: "Delegation \<Rightarrow> bool" where
  "wireTimes r \<longleftrightarrow> wireTime (d_StartsAt r) \<and> (case d_EndsAt r of None \<Rightarrow> True | Some t \<Rightarrow> wireTime t)"

lemma lastMember_simps [simp]:
  "lastMember [] k = None"
  "lastMember (xs @ [(k', v)]) k = (if k = k' then Some v else lastMember xs k)"
  by (simp_all add: lastMember_def)

lemma lastMember_Cons [simp]:
  "lastMember ((k', v) # ms) k = (case lastMember ms k of None \<Rightarrow> if k = k' then Some v else None | Some x \<Rightarrow> Some x)"
  by (auto simp: lastMember_def map_add_def split: option.split)

text \<open>The values that occur: ids, times, scopes and reasons each satisfy their schema.\<close>

lemma value_schemas:
  assumes "formatsOK fmt e"
  shows "satisfies fmt SUuid (uuidJSON e u)" "wireTime t \<Longrightarrow> satisfies fmt STime (JStr (timeJSON t))"
  using assms by (simp_all add: formatsOK_def)

lemma row_scope: "delegationRowOK r \<Longrightarrow> satisfies fmt scopeEnum (JStr (scopeString (d_Scope r)))"
  by (auto simp: delegationRowOK_def chk_scope_id_def scopeEnum_def)

lemma reason_schema: "satisfies fmt endedReasonEnum (JStr (endReasonString reason))"
  by (cases reason) (simp_all add: endedReasonEnum_def)

lemma optional_simps [simp]: "optional k f None = []" "optional k f (Some v) = [(k, f v)]"
  by (simp_all add: optional_def)

lemma enqueueValid_iff:
  "enqueueValid fmt e (DelegationStarted p) \<longleftrightarrow> satisfies fmt delegationStartedSchema (payloadJSON e (DelegationStarted p))"
  "enqueueValid fmt e (DelegationEndedEv q) \<longleftrightarrow> satisfies fmt delegationEndedSchema (payloadJSON e (DelegationEndedEv q))"
  "enqueueValid fmt e (DelegationReviewRequested x) \<longleftrightarrow> satisfies fmt delegationReviewRequestedSchema (payloadJSON e (DelegationReviewRequested x))"
  "enqueueValid fmt e (DelegationEscalationRequested y) \<longleftrightarrow> satisfies fmt delegationEscalationRequestedSchema (payloadJSON e (DelegationEscalationRequested y))"
  by (simp_all add: enqueueValid_def compiled_def ByEventType_def)

lemma started_valid:
  assumes "formatsOK fmt e" "delegationRowOK r" "wireTimes r"
  shows "enqueueValid fmt e (startedPayload T r a)"
  using value_schemas [OF assms(1)] row_scope [OF assms(2), of fmt] assms(3)
  by (cases "d_ScopeID r"; cases "d_EndsAt r")
     (simp_all add: enqueueValid_iff startedPayload_def delegationStartedSchema_def wireTimes_def del: satisfies.simps(1))

lemma ended_valid:
  assumes "formatsOK fmt e" "delegationRowOK r"
  shows "enqueueValid fmt e (endedPayload T r reason a)"
  using value_schemas(1) [OF assms(1)] row_scope [OF assms(2), of fmt] reason_schema [of fmt reason]
  by (cases "d_ScopeID r")
     (simp_all add: enqueueValid_iff endedPayload_def delegationEndedSchema_def del: satisfies.simps(1))

lemma review_valid:
  assumes "formatsOK fmt e" "delegationRowOK r" "n \<in> {1, 2, 3}"
  shows "enqueueValid fmt e (reviewPayload r n)"
proof -
  have "satisfies fmt (SInteger [3, 2, 1]) (JNum n)" using assms(3) by auto
  with value_schemas(1) [OF assms(1)] row_scope [OF assms(2), of fmt] show ?thesis
    by (cases "d_ScopeID r")
       (simp_all add: enqueueValid_iff reviewPayload_def delegationReviewRequestedSchema_def del: satisfies.simps(1,2))
qed

lemma escalation_valid:
  assumes "formatsOK fmt e" "delegationRowOK r"
  shows "enqueueValid fmt e (escalationPayload T r)"
proof -
  have "satisfies fmt (SEnum [''delegate_disabled'']) (JStr (endReasonString EndReasonDelegateDisabled))" by simp
  with value_schemas(1) [OF assms(1)] row_scope [OF assms(2), of fmt] show ?thesis
    by (cases "d_ScopeID r")
       (simp_all add: enqueueValid_iff escalationPayload_def delegationEscalationRequestedSchema_def del: satisfies.simps(1))
qed

text \<open>An event whose payload violates its consumed schema changes nothing and is not acknowledged.\<close>

lemma violation_rejected:
  assumes "map_of Consumed (ee_Type evp) = Some sch" "case ee_Payload evp of None \<Rightarrow> True | Some j \<Rightarrow> \<not> satisfies fmt sch j"
    "uuid_Parse e (ee_ID evp) = Some i" "i \<noteq> 0"
  shows "\<exists>w'. CascadeConsumer_Handle e (Some (consumedValidator fmt)) c evp w = (Inl (Raw ErrSchemaViolation), w') \<and> quiet w w'"
proof -
  have v: "consumedValidator fmt (ee_Type evp) (ee_Payload evp) = Some ErrSchemaViolation"
    using assms(1,2) by (auto simp: consumedValidator_def ConsumedValidator_Validate_def compiled_def split: option.splits)
  have "ee_Type evp \<in> dispatchedTypes"
    using assms(1) by (auto simp: Consumed_def dispatchedTypes_def split: if_splits)
  with v assms(3,4) show ?thesis
    by (simp add: CascadeConsumer_Handle_def Let_def validatePayload_def quiet_def pointerCalls_def)
qed

end
