(* ===== verification/Clients.thy ===== *)
theory Clients
  imports Wire Json DelegationService
begin

text \<open>
  The outbound HTTP clients of \<^verbatim>\<open>src/internal/adapter/outbound\<close>: \<^verbatim>\<open>userprofile\<close>,
  \<^verbatim>\<open>orgmembership\<close>, \<^verbatim>\<open>catalogadmin\<close> and \<^verbatim>\<open>tender\<close>. The network is the record \<open>Net\<close>: whether a
  URL parses and what a request is answered, an error standing for a failed or timed-out
  exchange. Trace headers added on the way out, latency metrics and the text of a wrapped decode
  or URL error are left out. \<open>with_clients\<close>
  puts the clients behind the ports of the use cases.
\<close>

section \<open>The network\<close>

record HttpCall =
  hq_Method :: string
  hq_URL :: string
  hq_Headers :: "(string \<times> string) list"
  hq_Body :: "json option"

record HttpReply =
  hr_Status :: int
  hr_First :: "(json \<times> nat) option"   \<comment> \<open>the first JSON value of the body and where it ends\<close>

record Net =
  net_urlParses :: "string \<Rightarrow> bool"
  net_Do :: "nat \<Rightarrow> HttpCall \<Rightarrow> RawError + HttpReply"

record HTTPClient =
  hc_baseURL :: string
  hc_timeout :: duration

definition defaultTimeout :: duration where "defaultTimeout = 3 * second"

text \<open>The constructors of the four packages differ in the package name only.\<close>

definition newHTTPClient :: "string \<Rightarrow> string \<Rightarrow> duration \<Rightarrow> error + HTTPClient" where
  "newHTTPClient pkg baseURL timeout =
     (let base = TrimSpace baseURL
      in if base = [] then Inl (Raw (plainError (pkg @ '': baseURL is required'')))
         else Inr \<lparr>hc_baseURL = TrimRightSlash base, hc_timeout = (if timeout \<le> 0 then defaultTimeout else timeout)\<rparr>)"

definition userprofile_NewHTTPClient where "userprofile_NewHTTPClient = newHTTPClient ''userprofile''"
definition orgmembership_NewHTTPChecker where "orgmembership_NewHTTPChecker = newHTTPClient ''orgmembership''"
definition catalogadmin_NewHTTPClient where "catalogadmin_NewHTTPClient = newHTTPClient ''catalogadmin''"
definition tender_NewHTTPClient where "tender_NewHTTPClient = newHTTPClient ''tender''"

section \<open>Errors of a client\<close>

definition failed :: "string \<Rightarrow> error" where "failed t = Raw (plainError t)"

text \<open>\<open>fmt.Errorf("...: %w: %w", err, port.ErrDependencyUnavailable)\<close> keeps what \<open>err\<close> is.\<close>

definition unavailableBecause :: "string \<Rightarrow> RawError \<Rightarrow> error" where
  "unavailableBecause prefix r =
     Raw (r\<lparr>raw_DependencyUnavailable := True, raw_Text := prefix @ '': '' @ raw_Text r @ '': dependency_unavailable''\<rparr>)"

definition unavailable :: "string \<Rightarrow> error" where
  "unavailable prefix =
     Raw ((plainError (prefix @ '': dependency_unavailable''))\<lparr>raw_DependencyUnavailable := True\<rparr>)"

definition statusText :: "string \<Rightarrow> int \<Rightarrow> string" where
  "statusText pkg n = pkg @ '': unexpected status '' @ FormatInt n"

section \<open>Requests and replies\<close>

definition MaxResponseBodyBytes :: int where "MaxResponseBodyBytes = 2 ^ 20"

text \<open>\<open>json.NewDecoder(httpx.LimitBody(resp.Body)).Decode\<close>: a value cut off by the limit does not decode.\<close>

definition LimitBody :: "HttpReply \<Rightarrow> raw_json" where
  "LimitBody resp =
     (case hr_First resp of
        Some (v, off) \<Rightarrow> if int off \<le> MaxResponseBodyBytes then Some v else None
      | None \<Rightarrow> None)"

definition setInternalHeaders :: "env \<Rightarrow> uuid \<Rightarrow> (string \<times> string) list" where
  "setInternalHeaders e tenantID =
     [(''x-user-id'', ''iam-system''), (''x-tenant-id'', uuid_String e tenantID), (''x-tenant-roles'', ''iam-system'')]"

definition callerService :: "(string \<times> string) list" where
  "callerService = [(''x-caller-service'', ''iam-delegation'')]"

text \<open>Build the request, send it, and go on with the reply.\<close>

definition exchange :: "Net \<Rightarrow> nat \<Rightarrow> string \<Rightarrow> HttpCall \<Rightarrow> (HttpReply \<Rightarrow> error + 'a) \<Rightarrow> error + 'a" where
  "exchange net n pkg req k =
     (if \<not> net_urlParses net (hq_URL req) then Inl (failed (pkg @ '': build request''))
      else case net_Do net n req of
             Inl r \<Rightarrow> Inl (unavailableBecause (pkg @ '': request failed'') r)
           | Inr resp \<Rightarrow> k resp)"

text \<open>The error field of gincommon's envelope.\<close>

definition decodeErrorResponse :: "raw_json \<Rightarrow> string option" where
  "decodeErrorResponse body =
     (case members body of
        None \<Rightarrow> None
      | Some ms \<Rightarrow>
          (case (field_from ''error'' dec_string '''' ms, field_from ''status'' dec_int64 0 ms,
                 field_from ''trace_id'' dec_string '''' ms, field_from ''request_id'' dec_string '''' ms) of
             (Some err, Some _, Some _, Some _) \<Rightarrow> Some err
           | _ \<Rightarrow> None))"

section \<open>User Profile\<close>

text \<open>The keys in the order \<open>json.Marshal\<close> writes a map: sorted.\<close>

definition buildBody :: "env \<Rightarrow> SetAvailabilityRequest \<Rightarrow> json" where
  "buildBody e req =
     JObj ((case sa_DelegateID req of Some d \<Rightarrow> [(''delegate_id'', JStr (uuid_String e d))] | None \<Rightarrow> [])
        @ (if sa_Note req \<noteq> '''' then [(''note'', JStr (sa_Note req))] else [])
        @ (case sa_OOOFrom req of Some t \<Rightarrow> [(''ooo_from'', JStr (formatRFC3339 t))] | None \<Rightarrow> [])
        @ (case sa_OOOUntil req of Some t \<Rightarrow> [(''ooo_until'', JStr (formatRFC3339 t))] | None \<Rightarrow> [])
        @ (case sa_Status req of Some st \<Rightarrow> [(''status'', JStr st)] | None \<Rightarrow> []))"

definition decodeAvailability :: "raw_json \<Rightarrow> error + AvailabilitySnapshot" where
  "decodeAvailability body =
     (case members body of
        None \<Rightarrow> Inl (failed ''userprofile: decode response'')
      | Some ms \<Rightarrow>
          (case (field_from ''status'' dec_string '''' ms, pointer_from ''ooo_until'' dec_string None ms) of
             (Some st, Some None) \<Rightarrow> Inr \<lparr>snap_Status = st, snap_OOOUntil = None\<rparr>
           | (Some st, Some (Some txt)) \<Rightarrow>
               (case parseTimestamp False txt of
                  Some t \<Rightarrow> Inr \<lparr>snap_Status = st, snap_OOOUntil = Some t\<rparr>
                | None \<Rightarrow> Inl (failed ''userprofile: parse ooo_until''))
           | _ \<Rightarrow> Inl (failed ''userprofile: decode response'')))"

definition userprofile_getAvailability :: "env \<Rightarrow> Net \<Rightarrow> HTTPClient \<Rightarrow> nat \<Rightarrow> uuid \<Rightarrow> uuid \<Rightarrow> error + AvailabilitySnapshot" where
  "userprofile_getAvailability e net c n tenantID userID =
     exchange net n ''userprofile''
       \<lparr>hq_Method = ''GET'', hq_URL = hc_baseURL c @ ''/api/v1/users/'' @ uuid_String e userID @ ''/availability'',
        hq_Headers = setInternalHeaders e tenantID, hq_Body = None\<rparr>
       (\<lambda>resp.
         if hr_Status resp = 404 then Inr \<lparr>snap_Status = ''available'', snap_OOOUntil = None\<rparr>
         else if hr_Status resp \<ge> 500 then Inl (unavailable (statusText ''userprofile'' (hr_Status resp)))
         else if hr_Status resp < 200 \<or> hr_Status resp \<ge> 300 then Inl (failed (statusText ''userprofile'' (hr_Status resp)))
         else decodeAvailability (LimitBody resp))"

text \<open>A write: any 2xx is success, a 5xx is an outage, the rest is the callee's refusal.\<close>

definition writeResult :: "HttpReply \<Rightarrow> error + unit" where
  "writeResult resp =
     (if hr_Status resp \<ge> 200 \<and> hr_Status resp < 300 then Inr ()
      else if hr_Status resp \<ge> 500 then Inl (unavailable (statusText ''userprofile'' (hr_Status resp)))
      else case decodeErrorResponse (LimitBody resp) of
             Some err \<Rightarrow> if err \<noteq> '''' then Inl (failed (''userprofile: '' @ err))
                         else Inl (failed (statusText ''userprofile'' (hr_Status resp)))
           | None \<Rightarrow> Inl (failed (statusText ''userprofile'' (hr_Status resp))))"

definition userprofile_clearDelegatePointer :: "env \<Rightarrow> Net \<Rightarrow> HTTPClient \<Rightarrow> nat \<Rightarrow> uuid \<Rightarrow> uuid \<Rightarrow> error + unit" where
  "userprofile_clearDelegatePointer e net c n tenantID userID =
     exchange net n ''userprofile''
       \<lparr>hq_Method = ''DELETE'', hq_URL = hc_baseURL c @ ''/api/v1/internal/users/'' @ uuid_String e userID @ ''/availability/delegate'',
        hq_Headers = setInternalHeaders e tenantID, hq_Body = None\<rparr>
       writeResult"

definition setAvailabilityCall :: "env \<Rightarrow> HTTPClient \<Rightarrow> SetAvailabilityRequest \<Rightarrow> HttpCall" where
  "setAvailabilityCall e c req =
     \<lparr>hq_Method = ''PUT'', hq_URL = hc_baseURL c @ ''/api/v1/internal/users/'' @ uuid_String e (sa_UserID req) @ ''/availability'',
      hq_Headers = (''Content-Type'', ''application/json'') # setInternalHeaders e (sa_TenantID req),
      hq_Body = Some (buildBody e req)\<rparr>"

definition userprofile_setAvailability :: "env \<Rightarrow> Net \<Rightarrow> HTTPClient \<Rightarrow> nat \<Rightarrow> SetAvailabilityRequest \<Rightarrow> error + unit" where
  "userprofile_setAvailability e net c n req =
     exchange net n ''userprofile'' (setAvailabilityCall e c req) writeResult"

section \<open>Org Membership\<close>

definition decodeExists :: "env \<Rightarrow> raw_json \<Rightarrow> error + (bool \<times> uuid)" where
  "decodeExists e body =
     (case members body of
        None \<Rightarrow> Inl (failed ''orgmembership: decode response'')
      | Some ms \<Rightarrow>
          (case (field_from ''active'' dec_bool False ms, pointer_from ''tenant_membership_id'' (dec_text (uuid_Parse e)) None ms) of
             (Some active, Some mid) \<Rightarrow>
               if \<not> active then Inr (False, 0) else Inr (True, case mid of Some u \<Rightarrow> u | None \<Rightarrow> 0)
           | _ \<Rightarrow> Inl (failed ''orgmembership: decode response'')))"

definition existsCall :: "env \<Rightarrow> HTTPClient \<Rightarrow> uuid \<Rightarrow> uuid \<Rightarrow> HttpCall" where
  "existsCall e c tenantID userID =
     \<lparr>hq_Method = ''GET'',
      hq_URL = hc_baseURL c @ ''/api/v1/internal/tenants/'' @ uuid_String e tenantID @ ''/members/'' @ uuid_String e userID @ ''/exists'',
      hq_Headers = setInternalHeaders e tenantID @ callerService, hq_Body = None\<rparr>"

definition orgmembership_exists :: "env \<Rightarrow> Net \<Rightarrow> HTTPClient \<Rightarrow> nat \<Rightarrow> uuid \<Rightarrow> uuid \<Rightarrow> error + (bool \<times> uuid)" where
  "orgmembership_exists e net c n tenantID userID =
     exchange net n ''orgmembership'' (existsCall e c tenantID userID)
       (\<lambda>resp.
         if hr_Status resp \<noteq> 200
         then (if hr_Status resp \<ge> 500 then Inl (unavailable (statusText ''orgmembership'' (hr_Status resp)))
               else Inl (failed (statusText ''orgmembership'' (hr_Status resp))))
         else decodeExists e (LimitBody resp))"

section \<open>Catalog Admin and Tender\<close>

definition decodeDepartment :: "env \<Rightarrow> raw_json \<Rightarrow> bool option" where
  "decodeDepartment e body =
     (case members body of
        None \<Rightarrow> None
      | Some ms \<Rightarrow>
          (case (field_from ''id'' (dec_text (uuid_Parse e)) 0 ms, field_from ''is_active'' dec_bool False ms) of
             (Some _, Some active) \<Rightarrow> Some active
           | _ \<Rightarrow> None))"

definition catalogadmin_departmentActive :: "env \<Rightarrow> Net \<Rightarrow> HTTPClient \<Rightarrow> nat \<Rightarrow> uuid \<Rightarrow> error + (bool \<times> bool)" where
  "catalogadmin_departmentActive e net c n departmentID =
     exchange net n ''catalogadmin''
       \<lparr>hq_Method = ''GET'', hq_URL = hc_baseURL c @ ''/api/v1/departments/'' @ uuid_String e departmentID,
        hq_Headers = setInternalHeaders e 0 @ callerService, hq_Body = None\<rparr>
       (\<lambda>resp.
         if hr_Status resp = 404 then Inr (False, False)
         else if hr_Status resp \<noteq> 200 then Inl (unavailable (statusText ''catalogadmin'' (hr_Status resp)))
         else case decodeDepartment e (LimitBody resp) of
                Some active \<Rightarrow> Inr (True, active)
              | None \<Rightarrow> Inl (unavailable ''catalogadmin: decode response''))"

definition decodeTender :: "raw_json \<Rightarrow> (bool \<times> bool) option" where
  "decodeTender body =
     (case members body of
        None \<Rightarrow> None
      | Some ms \<Rightarrow>
          (case (field_from ''exists'' dec_bool False ms, field_from ''live'' dec_bool False ms) of
             (Some ex, Some live) \<Rightarrow> Some (ex, live)
           | _ \<Rightarrow> None))"

definition tender_checkLive :: "env \<Rightarrow> Net \<Rightarrow> HTTPClient \<Rightarrow> nat \<Rightarrow> uuid \<Rightarrow> uuid \<Rightarrow> error + (bool \<times> bool)" where
  "tender_checkLive e net c n tenantID scopeID =
     exchange net n ''tender''
       \<lparr>hq_Method = ''GET'',
        hq_URL = hc_baseURL c @ ''/api/v1/internal/tenants/'' @ uuid_String e tenantID @ ''/tenders/'' @ uuid_String e scopeID @ ''/exists'',
        hq_Headers = setInternalHeaders e tenantID, hq_Body = None\<rparr>
       (\<lambda>resp.
         if hr_Status resp = 404 then Inr (False, False)
         else if hr_Status resp \<noteq> 200
         then (if hr_Status resp \<ge> 500 then Inl (unavailable (statusText ''tender'' (hr_Status resp)))
               else Inl (failed (statusText ''tender'' (hr_Status resp))))
         else case decodeTender (LimitBody resp) of
                Some r \<Rightarrow> Inr r
              | None \<Rightarrow> Inl (failed ''tender: decode response''))"

section \<open>The clients behind the ports\<close>

fun failure :: "error + unit \<Rightarrow> error option" where
  "failure (Inl err) = Some err" | "failure (Inr _) = None"

text \<open>The wiring of \<^verbatim>\<open>cmd/server/main.go\<close>; Catalog Admin only when its base URL is configured.\<close>

definition with_clients :: "Net \<Rightarrow> HTTPClient \<Rightarrow> HTTPClient \<Rightarrow> HTTPClient option \<Rightarrow> env \<Rightarrow> env" where
  "with_clients net up om cat e =
     e\<lparr>membershipExists := orgmembership_exists e net om,
       getAvailability := userprofile_getAvailability e net up,
       setAvailability := (\<lambda>n req. failure (userprofile_setAvailability e net up n req)),
       clearDelegatePointer := (\<lambda>n t u. failure (userprofile_clearDelegatePointer e net up n t u)),
       departmentActive := map_option (\<lambda>c. catalogadmin_departmentActive e net c) cat\<rparr>"

section \<open>What an answer means\<close>

lemma error_kinds [simp]:
  "isDependencyUnavailable (unavailable t)" "isDependencyUnavailable (unavailableBecause t r)"
  "\<not> isDependencyUnavailable (failed t)"
  by (simp_all add: unavailable_def unavailableBecause_def failed_def plainError_def)

lemma exchange_ok:
  "exchange net n pkg req k = Inr a \<Longrightarrow> \<exists>resp. net_Do net n req = Inr resp \<and> k resp = Inr a"
  by (auto simp: exchange_def split: if_splits sum.splits)

text \<open>An exchange is an outage exactly when the network failed or the reply counts as one.\<close>

lemma exchange_outage:
  assumes "exchange net n pkg req k = Inl err"
    and "\<And>resp err. k resp = Inl err \<Longrightarrow> isDependencyUnavailable err \<longleftrightarrow> hr_Status resp \<ge> 500"
  shows "isDependencyUnavailable err \<longleftrightarrow>
    net_urlParses net (hq_URL req) \<and> (case net_Do net n req of Inl _ \<Rightarrow> True | Inr resp \<Rightarrow> hr_Status resp \<ge> 500)"
  using assms(1) by (auto simp: exchange_def split: if_splits sum.splits dest: assms(2))

lemma writeResult_outage: "writeResult resp = Inl err \<Longrightarrow> isDependencyUnavailable err \<longleftrightarrow> hr_Status resp \<ge> 500"
  by (auto simp: writeResult_def split: if_splits option.splits)

lemma decode_failed [simp]:
  "decodeExists e body = Inl err \<Longrightarrow> \<not> isDependencyUnavailable err"
  by (auto simp: decodeExists_def split: option.splits if_splits)

text \<open>
  Org Membership has said that the user is an active member, in the words of the wire: a 200
  reply to the GET for that user, whose body is a JSON object that ends within the limit; its values
  under the name \<^verbatim>\<open>active\<close> (letter case ignored, nulls apart) end with true; and \<open>m\<close> is
  the last of its values under \<^verbatim>\<open>tenant_membership_id\<close> read as a UUID, the nil UUID when there is none or it is null.
\<close>

definition valuesNamed :: "string \<Rightarrow> (string \<times> json) list \<Rightarrow> json list" where
  "valuesNamed field ms = map snd (filter (\<lambda>(name, _). map lowerChar name = field) ms)"

definition saidActive :: "env \<Rightarrow> Net \<Rightarrow> HTTPClient \<Rightarrow> nat \<Rightarrow> uuid \<Rightarrow> uuid \<Rightarrow> uuid \<Rightarrow> bool" where
  "saidActive e net c n T u m \<longleftrightarrow>
     (\<exists>resp ms off.
        net_Do net n
          \<lparr>hq_Method = ''GET'',
           hq_URL = hc_baseURL c @ ''/api/v1/internal/tenants/'' @ uuid_String e T @ ''/members/'' @ uuid_String e u @ ''/exists'',
           hq_Headers = [(''x-user-id'', ''iam-system''), (''x-tenant-id'', uuid_String e T), (''x-tenant-roles'', ''iam-system''),
                         (''x-caller-service'', ''iam-delegation'')],
           hq_Body = None\<rparr> = Inr resp
        \<and> hr_Status resp = 200 \<and> hr_First resp = Some (JObj ms, off) \<and> int off \<le> 2 ^ 20
        \<and> (\<exists>before. filter (\<lambda>x. x \<noteq> JNull) (valuesNamed ''active'' ms) = before @ [JBool True])
        \<and> (let ids = valuesNamed ''tenant_membership_id'' ms
            in if ids = [] \<or> last ids = JNull then m = 0
               else \<exists>s. last ids = JStr s \<and> uuid_Parse e s = Some m))"

lemma field_last:
  "field_from field dec v ms = Some a \<Longrightarrow> map lowerChar field = field \<Longrightarrow>
    (case rev (filter (\<lambda>x. x \<noteq> JNull) (valuesNamed field ms)) of [] \<Rightarrow> a = v | x # _ \<Rightarrow> dec x = Some a)"
proof (induction field dec v ms rule: field_from.induct)
  case (2 field dec v name x ms)
  then show ?case
    by (fastforce simp: valuesNamed_def nameMatches_def split: if_splits option.splits list.splits)
qed (simp add: valuesNamed_def)

lemma pointer_last:
  "pointer_from field dec v ms = Some a \<Longrightarrow> map lowerChar field = field \<Longrightarrow>
    (case rev (valuesNamed field ms) of [] \<Rightarrow> a = v | x # _ \<Rightarrow> if x = JNull then a = None else a \<noteq> None \<and> dec x = a)"
proof (induction field dec v ms rule: pointer_from.induct)
  case (2 field dec v name x ms)
  then show ?case
    by (fastforce simp: valuesNamed_def nameMatches_def split: if_splits option.splits list.splits)
qed (simp add: valuesNamed_def)

lemma filter_last: "rev (filter P xs) = x # ys \<Longrightarrow> \<exists>before. filter P xs = before @ [x]"
  by (metis rev.simps(2) rev_rev_ident)

lemma decodeExists_active:
  assumes "decodeExists e body = Inr (True, m)"
  obtains ms where "body = Some (JObj ms)"
    "\<exists>before. filter (\<lambda>x. x \<noteq> JNull) (valuesNamed ''active'' ms) = before @ [JBool True]"
    "let ids = valuesNamed ''tenant_membership_id'' ms
     in if ids = [] \<or> last ids = JNull then m = 0 else \<exists>s. last ids = JStr s \<and> uuid_Parse e s = Some m"
proof -
  from assms obtain ms mid where ms: "members body = Some ms"
    and act: "field_from ''active'' dec_bool False ms = Some True"
    and mid: "pointer_from ''tenant_membership_id'' (dec_text (uuid_Parse e)) None ms = Some mid"
    and m: "m = (case mid of Some u \<Rightarrow> u | None \<Rightarrow> 0)"
    by (auto simp: decodeExists_def split: option.splits if_splits)
  have lower: "map lowerChar ''active'' = ''active''" "map lowerChar ''tenant_membership_id'' = ''tenant_membership_id''"
    by code_simp+
  have dec: "x = JBool True" if "dec_bool x = Some True" for x using that by (cases x) auto
  have str: "\<exists>s. x = JStr s \<and> uuid_Parse e s = Some u" if "dec_text (uuid_Parse e) x = Some u" for x u
    using that by (cases x) auto
  from field_last [OF act lower(1)] dec have t:
    "\<exists>before. filter (\<lambda>x. x \<noteq> JNull) (valuesNamed ''active'' ms) = before @ [JBool True]"
    by (auto split: list.splits intro: filter_last)
  then have "ms \<noteq> []" by (auto simp: valuesNamed_def)
  with ms have "body = Some (JObj ms)" by (cases body rule: members.cases) auto
  moreover have "let ids = valuesNamed ''tenant_membership_id'' ms
     in if ids = [] \<or> last ids = JNull then m = 0 else \<exists>s. last ids = JStr s \<and> uuid_Parse e s = Some m"
    using pointer_last [OF mid lower(2)] m str
    by (cases "valuesNamed ''tenant_membership_id'' ms" rule: rev_cases) (auto split: if_splits)
  ultimately show ?thesis using t that by blast
qed

lemma exists_fails_closed:
  assumes "orgmembership_exists e net c n T u = Inr (True, m)"
  shows "saidActive e net c n T u m"
proof -
  from assms obtain resp where r: "net_Do net n (existsCall e c T u) = Inr resp" "hr_Status resp = 200"
    "decodeExists e (LimitBody resp) = Inr (True, m)"
    by (auto simp: orgmembership_exists_def dest!: exchange_ok split: if_splits)
  obtain ms where "LimitBody resp = Some (JObj ms)"
    "\<exists>before. filter (\<lambda>x. x \<noteq> JNull) (valuesNamed ''active'' ms) = before @ [JBool True]"
    "let ids = valuesNamed ''tenant_membership_id'' ms
     in if ids = [] \<or> last ids = JNull then m = 0 else \<exists>s. last ids = JStr s \<and> uuid_Parse e s = Some m"
    by (rule decodeExists_active [OF r(3)])
  moreover from this(1) obtain off where "hr_First resp = Some (JObj ms, off)" "int off \<le> 2 ^ 20"
    by (auto simp: LimitBody_def MaxResponseBodyBytes_def split: option.splits if_splits)
  ultimately show ?thesis
    using r(1,2) unfolding saidActive_def by (simp add: existsCall_def setInternalHeaders_def callerService_def)
qed

text \<open>
  What a Create that wrote had done before it went to the database: both questions, asked during the
  call and answered before the transaction that inserts the row began.
\<close>

lemma fresh_memberships:
  assumes "c_tx c = None" "sane_clock e" "DelegationService_Create e c T u key req w = (Inr d, w')" "db w' \<noteq> db w"
  obtains p w3 w4 n m where "Create_commit e c T u req p w3 = (Inr d, w4)" "db w3 = db w"
    "w' = Create_finish e T u key d w4"
    "tick w \<le> n" "n < tick w3" "tick w \<le> m" "m < tick w3"
    "membershipExists e n T u = Inr (True, d_DelegatorMembershipID d)"
    "membershipExists e m T (ci_DelegateID req) = Inr (True, d_DelegateMembershipID d)"
proof -
  obtain b p w1 w2 w3 w4 where g: "Create_gate e c T key w = (GateProceed b, w1)" and p: "Create_plan e c T u req w1 = (Inr p, w2)"
    and s: "Create_setOOO e T u req p w2 = (Inr (), w3)" and k: "Create_commit e c T u req p w3 = (Inr d, w4)"
    and w': "w' = Create_finish e T u key d w4" "db w3 = db w"
    by (rule Create_wrote [OF assms(3,4)]) (rule that)
  obtain n m where "tick w1 \<le> n" "n \<le> m" "Suc m < tick w2"
    "membershipExists e m T u = Inr (True, pl_delegatorMembershipID p)"
    "membershipExists e (Suc m) T (ci_DelegateID req) = Inr (True, pl_delegateMembershipID p)"
    by (rule Create_plan_times [OF p])
  moreover have "tick w \<le> tick w1" "tick w2 \<le> tick w3"
    using Create_later(2) [of w e c T key] Create_later(5) [of w2 e T u req p] g s by simp_all
  moreover have "granted T u req p d"
    using Create_commit_ok [OF assms(1) k plan_starts_sane [OF assms(2) p]] by blast
  ultimately show ?thesis
    using k w' by (intro that [of p w3 w4 m "Suc m"]) (simp_all add: granted_def)
qed

lemma with_clients_simps [simp]:
  "membershipExists (with_clients net up om cat e) = orgmembership_exists e net om"
  "clock (with_clients net up om cat e) = clock e"
  by (simp_all add: with_clients_def)

section \<open>The request on the wire\<close>

text \<open>A member of the request body that must be a string.\<close>

definition wireField :: "HttpCall \<Rightarrow> string \<Rightarrow> string option" where
  "wireField req k =
     (case hq_Body req of
        Some (JObj ms) \<Rightarrow> (case map_of ms k of Some (JStr s) \<Rightarrow> Some s | _ \<Rightarrow> None)
      | _ \<Rightarrow> None)"

lemma wireField_set:
  "wireField (setAvailabilityCall e c req) ''delegate_id'' = map_option (uuid_String e) (sa_DelegateID req)"
  "wireField (setAvailabilityCall e c req) ''ooo_from'' = map_option formatRFC3339 (sa_OOOFrom req)"
  "wireField (setAvailabilityCall e c req) ''ooo_until'' = map_option formatRFC3339 (sa_OOOUntil req)"
  "wireField (setAvailabilityCall e c req) ''status'' = sa_Status req"
  by (simp_all add: wireField_def setAvailabilityCall_def buildBody_def split: option.split)

end
