(* ===== verification/System.thy ===== *)
theory System
  imports Http EventSchema Clients
begin

text \<open>
  The service as a whole: every way in that changes the database (the HTTP routes, a delivery
  from the cascade queue, the four cron jobs) as a labelled step on the world, and what holds
  along any sequence of steps, whatever faults the environment injects. Here one
  step runs to its end before the next one starts; \<open>Concurrency\<close> interleaves their transactions.
\<close>

section \<open>Steps\<close>

record Deployment =
  dp_env :: env
  dp_gin :: Gin
  dp_formats :: "string \<Rightarrow> string \<Rightarrow> bool"   \<comment> \<open>format checks of the schema library\<close>
  dp_jobs :: JobContext   \<comment> \<open>of the reconciler binary\<close>

datatype Action =
  ARequest Route Request
| ADelivery Envelope
| AExpiry
| AActivation
| AReviewSweep
| ACleanup

inductive sys_step :: "Deployment \<Rightarrow> Action \<Rightarrow> world \<Rightarrow> world \<Rightarrow> bool" for D where
  request: "NewRouter (dp_env D) (dp_gin D) route rq w = (r, w') \<Longrightarrow> sys_step D (ARequest route rq) w w'"
| delivery: "CascadeConsumer_Handle (dp_env D) (Some (consumedValidator (dp_formats D))) requestContext evp w = (res, w')
     \<Longrightarrow> sys_step D (ADelivery evp) w w'"
| expiry: "Expiry (dp_env D) (dp_jobs D) requestContext w = (out, w') \<Longrightarrow> sys_step D AExpiry w w'"
| activation: "Activation (dp_env D) (dp_jobs D) requestContext w = (out, w') \<Longrightarrow> sys_step D AActivation w w'"
| review: "ReviewSweep (dp_env D) (dp_jobs D) requestContext w = (out, w') \<Longrightarrow> sys_step D AReviewSweep w w'"
| cleanup: "Cleanup (dp_env D) (dp_jobs D) requestContext w = (out, w') \<Longrightarrow> sys_step D ACleanup w w'"

inductive_cases cleanup_stepE: "sys_step D ACleanup w w'"
inductive_simps request_step: "sys_step D (ARequest route rq) w w'"
inductive_simps delivery_step: "sys_step D (ADelivery evp) w w'"

inductive sys_run :: "Deployment \<Rightarrow> Action list \<Rightarrow> world \<Rightarrow> world \<Rightarrow> bool" for D where
  nil: "sys_run D [] w w"
| cons: "sys_step D a w w1 \<Longrightarrow> sys_run D as w1 w' \<Longrightarrow> sys_run D (a # as) w w'"

inductive_cases sys_run_NilE: "sys_run D [] w w'"
inductive_cases sys_run_ConsE: "sys_run D (a # as) w w'"

text \<open>A step is always possible: no operation of the service gets stuck.\<close>

lemma sys_step_total: "\<exists>w'. sys_step D a w w'"
proof (cases a)
  case (ARequest route rq)
  obtain r w' where "NewRouter (dp_env D) (dp_gin D) route rq w = (r, w')" by force
  then show ?thesis unfolding ARequest by (blast intro: request)
next
  case (ADelivery evp)
  obtain r w' where "CascadeConsumer_Handle (dp_env D) (Some (consumedValidator (dp_formats D))) requestContext evp w = (r, w')"
    by force
  then show ?thesis unfolding ADelivery by (blast intro: delivery)
qed (metis sys_step.intros prod.exhaust)+

section \<open>Histories\<close>

text \<open>
  What a row may become: it evolves, and it is still there unless it was soft-deleted. The
  outbox only grows.
\<close>

definition history :: "db \<Rightarrow> db \<Rightarrow> bool" where
  "history d d' \<longleftrightarrow> (db_inv d \<longrightarrow>
     db_inv d'
     \<and> (\<forall>r \<in> set (delegations d). \<exists>r'. row_evolves r r' \<and> (r' \<in> set (delegations d') \<or> d_DeletedAt r' \<noteq> None))
     \<and> (\<exists>evs. outbox d' = outbox d @ evs))"

lemma history_trans:
  assumes "history a b" "history b c"
  shows "history a c"
  unfolding history_def
proof (intro impI conjI ballI)
  assume inv: "db_inv a"
  with assms(1) have b: "db_inv b" by (simp add: history_def)
  with assms(2) show "db_inv c" by (simp add: history_def)
  show "\<exists>evs. outbox c = outbox a @ evs"
    using assms inv b unfolding history_def by (metis append.assoc)
  fix r assume "r \<in> set (delegations a)"
  with assms(1) inv obtain r1 where r1: "row_evolves r r1" "r1 \<in> set (delegations b) \<or> d_DeletedAt r1 \<noteq> None"
    unfolding history_def by blast
  show "\<exists>r'. row_evolves r r' \<and> (r' \<in> set (delegations c) \<or> d_DeletedAt r' \<noteq> None)"
  proof (cases "r1 \<in> set (delegations b)")
    case True
    with assms(2) b obtain r2 where "row_evolves r1 r2" "r2 \<in> set (delegations c) \<or> d_DeletedAt r2 \<noteq> None"
      unfolding history_def by blast
    with r1 show ?thesis by (blast intro: row_evolves_trans)
  qed (use r1 in blast)
qed

lemma history_refl: "history d d"
  by (auto simp: history_def)

interpretation hist: db_frame history
  by unfold_locales (rule history_refl, rule history_trans)

lemma step_history: "db_step d d' \<Longrightarrow> history d d'"
  by (fastforce simp: db_step_def db_evolves_def history_def)

lemma purge_history: "history (db w) (db (snd (DelegationRepository_HardPurgeSoftDeletedBefore e pool c before limit w)))"
  unfolding DelegationRepository_HardPurgeSoftDeletedBefore_def
proof (rule hist.w.frame_withPool, rule hist.w.frame_stmt, unfold Let_def, goal_cases)
  case (1 t w1)
  let ?rows = "delegations (db (bump w1))"
  let ?victims = "order_limit (\<lambda>r. the (d_DeletedAt r)) (limitOrDefault limit)
      (rows_matching (\<lambda>r. rls_visible t (d_TenantID r) \<and> purgeableRow before r) ?rows)"
  let ?gone = "\<lambda>r. rls_visible t (d_TenantID r) \<and> d_ID r \<in> d_ID ` set ?victims"
  have dead: "d_DeletedAt r \<noteq> None" if "distinct (map d_ID ?rows)" "r \<in> set ?rows" "?gone r" for r
  proof -
    from that(3) obtain v where v: "v \<in> set ?victims" "d_ID r = d_ID v" by blast
    from v(1) have "v \<in> set ?rows" "purgeableRow before v"
      using set_order_limit by (fastforce simp: rows_matching_def)+
    with that v distinct_key_eq [of ?rows v r] show ?thesis by (auto simp: purgeableRow_def split: option.splits)
  qed
  show ?case
    using dead by (auto simp: history_def db_inv_def rows_matching_def distinct_map_filterI list_all_iff)
qed

lemma Cleanup_history: "history (db w) (db (snd (Cleanup e jc c w)))"
  unfolding Cleanup_def
proof (rule hist.w.frame_bind)
  show "history (db w) (db (snd (DelegationRepository_HardPurgeSoftDeletedBefore e SysPool c (clock e (tick w) - retentionDays jc * day) (batchLimit jc) w)))"
    by (rule purge_history)
qed (simp add: hist.db_refl step_history Prune_step)

context sweeper_frame
begin

text \<open>A step of the service respects what the transaction bodies respect.\<close>

lemma frame_sys_step:
  assumes "sys_step D a w w'" "a \<noteq> ACleanup" "\<And>c. okc c"
    and "\<And>route rq p T u. a = ARequest route rq \<Longrightarrow> g_Protected (dp_gin D) rq = Inr p
       \<Longrightarrow> routeGrants (dp_env D) route rq (publicContext (dp_env D) rq p) (db w) T u \<Longrightarrow> okg T u"
  shows "R (db w) (db w')"
  using assms(1,2,4)
proof (induction rule: sys_step.induct)
  case (request route rq w r w')
  have "R (db w) (db (snd (NewRouter (dp_env D) (dp_gin D) route rq w)))"
  proof (cases "route \<in> publicRoutes")
    case True
    then have "R (db w) (db (snd (routeHandler (dp_env D) (dp_gin D) route rq (publicContext (dp_env D) rq p) w)))"
      if "g_Protected (dp_gin D) rq = Inr p" for p
      using request(3) that by (intro frame_public) (auto simp: assms(3))
    with True show ?thesis by (simp add: NewRouter_def db_refl split: sum.split)
  next
    case False
    with frame_internal [of requestContext] show ?thesis by (simp add: NewRouter_def assms(3))
  qed
  with request(1) show ?case by simp
next
  case (delivery evp w res w')
  then show ?case using frame_Handle assms(3) by (metis snd_conv)
next
  case (expiry w out w')
  then show ?case using frame_jobs(1) assms(3) by (metis snd_conv)
next
  case (activation w out w')
  then show ?case using frame_jobs(2) assms(3) by (metis snd_conv)
next
  case (review w out w')
  then show ?case using frame_jobs(3) assms(3) by (metis snd_conv)
qed simp

end

lemma sys_step_evolves: "sys_step D a w w' \<Longrightarrow> a \<noteq> ACleanup \<Longrightarrow> db_step (db w) (db w')"
  by (rule jstep.frame_sys_step) simp_all

lemma sys_step_history:
  assumes "sys_step D a w w'"
  shows "history (db w) (db w')"
proof (cases "a = ACleanup")
  case True
  with assms Cleanup_history show ?thesis by (metis cleanup_stepE snd_conv)
next
  case False
  with assms show ?thesis by (blast intro: step_history sys_step_evolves)
qed

lemma sys_run_history: "sys_run D as w w' \<Longrightarrow> history (db w) (db w')"
  by (induction rule: sys_run.induct) (auto intro: hist.db_refl history_trans sys_step_history)

lemma sys_run_evolves: "sys_run D as w w' \<Longrightarrow> ACleanup \<notin> set as \<Longrightarrow> db_step (db w) (db w')"
  by (induction rule: sys_run.induct) (auto intro: step.db_refl step.db_trans sys_step_evolves)

lemma closed_evolves: "row_evolves r r' \<Longrightarrow> \<not> openStatus (d_Status r) \<Longrightarrow> d_Status r' = d_Status r"
  by (simp add: row_evolves_def legal_status_change_def)

text \<open>
  The rows of a table along a run. A step other than the purge leaves every row, evolved; the purge
  leaves a row as it is, or removes it when it was soft-deleted longer ago than the retention.
\<close>

lemma cleanup_rows:
  assumes "sys_step D ACleanup w w'" "db_inv (db w)" "r \<in> set (delegations (db w))"
  shows "r \<in> set (delegations (db w')) \<or> r \<in> set (purgeBatch (dp_jobs D) (clock (dp_env D) (tick w)) (db w))"
proof -
  from assms(1) obtain out where out: "Cleanup (dp_env D) (dp_jobs D) requestContext w = (out, w')"
    by (rule cleanup_stepE)
  have c: "c_tx requestContext = None" by (simp add: requestContext_def)
  show ?thesis
  proof (cases out)
    case (Inl err)
    with job_error(3) [OF c] out assms(3) show ?thesis by simp
  next
    case (Inr res)
    with out have "Cleanup (dp_env D) (dp_jobs D) requestContext w = (Inr res, w')" by simp
    from Cleanup_ok(1) [OF c assms(2) this] assms(3) show ?thesis by (auto simp: only_ledger_def)
  qed
qed

text \<open>What \<open>r\<close> had become was purged by one of the cleanups of the run.\<close>

definition purged_during :: "Deployment \<Rightarrow> Action list \<Rightarrow> world \<Rightarrow> world \<Rightarrow> Delegation \<Rightarrow> bool" where
  "purged_during D as w w' r \<longleftrightarrow> (\<exists>as1 as2 v v2 r' t.
     as = as1 @ ACleanup # as2 \<and> sys_run D as1 w v \<and> sys_step D ACleanup v v2 \<and> sys_run D as2 v2 w'
     \<and> r' \<in> set (delegations (db v)) \<and> r' \<notin> set (delegations (db v2)) \<and> row_evolves r r'
     \<and> d_DeletedAt r' = Some t \<and> t + retentionDays (dp_jobs D) * day < clock (dp_env D) (tick v))"

lemma purged_later:
  assumes "sys_step D a w w1" "row_evolves r r1" "purged_during D as w1 w' r1"
  shows "purged_during D (a # as) w w' r"
proof -
  from assms(3) obtain as1 as2 v v2 r' t where p: "as = as1 @ ACleanup # as2" "sys_run D as1 w1 v"
      "sys_step D ACleanup v v2" "sys_run D as2 v2 w'" "r' \<in> set (delegations (db v))" "r' \<notin> set (delegations (db v2))"
      "row_evolves r1 r'" "d_DeletedAt r' = Some t" "t + retentionDays (dp_jobs D) * day < clock (dp_env D) (tick v)"
    unfolding purged_during_def by blast
  moreover have "a # as = (a # as1) @ ACleanup # as2" "sys_run D (a # as1) w v" "row_evolves r r'"
    using p assms(1,2) by (auto intro: sys_run.cons row_evolves_trans)
  ultimately show ?thesis unfolding purged_during_def by blast
qed

lemma sys_step_rows:
  assumes "sys_step D a w w1" "db_inv (db w)" "r \<in> set (delegations (db w))" "sys_run D as w1 w'"
  obtains r1 where "r1 \<in> set (delegations (db w1))" "row_evolves r r1" | "purged_during D (a # as) w w' r"
proof (cases "a = ACleanup")
  case False
  with assms sys_step_evolves that(1) show ?thesis by (fastforce simp: db_step_def db_evolves_def)
next
  case True
  show ?thesis
  proof (cases "r \<in> set (delegations (db w1))")
    case True
    with row_evolves_refl that(1) show ?thesis by blast
  next
    case False
    with cleanup_rows assms(1-3) \<open>a = ACleanup\<close> obtain t where
      "d_DeletedAt r = Some t" "t + retentionDays (dp_jobs D) * day < clock (dp_env D) (tick w)"
      by (blast elim: purgeBatch_old)
    with False assms \<open>a = ACleanup\<close> have "purged_during D (a # as) w w' r"
      unfolding purged_during_def
      by (intro exI [of _ "[]"] exI [of _ as] exI [of _ w] exI [of _ w1] exI [of _ r] exI [of _ t])
        (simp add: row_evolves_refl sys_run.nil)
    then show ?thesis by (rule that(2))
  qed
qed

lemma sys_run_rows:
  assumes "sys_run D as w w'" "db_inv (db w)" "r \<in> set (delegations (db w))"
  shows "(\<exists>r' \<in> set (delegations (db w')). row_evolves r r') \<or> purged_during D as w w' r"
  using assms
proof (induction arbitrary: r rule: sys_run.induct)
  case (nil w)
  then show ?case using row_evolves_refl by blast
next
  case (cons a w w1 as w')
  show ?case
  proof (rule sys_step_rows [OF cons.hyps(1) cons.prems cons.hyps(2)])
    fix r1 assume "r1 \<in> set (delegations (db w1))" "row_evolves r r1"
    moreover have "db_inv (db w1)" using sys_step_history [OF cons.hyps(1)] cons.prems(1) by (simp add: history_def)
    ultimately show "(\<exists>r' \<in> set (delegations (db w')). row_evolves r r') \<or> purged_during D (a # as) w w' r"
      using cons.IH [of r1] purged_later [OF cons.hyps(1)] row_evolves_trans by blast
  qed simp
qed

section \<open>Optimistic locking\<close>

lemma second_cancel_loses:
  assumes c: "c_tx c = None" "c_tx c2 = None" and inv: "db_inv (db w)"
    and one: "cancelInternal e c T i v reason w = (Inr d, w1)"
    and run: "sys_run D as w1 w2" "ACleanup \<notin> set as"
  shows "isl (fst (cancelInternal e' c2 T i v reason2 w2))"
proof (rule ccontr)
  assume "\<not> isl (fst (cancelInternal e' c2 T i v reason2 w2))"
  then obtain d2 w3 where two: "cancelInternal e' c2 T i v reason2 w2 = (Inr d2, w3)"
    by (metis prod.collapse sum.collapse(2))
  have inv1: "db_inv (db w1)"
    using rstep.frame_cancelInternal [where c = c and w = w and e = e and T = T and i = i and v = v and reason = reason] one inv
    by (simp add: db_step_def)
  from sys_run_evolves [OF run] inv1 have inv2: "db_inv (db w2)"
    and ev: "\<forall>r \<in> set (delegations (db w1)). \<exists>r' \<in> set (delegations (db w2)). row_evolves r r'"
    by (auto simp: db_step_def db_evolves_def)
  obtain x now ok where x: "x \<in> set (delegations (db w))" "liveRow T i x" "d_RecordVersion x = v"
      "d = stamped now (x\<lparr>d_Status := DelegationCancelled\<rparr>)"
      "changed (db w) (replace_row d (delegations (db w)))
         (if hasPublisher e \<or> c_publisher c then [endedPayload T x reason (cancelActor e c x)] else []) (db w1)"
    by (rule cancelInternal_ok [OF c(1) inv one]) (rule that)
  have "d \<in> set (delegations (db w1))"
    using x by (force simp: changed_def replace_row_def stamped_def)
  with ev obtain r' where r': "r' \<in> set (delegations (db w2))" "row_evolves d r'" by blast
  obtain y where y: "y \<in> set (delegations (db w2))" "liveRow T i y" "d_RecordVersion y = v"
    by (rule cancelInternal_ok [OF c(2) inv2 two]) (rule that)
  have "d_ID r' = d_ID y"
    using r'(2) x y by (simp add: row_evolves_def same_grant_def stamped_def liveRow_def)
  with r'(1) y(1) inv2 have "r' = y" by (auto simp: db_inv_def intro: distinct_key_eq)
  with r'(2) x(3,4) y(3) show False by (simp add: row_evolves_def stamped_def)
qed

section \<open>The expiry backlog drains\<close>

definition expiryRuns :: "env \<Rightarrow> JobContext \<Rightarrow> ctx \<Rightarrow> nat \<Rightarrow> world \<Rightarrow> world" where
  "expiryRuns e jc c k w = ((\<lambda>w. snd (Expiry e jc c w)) ^^ k) w"

text \<open>The active delegations whose end was before \<open>t\<close>.\<close>

definition backlog :: "time \<Rightarrow> db \<Rightarrow> Delegation list" where
  "backlog t d = rows_matching (expiringRow t) (delegations d)"

lemma Expiry_up: "no_faults e \<Longrightarrow> c_tx c = None \<Longrightarrow> \<exists>res w'. Expiry e jc c w = (Inr res, w')"
proof -
  assume "no_faults e" "c_tx c = None"
  then have "\<not> isl (fst (DelegationRepository_listWhere e SysPool c P ord w))" for P ord
    unfolding DelegationRepository_listWhere_def
    by (subst withPool_no_faults) (auto simp: sql_select_def)
  then obtain ts w1 where "DelegationRepository_ListExpiringBefore e SysPool c (clock e (tick w)) (batchLimit jc) w = (Inr ts, w1)"
    unfolding DelegationRepository_ListExpiringBefore_def by (metis prod.collapse sum.collapse(2))
  then show ?thesis by (cases "fold (Expiry_step e c) ts (zeroResult, w1)") (simp add: Expiry_def)
qed

lemma expiring_mono: "t \<le> now \<Longrightarrow> expiringRow t r \<Longrightarrow> expiringRow now r"
  by (auto simp: expiringRow_def split: option.splits)

lemma order_limit_full:
  assumes "r \<in> set rs" "r \<notin> set (order_limit key n rs)" "0 \<le> n"
  shows "int (length (order_limit key n rs)) = n"
proof (rule ccontr)
  assume "int (length (order_limit key n rs)) \<noteq> n"
  with assms(3) have "length rs \<le> nat n" by (auto simp: order_limit_def min_def split: if_splits)
  then have "set (order_limit key n rs) = set rs" by (simp add: order_limit_def)
  with assms(1,2) show False by simp
qed

lemma limit_pos: "1 \<le> limitOrDefault n"
  by (simp add: limitOrDefault_def defaultFindLimit_def)

lemma batch_first:
  assumes "b \<in> set (backlog t d)" "b \<notin> set (expiryBatch jc now d)" "t \<le> now"
  shows "set (expiryBatch jc now d) \<subseteq> set (backlog t d)"
    "int (length (expiryBatch jc now d)) = limitOrDefault (batchLimit jc)"
proof -
  let ?due = "rows_matching (expiringRow now) (delegations d)"
  have b: "b \<in> set ?due" using assms(1,3) by (auto simp: backlog_def rows_matching_def expiring_mono)
  show "set (expiryBatch jc now d) \<subseteq> set (backlog t d)"
  proof
    fix x assume x: "x \<in> set (expiryBatch jc now d)"
    then have "the (d_EndsAt x) \<le> the (d_EndsAt b)"
      using order_limit_least [of x "\<lambda>r. the (d_EndsAt r)" "limitOrDefault (batchLimit jc)" ?due b] assms(2) b
      by (simp add: expiryBatch_def)
    moreover have "x \<in> set ?due" using x set_order_limit by (fastforce simp: expiryBatch_def)
    ultimately show "x \<in> set (backlog t d)"
      using assms(1) by (auto simp: backlog_def rows_matching_def expiringRow_def split: option.splits)
  qed
  show "int (length (expiryBatch jc now d)) = limitOrDefault (batchLimit jc)"
    using b assms(2) limit_pos [of "batchLimit jc"] unfolding expiryBatch_def by (intro order_limit_full) auto
qed

lemma backlog_swept:
  assumes "swept endedRow pay pub hit d d'"
  shows "backlog t d' = filter (\<lambda>r. r \<notin> set hit) (backlog t d)"
proof -
  from assms obtain at where "delegations d' = update_rows (\<lambda>r. r \<in> set hit) (\<lambda>r. endedRow (at r) r) (delegations d)"
    by (auto simp: swept_def changed_def)
  moreover have "\<not> expiringRow t (endedRow n r)" for n r by (simp add: expiringRow_def endedRow_def stamped_def)
  then have "filter (expiringRow t) (update_rows (\<lambda>r. r \<in> set hit) (\<lambda>r. endedRow (at r) r) rs)
      = filter (\<lambda>r. r \<notin> set hit) (filter (expiringRow t) rs)" for rs
    by (induction rs) (auto simp: update_rows_def)
  ultimately show ?thesis by (simp add: backlog_def rows_matching_def)
qed

lemma backlog_shrinks:
  assumes "distinct (map d_ID (delegations d))" "t \<le> now" "swept endedRow pay pub (expiryBatch jc now d) d d'"
  shows "backlog t d' = [] \<or> int (length (backlog t d')) = int (length (backlog t d)) - limitOrDefault (batchLimit jc)"
proof (cases "backlog t d'")
  case (Cons b bs)
  let ?hit = "expiryBatch jc now d"
  have b: "b \<in> set (backlog t d)" "b \<notin> set ?hit" using Cons backlog_swept [OF assms(3), of t] by (auto simp: filter_eq_Cons_iff)
  have "distinct ?hit"
    unfolding expiryBatch_def by (rule distinct_map [THEN iffD1, THEN conjunct1]) (rule distinct_map_filter_take [OF assms(1)])
  moreover have "distinct (backlog t d)" using assms(1) by (simp add: backlog_def rows_matching_def distinct_map)
  ultimately have "length (filter (\<lambda>r. r \<in> set ?hit) (backlog t d)) = length ?hit"
    using batch_first(1) [OF b assms(2)] by (metis distinct_card distinct_filter inf.absorb_iff2 set_filter Int_def Collect_mem_eq inf_commute)
  moreover have "length (filter (\<lambda>r. r \<in> set ?hit) (backlog t d)) + length (backlog t d') = length (backlog t d)"
    unfolding backlog_swept [OF assms(3)] by (rule sum_length_filter_compl)
  ultimately show ?thesis using batch_first(2) [OF b assms(2)] by simp
qed simp

lemma Expiry_drain_step:
  assumes "all_up e" "c_tx c = None" "db_inv (db w)" "\<And>n. t \<le> clock e n"
  shows "db_inv (db (snd (Expiry e jc c w)))"
    "backlog t (db (snd (Expiry e jc c w))) = [] \<or> int (length (backlog t (db (snd (Expiry e jc c w))))) = int (length (backlog t (db w))) - limitOrDefault (batchLimit jc)"
proof -
  from assms(1,2) obtain res w' where run: "Expiry e jc c w = (Inr res, w')"
    using Expiry_up [of e c jc w] by (auto simp: all_up_def)
  show "db_inv (db (snd (Expiry e jc c w)))"
    using jstep.frame_jobs(1) [where c = c and e = e and jc = jc and w = w] assms(3) by (simp add: db_step_def)
  obtain hit where h: "swept endedRow (expiredPayload EndReasonExpired) (jobPub e c) hit (db w) (db w')"
    "hit = expiryBatch jc (clock e (tick w)) (db w)"
    by (rule Expiry_ok [OF assms(2,3) run]) (use assms(1) that in blast)
  then show "backlog t (db (snd (Expiry e jc c w))) = [] \<or> int (length (backlog t (db (snd (Expiry e jc c w))))) = int (length (backlog t (db w))) - limitOrDefault (batchLimit jc)"
    using backlog_shrinks [of "db w" t "clock e (tick w)"] assms(3,4) run by (simp add: db_inv_def)
qed

lemma backlog_drains:
  assumes "all_up e" "c_tx c = None" "\<And>n. t \<le> clock e n"
  shows "db_inv (db w) \<Longrightarrow> int (length (backlog t (db w))) \<le> int k * limitOrDefault (batchLimit jc)
    \<Longrightarrow> backlog t (db (expiryRuns e jc c k w)) = []"
proof (induction k arbitrary: w)
  case 0
  then show ?case by (simp add: expiryRuns_def)
next
  case (Suc k)
  note d = Expiry_drain_step [OF assms(1,2) Suc.prems(1) assms(3), of jc]
  have "int (length (backlog t (db (snd (Expiry e jc c w))))) \<le> int k * limitOrDefault (batchLimit jc)"
    using d(2) Suc.prems(2) limit_pos [of "batchLimit jc"] by (auto simp: algebra_simps)
  from Suc.IH [OF d(1) this] show ?case by (simp add: expiryRuns_def funpow_swap1 funpow_Suc_right del: funpow.simps)
qed

end
