(* ===== verification/HttpScenario.thy ===== *)
theory HttpScenario
  imports Scenario System
begin

text \<open>
  The scenario seen from outside: callers of tenant 10 the gateway has authenticated, requests
  on the routes, a network in which Org Membership answers, and a registry that knows every
  schema.
\<close>

definition demo_gin :: "string \<Rightarrow> string list \<Rightarrow> Gin" where
  "demo_gin user roles =
     \<lparr>g_Protected = (\<lambda>_. Inr (Some \<lparr>pid_UserID = user, pid_TenantID = ''10'', pid_Roles = roles, pid_ClientIP = ''''\<rparr>)),
      g_TraceID = (\<lambda>_. ''''), g_RequestID = (\<lambda>_. '''')\<rparr>"

definition demo_body :: "json option \<Rightarrow> Body" where
  "demo_body v = \<lparr>b_Length = 0, b_Whole = v, b_First = map_option (\<lambda>j. (j, 0)) v\<rparr>"

definition demo_request :: Request where
  "demo_request = \<lparr>rq_Params = [], rq_Query = [], rq_Headers = [], rq_Body = demo_body None\<rparr>"

text \<open>Name user 2 as delegate; cancel delegation 77 at version 3; set the policy to 30 and 60 days; whether user 2 stands in for
  someone in department 500.\<close>

definition demo_cancel :: Request where
  "demo_cancel = demo_request\<lparr>rq_Params := [(''id'', ''77'')], rq_Query := [(''record_version'', FormatInt 3)]\<rparr>"

definition demo_post :: Request where
  "demo_post = demo_request\<lparr>rq_Headers := [(''Idempotency-Key'', ''k'')],
     rq_Body := demo_body (Some (JObj [(''delegate_id'', JStr ''2''), (''scope'', JStr ''all''), (''ooo_note'', JStr ''leave'')]))\<rparr>"

definition demo_put :: Request where
  "demo_put = demo_request\<lparr>rq_Body := demo_body (Some (JObj [(''max_duration_days'', JNum 30), (''review_window_days'', JNum 60)]))\<rparr>"

definition demo_dept :: Request where
  "demo_dept = demo_request\<lparr>rq_Query := [(''tenant_id'', ''10''), (''user_id'', ''2''), (''dept_id'', ''500'')]\<rparr>"

text \<open>A row of department 500 and one of another tenant.\<close>

definition demo_dept_row :: Delegation where
  "demo_dept_row = demo_row\<lparr>d_Scope := ScopeDepartment, d_ScopeID := Some 500\<rparr>"

definition demo_foreign :: Delegation where
  "demo_foreign = demo_row\<lparr>d_ID := 78, d_TenantID := 11\<rparr>"

text \<open>Every call is answered; a membership check with an active membership.\<close>

definition demo_net :: Net where
  "demo_net =
     \<lparr>net_urlParses = (\<lambda>_. True),
      net_Do = (\<lambda>_ _. Inr \<lparr>hr_Status = 200,
        hr_First = Some (JObj [(''active'', JBool True), (''tenant_membership_id'', JStr ''500''), (''status'', JStr ''available'')], 0)\<rparr>)\<rparr>"

definition demo_client :: HTTPClient where
  "demo_client = \<lparr>hc_baseURL = ''http://peer'', hc_timeout = defaultTimeout\<rparr>"

text \<open>User 1 is away, 2 stands in; and ids with a text of their own.\<close>

definition demo_ooo :: SetAvailabilityRequest where
  "demo_ooo = oooRequest 10 1 demo_now None 2 ''leave''"

definition demo_text_env :: env where
  "demo_text_env = demo_env\<lparr>uuid_Parse := (\<lambda>s. Some (word_of_nat (length s))), uuid_String := (\<lambda>u. replicate (unat u) CHR ''x'')\<rparr>"

definition demo_registry :: Registry where
  "demo_registry =
     \<lparr>rg_wellFormed = (\<lambda>_. True),
      rg_GetSchemaByDefinition = (\<lambda>_ _ _ _. Inr \<lparr>gr_SchemaVersionId = Some ''500'', gr_Status = ''AVAILABLE''\<rparr>)\<rparr>"

definition demo_deployment :: Deployment where
  "demo_deployment =
     \<lparr>dp_env = demo_env, dp_gin = demo_gin ''1'' [], dp_formats = (\<lambda>_ _. True), dp_jobs = demo_jobs\<rparr>"

section \<open>Facts the witnesses share\<close>

lemma demo_deployment_simps [simp]:
  "dp_env demo_deployment = demo_env" "dp_gin demo_deployment = demo_gin ''1'' []" "dp_jobs demo_deployment = demo_jobs"
  by (simp_all add: demo_deployment_def)

lemma demo_callers [simp]:
  "callerTenant demo_env (demo_gin u rs) rq = Some 10"
  by (simp add: callerTenant_def demo_gin_def demo_env_def demo_ids_def)

lemma demo_ooo_simps [simp]:
  "sa_OOOFrom demo_ooo = Some demo_now" "sa_OOOUntil demo_ooo = None" "sa_DelegateID demo_ooo = Some 2"
  by (simp_all add: demo_ooo_def oooRequest_def)

lemma demo_wireTimes [simp]: "wireTime demo_now" "wireTime (demo_now - 10 * day)"
  by (simp_all add: wireTime_def demo_now_def day_def second_def daysBeforeYear_def)

lemma demo_inv_more [simp]:
  "db_inv (db (demo_rows [demo_row, demo_foreign]))"
  by (simp add: demo_rows_def demo_db_def db_inv_def demo_row_def demo_foreign_def delegationRowOK_def chk_scope_id_def)

lemma demo_lower:
  "map lowerChar ''delegate_id'' = ''delegate_id''" "map lowerChar ''scope'' = ''scope''" "map lowerChar ''scope_id'' = ''scope_id''"
  "map lowerChar ''starts_at'' = ''starts_at''" "map lowerChar ''ends_at'' = ''ends_at''" "map lowerChar ''ooo_note'' = ''ooo_note''"
  by (simp_all add: lowerChar_def)

lemma demo_post_body:
  "bindCreate demo_env (firstValue demo_post) = Some \<lparr>cr_DelegateID = 2, cr_Scope = ''all'', cr_ScopeID = None,
     cr_StartsAt = None, cr_EndsAt = None, cr_OOONote = ''leave''\<rparr>"
  by (simp add: bindCreate_def demo_post_def demo_request_def demo_body_def firstValue_def maxBodyBytes_def nameMatches_def
      demo_lower demo_env_def demo_ids_def del: list.map)

lemma demo_key: "TrimSpace ''k'' = ''k''"
proof -
  have "runes ''k'' = [(107, ''k'')]" by (subst runes.simps) (simp add: DecodeRuneInString_def Let_def)
  then show ?thesis by (simp add: TrimSpace_def IsSpace_def)
qed

lemma demo_post_run:
  obtains resp w' r' where "NewRouter demo_env (demo_gin ''1'' []) R_Create demo_post demo_world = (Inr resp, w')"
    "delegations (db w') = [r']"
proof -
  let ?g = "demo_gin ''1'' []"
  let ?p = "\<lparr>pid_UserID = ''1'', pid_TenantID = ''10'', pid_Roles = [], pid_ClientIP = ''''\<rparr>"
  let ?c = "publicContext demo_env demo_post (Some ?p)"
  let ?svc = "DelegationService_Create demo_env ?c 10 1 ''k'' demo_req demo_world"
  have "\<not> isl (fst ?svc)" by code_simp
  then obtain d w' where svc: "?svc = (Inr d, w')" by (rule not_isl_run)
  have "length (delegations (db (snd ?svc))) = 1" by code_simp
  with svc obtain r' where r': "delegations (db w') = [r']" by (auto simp: length_Suc_conv)
  have ids: "uuid_Parse demo_env ''10'' = Some 10" "uuid_Parse demo_env ''1'' = Some 1"
    "valueOf ''Idempotency-Key'' (rq_Headers demo_post) = ''k''"
    by (simp_all add: demo_env_def demo_ids_def demo_post_def valueOf_def)
  have key: "requireIdempotencyKey ?g demo_post demo_world = (Inr (), demo_world)"
    by (simp add: requireIdempotencyKey_def ids(3) demo_key maxIdempotencyKeyLen_def)
  have prot: "g_Protected ?g demo_post = Inr (Some ?p)" by (simp add: demo_gin_def)
  have "NewRouter demo_env ?g R_Create demo_post demo_world
      = bind_res (answering ?g demo_post ?svc) (\<lambda>d w. (Inr (JSON 201 (BodyDelegation (DelegationToResponse d))), w))"
    by (simp add: NewRouter_def publicRoutes_def prot key DelegationHandler_Create_def handler_parts demo_post_body ids callerOf_def
        toCreateInput_def demo_req_def)
  with svc r' that show ?thesis by simp
qed

lemma demo_cancel_run:
  obtains resp w' where "NewRouter demo_env (demo_gin ''1'' []) R_Cancel demo_cancel (demo_rows [demo_row]) = (Inr resp, w')"
    "map d_Status (delegations (db w')) = [DelegationCancelled]"
proof -
  let ?run = "NewRouter demo_env (demo_gin ''1'' []) R_Cancel demo_cancel (demo_rows [demo_row])"
  have "\<not> isl (fst ?run)" by code_simp
  then obtain resp w' where run: "?run = (Inr resp, w')" by (rule not_isl_run)
  have "map d_Status (delegations (db (snd ?run))) = [DelegationCancelled]" by code_simp
  with run that show ?thesis by simp
qed

end
