(* ===== verification/Config.thy ===== *)
theory Config
  imports Http EventSchema Clients
begin

text \<open>
  The configuration of the two binaries: \<^verbatim>\<open>src/cmd/server/config.go\<close>,
  \<^verbatim>\<open>src/cmd/reconciler/config.go\<close>, the DSN helpers of
  \<^verbatim>\<open>src/internal/adapter/outbound/postgres/db.go\<close>, and the run of one cron job by
  \<^verbatim>\<open>src/cmd/reconciler/main.go\<close>. The process environment is a function from names to values,
  an unset variable being the empty string. \<open>time.ParseDuration\<close> (floating point) and the DSN
  that pgcommon assembles are parameters. Durations are 64-bit counts of nanoseconds, and the
  multiplication by the unit wraps as it does in Go.
\<close>

type_synonym procenv = "string \<Rightarrow> string"
type_synonym nanos = "64 word"
type_synonym parse_duration = "string \<Rightarrow> nanos option"

datatype ConfigError =
  BadValue string   \<comment> \<open>the variable that does not parse\<close>
| Refused string   \<comment> \<open>the variable that is required and empty\<close>

section \<open>Chains of checks\<close>

definition sum_bind :: "'e + 'a \<Rightarrow> ('a \<Rightarrow> 'e + 'b) \<Rightarrow> 'e + 'b" where
  "sum_bind x k = (case x of Inl err \<Rightarrow> Inl err | Inr a \<Rightarrow> k a)"

lemma sum_bind_simps [simp]: "sum_bind (Inl err) k = Inl err" "sum_bind (Inr a) k = k a"
  by (simp_all add: sum_bind_def)

lemma sum_bind_Inr [res_iff]: "sum_bind x k = Inr b \<longleftrightarrow> (\<exists>a. x = Inr a \<and> k a = Inr b)"
  by (cases x) auto

definition refuse_if :: "bool \<Rightarrow> string \<Rightarrow> ConfigError + unit" where
  "refuse_if b name = (if b then Inl (Refused name) else Inr ())"

lemma refuse_if_Inr [res_iff]: "refuse_if b name = Inr u \<longleftrightarrow> \<not> b"
  by (simp add: refuse_if_def)

section \<open>Reading variables\<close>

text \<open>\<open>strconv.Atoi\<close> and \<open>strconv.ParseBool\<close>.\<close>

definition Atoi :: "string \<Rightarrow> int option" where
  "Atoi s = (case ParseInt s of (n, None) \<Rightarrow> Some n | _ \<Rightarrow> None)"

definition ParseBool :: "string \<Rightarrow> bool option" where
  "ParseBool s =
     (if s \<in> {''1'', ''t'', ''T'', ''TRUE'', ''true'', ''True''} then Some True
      else if s \<in> {''0'', ''f'', ''F'', ''FALSE'', ''false'', ''False''} then Some False
      else None)"

definition getEnv :: "procenv \<Rightarrow> string \<Rightarrow> string \<Rightarrow> string" where
  "getEnv env key fallback = (if env key \<noteq> '''' then env key else fallback)"

text \<open>What the typed readers share: the fallback when unset, an error naming the variable when broken.\<close>

definition getParsed :: "(string \<Rightarrow> 'a option) \<Rightarrow> procenv \<Rightarrow> string \<Rightarrow> 'a \<Rightarrow> ConfigError + 'a" where
  "getParsed parse env key fallback =
     (if env key = '''' then Inr fallback
      else case parse (env key) of None \<Rightarrow> Inl (BadValue key) | Some v \<Rightarrow> Inr v)"

definition getEnvDuration :: "procenv \<Rightarrow> string \<Rightarrow> nanos \<Rightarrow> ConfigError + nanos" where
  "getEnvDuration = getParsed (\<lambda>v. map_option (\<lambda>ms. word_of_int ms * 1000000) (Atoi v))"

definition getEnvDurationSeconds :: "procenv \<Rightarrow> string \<Rightarrow> nanos \<Rightarrow> ConfigError + nanos" where
  "getEnvDurationSeconds = getParsed (\<lambda>v. map_option (\<lambda>s. word_of_int s * 1000000000) (Atoi v))"

definition getEnvDurationStr :: "parse_duration \<Rightarrow> procenv \<Rightarrow> string \<Rightarrow> nanos \<Rightarrow> ConfigError + nanos" where
  "getEnvDurationStr pd = getParsed pd"

definition getEnvBool :: "procenv \<Rightarrow> string \<Rightarrow> bool \<Rightarrow> ConfigError + bool" where
  "getEnvBool = getParsed ParseBool"

definition getEnvInt :: "procenv \<Rightarrow> string \<Rightarrow> int \<Rightarrow> ConfigError + int" where
  "getEnvInt = getParsed Atoi"

section \<open>Which environment\<close>

definition isDevLikeEnvironment :: "string \<Rightarrow> bool" where
  "isDevLikeEnvironment s \<longleftrightarrow> s \<in> {''development'', ''dev'', ''local'', ''test'', ''''}"

definition resolveAppEnv :: "procenv \<Rightarrow> string" where
  "resolveAppEnv env =
     (if env ''APP_ENV'' \<noteq> '''' then env ''APP_ENV''
      else if isDevLikeEnvironment (getEnv env ''ENVIRONMENT'' ''development'') then ''dev''
      else getEnv env ''ENVIRONMENT'' ''production'')"

text \<open>\<open>os.Setenv\<close> of a default when the variable is unset.\<close>

definition setDefault :: "string \<Rightarrow> string \<Rightarrow> procenv \<Rightarrow> procenv" where
  "setDefault key v env = (if env key = '''' then env(key := v) else env)"

definition ensureGincommonEnv :: "string \<Rightarrow> procenv \<Rightarrow> procenv" where
  "ensureGincommonEnv version env =
     (let env = setDefault ''APP_ENV'' (resolveAppEnv env) env;
          env = setDefault ''APP_NAME'' ''iam-delegation'' env;
          env = setDefault ''OTEL_SERVICE_NAME'' ''iam-delegation'' env
      in if version \<noteq> '''' then setDefault ''BUILD_VERSION'' version env else env)"

definition ensureOutboxEnv :: "procenv \<Rightarrow> procenv" where
  "ensureOutboxEnv env =
     fold (\<lambda>(key, v). setDefault key v)
       [(''OUTBOX_POLL_INTERVAL'', ''500ms''), (''OUTBOX_STARTUP_JITTER'', ''2s''),
        (''OUTBOX_PUBLISH_CONCURRENCY'', ''4''), (''OUTBOX_CLAIM_LEASE_DURATION'', ''10m'')] env"

section \<open>The server's configuration\<close>

record config =
  cf_Environment :: string
  cf_Port :: string
  cf_MetricsPort :: string
  cf_UserProfileBaseURL :: string
  cf_UserProfileTimeout :: nanos
  cf_OrgMembershipBaseURL :: string
  cf_OrgMembershipTimeout :: nanos
  cf_CatalogAdminBaseURL :: string
  cf_CatalogAdminTimeout :: nanos
  cf_ValkeyAddr :: string
  cf_IdempotencyTTL :: nanos
  cf_ListCacheTTL :: nanos
  cf_SNSTopicARN :: string
  cf_AWSRegion :: string
  cf_AWSEndpointURL :: string
  cf_GlueRegistryName :: string
  cf_CascadeQueueURL :: string
  cf_CascadeSQSConcurrency :: int
  cf_OutboxPruneInterval :: nanos
  cf_OutboxPruneRetention :: nanos
  cf_OutboxPruneLimit :: int
  cf_OTELExporterOTLPEndpoint :: string
  cf_DocsEnabled :: bool
  cf_DocsAuthToken :: string
  cf_PolicyDefaultMaxDurationDays :: int
  cf_PolicyDefaultReviewWindowDays :: int

text \<open>The typed variables, in the order they are read.\<close>

definition readConfig :: "parse_duration \<Rightarrow> procenv \<Rightarrow> ConfigError + config" where
  "readConfig pd env =
     sum_bind (getEnvDuration env ''USER_PROFILE_TIMEOUT_MS'' 3000000000) (\<lambda>upTimeout.
     sum_bind (getEnvDuration env ''ORG_MEMBERSHIP_MEMBERSHIP_CHECK_TIMEOUT_MS'' 3000000000) (\<lambda>omTimeout.
     sum_bind (getEnvDuration env ''CATALOG_ADMIN_TIMEOUT_MS'' 3000000000) (\<lambda>caTimeout.
     sum_bind (getEnvDurationSeconds env ''IDEMPOTENCY_TTL_SECONDS'' 86400000000000) (\<lambda>idemTTL.
     sum_bind (getEnvDurationSeconds env ''LIST_CACHE_TTL_SECONDS'' 60000000000) (\<lambda>cacheTTL.
     sum_bind (getEnvBool env ''DOCS_ENABLED'' (getEnv env ''ENVIRONMENT'' ''development'' \<noteq> ''production'')) (\<lambda>docs.
     sum_bind (getEnvInt env ''POLICY_DEFAULT_MAX_DURATION_DAYS'' 90) (\<lambda>maxDays.
     sum_bind (getEnvInt env ''POLICY_DEFAULT_REVIEW_WINDOW_DAYS'' 90) (\<lambda>reviewDays.
     sum_bind (getEnvDurationStr pd env ''OUTBOX_PRUNE_INTERVAL'' 86400000000000) (\<lambda>pruneInterval.
     sum_bind (getEnvDurationStr pd env ''OUTBOX_PRUNE_RETENTION'' 604800000000000) (\<lambda>pruneRetention.
     sum_bind (getEnvInt env ''OUTBOX_PRUNE_LIMIT'' 1000) (\<lambda>pruneLimit.
     sum_bind (getEnvInt env ''CASCADE_SQS_CONCURRENCY'' 4) (\<lambda>concurrency.
       Inr \<lparr>cf_Environment = getEnv env ''ENVIRONMENT'' ''development'', cf_Port = getEnv env ''PORT'' ''8080'',
            cf_MetricsPort = getEnv env ''METRICS_PORT'' ''9090'',
            cf_UserProfileBaseURL = env ''USER_PROFILE_BASE_URL'', cf_UserProfileTimeout = upTimeout,
            cf_OrgMembershipBaseURL = env ''ORG_MEMBERSHIP_BASE_URL'', cf_OrgMembershipTimeout = omTimeout,
            cf_CatalogAdminBaseURL = env ''CATALOG_ADMIN_BASE_URL'', cf_CatalogAdminTimeout = caTimeout,
            cf_ValkeyAddr = getEnv env ''VALKEY_ADDR'' ''localhost:6379'', cf_IdempotencyTTL = idemTTL,
            cf_ListCacheTTL = cacheTTL, cf_SNSTopicARN = env ''SNS_TOPIC_ARN'',
            cf_AWSRegion = getEnv env ''AWS_REGION'' ''ap-south-1'', cf_AWSEndpointURL = env ''AWS_ENDPOINT_URL'',
            cf_GlueRegistryName = env ''GLUE_REGISTRY_NAME'', cf_CascadeQueueURL = env ''CASCADE_QUEUE_URL'',
            cf_CascadeSQSConcurrency = concurrency, cf_OutboxPruneInterval = pruneInterval,
            cf_OutboxPruneRetention = pruneRetention, cf_OutboxPruneLimit = pruneLimit,
            cf_OTELExporterOTLPEndpoint = env ''OTEL_EXPORTER_OTLP_ENDPOINT'', cf_DocsEnabled = docs,
            cf_DocsAuthToken = env ''DOCS_AUTH_TOKEN'', cf_PolicyDefaultMaxDurationDays = maxDays,
            cf_PolicyDefaultReviewWindowDays = reviewDays\<rparr>))))))))))))"

definition loadConfig :: "parse_duration \<Rightarrow> procenv \<Rightarrow> ConfigError + config" where
  "loadConfig pd env =
     sum_bind (readConfig pd env) (\<lambda>cfg.
     sum_bind (refuse_if (env ''DATABASE_URL'' = '''' \<and> (env ''PG_HOST'' = '''' \<or> env ''PG_USER'' = '''' \<or> env ''PG_PASSWORD'' = ''''))
       ''DATABASE_URL'') (\<lambda>_.
     sum_bind (refuse_if (env ''PG_BOUNCER_MODE'' = ''true'' \<and> env ''MIGRATION_DATABASE_URL'' = '''')
       ''MIGRATION_DATABASE_URL'') (\<lambda>_.
     sum_bind (refuse_if (cf_SNSTopicARN cfg = '''') ''SNS_TOPIC_ARN'') (\<lambda>_.
     sum_bind (refuse_if (cf_CascadeQueueURL cfg = '''') ''CASCADE_QUEUE_URL'') (\<lambda>_.
     sum_bind (refuse_if (\<not> isDevLikeEnvironment (resolveAppEnv env) \<and> env ''SYSTEM_DATABASE_URL'' = '''')
       ''SYSTEM_DATABASE_URL'') (\<lambda>_.
     sum_bind (refuse_if (cf_Environment cfg = ''production'' \<and> cf_DocsEnabled cfg \<and> cf_DocsAuthToken cfg = '''')
       ''DOCS_AUTH_TOKEN'') (\<lambda>_.
       Inr cfg)))))))"

text \<open>\<open>docs := httpadapter.DocsConfig{...}\<close> of \<^verbatim>\<open>cmd/server/main.go\<close>.\<close>

definition serverDocs :: "config \<Rightarrow> DocsConfig" where
  "serverDocs cfg =
     \<lparr>dc_Environment = cf_Environment cfg, dc_Enabled = cf_DocsEnabled cfg, dc_AuthToken = cf_DocsAuthToken cfg\<rparr>"

text \<open>The overlay of the cascade queue on platform-events' SQS settings.\<close>

record SQSConfigEnv =
  sq_QueueURL :: string
  sq_Concurrency :: int
  sq_Region :: string
  sq_EndpointURL :: string

definition cascadeSQSEnv :: "SQSConfigEnv \<Rightarrow> string \<Rightarrow> int \<Rightarrow> string \<Rightarrow> string \<Rightarrow> SQSConfigEnv" where
  "cascadeSQSEnv base queueURL concurrency region endpointURL =
     (let v = base\<lparr>sq_QueueURL := queueURL\<rparr>;
          v = (if concurrency > 0 then v\<lparr>sq_Concurrency := concurrency\<rparr> else v);
          v = (if region \<noteq> '''' then v\<lparr>sq_Region := region\<rparr> else v)
      in if endpointURL \<noteq> '''' then v\<lparr>sq_EndpointURL := endpointURL\<rparr> else v)"

section \<open>Connection strings\<close>

fun strContains :: "string \<Rightarrow> string \<Rightarrow> bool" where
  "strContains pat [] \<longleftrightarrow> pat = []"
| "strContains pat (c # s) \<longleftrightarrow> take (length pat) (c # s) = pat \<or> strContains pat s"

definition timeoutOption :: string where "timeoutOption = ''options=-c%20statement_timeout%3D''"

definition ApplyStatementTimeout :: "parse_duration \<Rightarrow> procenv \<Rightarrow> string \<Rightarrow> string" where
  "ApplyStatementTimeout pd env dsn =
     (if dsn = '''' \<or> env ''PG_STATEMENT_TIMEOUT'' = '''' then dsn
      else case pd (env ''PG_STATEMENT_TIMEOUT'') of
             None \<Rightarrow> dsn
           | Some d \<Rightarrow>
               if sint d \<le> 0 \<or> strContains ''statement_timeout'' dsn then dsn
               else dsn @ (if strContains ''?'' dsn then ''&'' else ''?'')
                      @ timeoutOption @ FormatInt (sint d div 1000000))"

text \<open>\<open>pgDSN\<close> is the DSN of \<open>pgcommon.ConfigFromEnv\<close>.\<close>

definition DSNFromEnv :: "parse_duration \<Rightarrow> (procenv \<Rightarrow> string) \<Rightarrow> procenv \<Rightarrow> string" where
  "DSNFromEnv pd pgDSN env =
     (if env ''DATABASE_URL'' \<noteq> '''' then pgDSN env else ApplyStatementTimeout pd env (pgDSN env))"

definition SystemDSNFromEnv :: "parse_duration \<Rightarrow> (procenv \<Rightarrow> string) \<Rightarrow> procenv \<Rightarrow> string" where
  "SystemDSNFromEnv pd pgDSN env =
     (if env ''SYSTEM_DATABASE_URL'' \<noteq> '''' then env ''SYSTEM_DATABASE_URL'' else DSNFromEnv pd pgDSN env)"

definition MigrationDSNFromEnv :: "parse_duration \<Rightarrow> (procenv \<Rightarrow> string) \<Rightarrow> procenv \<Rightarrow> string" where
  "MigrationDSNFromEnv pd pgDSN env =
     (if env ''MIGRATION_DATABASE_URL'' \<noteq> '''' then ApplyStatementTimeout pd env (env ''MIGRATION_DATABASE_URL'')
      else DSNFromEnv pd pgDSN env)"

record PoolConfig =
  pc_DSN :: string
  pc_GUCProvider :: bool
  pc_PGBouncerMode :: bool

definition SystemPoolConfig :: "parse_duration \<Rightarrow> procenv \<Rightarrow> string \<Rightarrow> PoolConfig" where
  "SystemPoolConfig pd env dsn =
     \<lparr>pc_DSN = ApplyStatementTimeout pd env dsn, pc_GUCProvider = False, pc_PGBouncerMode = True\<rparr>"

section \<open>One run of the reconciler\<close>

text \<open>The readers of the reconciler's own \<^verbatim>\<open>config.go\<close>.\<close>

definition getEnvDurationMS :: "procenv \<Rightarrow> string \<Rightarrow> nanos \<Rightarrow> ConfigError + nanos" where
  "getEnvDurationMS = getParsed (\<lambda>v. map_option (\<lambda>ms. word_of_int ms * 1000000) (Atoi v))"

definition getEnvIntVar :: "procenv \<Rightarrow> string \<Rightarrow> int \<Rightarrow> ConfigError + int" where
  "getEnvIntVar = getParsed Atoi"

definition reconciler_ensureGincommonEnv :: "procenv \<Rightarrow> procenv" where
  "reconciler_ensureGincommonEnv env =
     (let env = setDefault ''APP_ENV'' (resolveAppEnv env) env;
          env = setDefault ''APP_NAME'' ''iam-delegation-reconciler'' env
      in setDefault ''OTEL_SERVICE_NAME'' ''iam-delegation-reconciler'' env)"

datatype RunError =
  JobRequired
| UnknownJob string
| PoolDown string
| RunConfig ConfigError
| RunFailed error

definition cronJob :: "string \<Rightarrow> (env \<Rightarrow> JobContext \<Rightarrow> ctx \<Rightarrow> world \<Rightarrow> (error, JobResult, world) outcome) option" where
  "cronJob name =
     (if name = ''delegation-expiry'' then Some Expiry
      else if name = ''delegation-activation'' then Some Activation
      else if name = ''delegation-review'' then Some ReviewSweep
      else if name = ''delegation-cleanup'' then Some Cleanup
      else None)"

definition cronContext :: "procenv \<Rightarrow> ConfigError + JobContext" where
  "cronContext env =
     sum_bind (getEnvIntVar env ''CRON_BATCH_LIMIT'' 50) (\<lambda>batchLimit.
     sum_bind (getEnvIntVar env ''DELEGATION_RETENTION_DAYS'' 90) (\<lambda>retentionDays.
     sum_bind (getEnvIntVar env ''PROCESSED_EVENTS_TTL_DAYS'' 30) (\<lambda>ttlDays.
       Inr \<lparr>jc_BatchLimit = batchLimit, jc_RetentionDays = retentionDays, jc_ProcessedEvents = True,
            jc_ProcessedEventsTTLDays = ttlDays\<rparr>)))"

text \<open>The collaborators it wires: User Profile over HTTP, the validating publisher, the metrics.\<close>

definition cronEnv :: "(string \<Rightarrow> string \<Rightarrow> bool) \<Rightarrow> Net \<Rightarrow> HTTPClient \<Rightarrow> env \<Rightarrow> env" where
  "cronEnv fmt net up e =
     with_schemas fmt (e\<lparr>
       getAvailability := userprofile_getAvailability e net up,
       setAvailability := (\<lambda>n req. failure (userprofile_setAvailability e net up n req)),
       clearDelegatePointer := (\<lambda>n t u. failure (userprofile_clearDelegatePointer e net up n t u)),
       hasPublisher := True, hasMetrics := True\<rparr>)"

text \<open>In microseconds, rounded up, so that a positive timeout stays positive.\<close>

definition nanosToDuration :: "nanos \<Rightarrow> duration" where "nanosToDuration d = (sint d + 999) div 1000"

text \<open>\<open>poolUp\<close> says which pools connect.\<close>

definition reconciler_setup :: "(string \<Rightarrow> bool) \<Rightarrow> procenv \<Rightarrow> string \<Rightarrow> RunError + (HTTPClient \<times> JobContext)" where
  "reconciler_setup poolUp env job =
     (if job = '''' then Inl JobRequired
      else if \<not> poolUp ''app'' then Inl (PoolDown ''app'')
      else if \<not> isDevLikeEnvironment (resolveAppEnv env) \<and> env ''SYSTEM_DATABASE_URL'' = ''''
      then Inl (RunConfig (Refused ''SYSTEM_DATABASE_URL''))
      else if \<not> poolUp ''system'' then Inl (PoolDown ''system'')
      else case getEnvDurationMS env ''USER_PROFILE_TIMEOUT_MS'' 3000000000 of
             Inl err \<Rightarrow> Inl (RunConfig err)
           | Inr timeout \<Rightarrow>
               (case userprofile_NewHTTPClient (env ''USER_PROFILE_BASE_URL'') (nanosToDuration timeout) of
                  Inl err \<Rightarrow> Inl (RunFailed err)
                | Inr up \<Rightarrow> (case cronContext env of Inl err \<Rightarrow> Inl (RunConfig err) | Inr jc \<Rightarrow> Inr (up, jc))))"

definition reconciler_run :: "(string \<Rightarrow> string \<Rightarrow> bool) \<Rightarrow> Net \<Rightarrow> (string \<Rightarrow> bool) \<Rightarrow> procenv \<Rightarrow> string \<Rightarrow> env \<Rightarrow> world \<Rightarrow> (RunError, JobResult, world) outcome" where
  "reconciler_run fmt net poolUp env job e w =
     (case reconciler_setup poolUp env job of
        Inl err \<Rightarrow> (Inl err, w)
      | Inr (up, jc) \<Rightarrow>
          (case cronJob job of
             None \<Rightarrow> (Inl (UnknownJob job), w)
           | Some f \<Rightarrow>
               (case f (cronEnv fmt net up e) jc requestContext w of
                  (Inl err, w) \<Rightarrow> (Inl (RunFailed err), w)
                | (Inr res, w) \<Rightarrow> (Inr res, w))))"

section \<open>What a loaded configuration guarantees\<close>

lemma loadConfig_guards:
  assumes "loadConfig pd env = Inr cfg"
  shows "env ''DATABASE_URL'' \<noteq> '''' \<or> env ''PG_HOST'' \<noteq> '''' \<and> env ''PG_USER'' \<noteq> '''' \<and> env ''PG_PASSWORD'' \<noteq> ''''"
    "env ''PG_BOUNCER_MODE'' = ''true'' \<Longrightarrow> env ''MIGRATION_DATABASE_URL'' \<noteq> ''''"
    "isDevLikeEnvironment (resolveAppEnv env) \<or> env ''SYSTEM_DATABASE_URL'' \<noteq> ''''"
    "cf_Environment cfg = ''production'' \<Longrightarrow> cf_DocsEnabled cfg \<Longrightarrow> cf_DocsAuthToken cfg \<noteq> ''''"
  using assms by (auto simp: loadConfig_def res_iff)

lemma docs_locked:
  assumes "loadConfig pd env = Inr cfg" "cf_Environment cfg = ''production''"
    and "docsRoutes (serverDocs cfg) rq page w = (Inr p, w')"
  shows "cf_DocsAuthToken cfg \<noteq> '''' \<and> valueOf ''Authorization'' (rq_Headers rq) = ''Bearer '' @ cf_DocsAuthToken cfg"
  using assms loadConfig_guards(4) [OF assms(1)]
  by (auto simp: docsRoutes_def DocsConfig_active_def serverDocs_def docsAuthMiddleware_def Let_def bind_res_def split: if_splits)

lemma strContains_append: "strContains pat (a @ pat @ b)"
proof (induction a)
  case Nil
  have "take (length pat) (pat @ b) = pat" by simp
  then show ?case by (cases "pat @ b") (simp_all del: append_eq_append_conv2)
next
  case (Cons c a)
  then show ?case by simp
qed

text \<open>The system pool's DSN may already carry the timeout; a second application adds nothing.\<close>

lemma ApplyStatementTimeout_idem:
  "ApplyStatementTimeout pd env (ApplyStatementTimeout pd env dsn) = ApplyStatementTimeout pd env dsn"
proof -
  have "strContains ''statement_timeout'' (dsn @ c # timeoutOption @ n)" for c n
    using strContains_append [of "''statement_timeout''" "dsn @ c # ''options=-c%20''" "''%3D'' @ n"] by (simp add: timeoutOption_def)
  then show ?thesis
    by (auto simp: ApplyStatementTimeout_def split: option.split)
qed

lemma setDefault_keeps: "env key \<noteq> '''' \<Longrightarrow> setDefault k v env key = env key"
  by (auto simp: setDefault_def)

text \<open>Filling in the defaults does not change which environment the process believes it is in.\<close>

lemma resolveAppEnv_setDefault:
  "k \<notin> {''APP_ENV'', ''ENVIRONMENT''} \<Longrightarrow> resolveAppEnv (setDefault k v env) = resolveAppEnv env"
  unfolding resolveAppEnv_def getEnv_def setDefault_def by auto

lemma resolveAppEnv_nonempty: "resolveAppEnv env \<noteq> ''''"
  unfolding resolveAppEnv_def isDevLikeEnvironment_def getEnv_def by auto

lemma resolveAppEnv_fixed: "resolveAppEnv (setDefault ''APP_ENV'' (resolveAppEnv env) env) = resolveAppEnv env"
proof (cases "env ''APP_ENV'' = ''''")
  case True
  then have "setDefault ''APP_ENV'' (resolveAppEnv env) env = env(''APP_ENV'' := resolveAppEnv env)" by (simp add: setDefault_def)
  moreover have "resolveAppEnv (env(''APP_ENV'' := v)) = v" if "v \<noteq> ''''" for v using that by (simp add: resolveAppEnv_def)
  ultimately show ?thesis using resolveAppEnv_nonempty by simp
qed (simp add: setDefault_def)

lemma ensureGincommonEnv_appEnv:
  "resolveAppEnv (ensureGincommonEnv version env) = resolveAppEnv env"
  "resolveAppEnv (reconciler_ensureGincommonEnv env) = resolveAppEnv env"
  unfolding ensureGincommonEnv_def reconciler_ensureGincommonEnv_def Let_def by (simp_all add: resolveAppEnv_setDefault resolveAppEnv_fixed)

lemma reconciler_setup_guard:
  "reconciler_setup poolUp env job = Inr x \<Longrightarrow> isDevLikeEnvironment (resolveAppEnv env) \<or> env ''SYSTEM_DATABASE_URL'' \<noteq> ''''"
  by (auto simp: reconciler_setup_def split: if_splits)

text \<open>A run that cannot start, or does not know its job, leaves the world alone.\<close>

lemma reconciler_refuses:
  assumes "reconciler_run fmt net poolUp env job e w = (Inl err, w')" "\<And>x. err \<noteq> RunFailed x"
  shows "w' = w"
  using assms by (auto simp: reconciler_run_def split: sum.splits option.splits prod.splits)

section \<open>Two configurations that load\<close>

text \<open>The required variables and \<open>APP_ENV=production\<close>, nothing else.\<close>

definition appEnvOnly :: procenv where
  "appEnvOnly key =
     (if key = ''APP_ENV'' then ''production''
      else if key \<in> {''DATABASE_URL'', ''SYSTEM_DATABASE_URL'', ''SNS_TOPIC_ARN'', ''CASCADE_QUEUE_URL''} then ''x''
      else '''')"

lemma appEnvOnly_loads:
  obtains cfg where "loadConfig pd appEnvOnly = Inr cfg" "cf_Environment cfg = ''development''" "cf_DocsEnabled cfg"
proof -
  have "\<exists>cfg. readConfig pd appEnvOnly = Inr cfg \<and> cf_Environment cfg = ''development'' \<and> cf_DocsEnabled cfg
      \<and> cf_SNSTopicARN cfg = ''x'' \<and> cf_CascadeQueueURL cfg = ''x''"
    by (simp add: readConfig_def getEnvDuration_def getEnvDurationSeconds_def getEnvDurationStr_def getEnvBool_def
        getEnvInt_def getParsed_def getEnv_def appEnvOnly_def)
  then show ?thesis
    using that by (auto simp: loadConfig_def refuse_if_def appEnvOnly_def)
qed

text \<open>
  The documentation is locked by \<open>ENVIRONMENT\<close>, every other production check by \<open>APP_ENV\<close> first: a
  process that only sets the latter counts as production and serves its documentation to anyone.
\<close>

lemma docs_open_by_app_env:
  "resolveAppEnv appEnvOnly = ''production''
   \<and> (\<exists>cfg. loadConfig pd appEnvOnly = Inr cfg \<and> docsRoutes (serverDocs cfg) rq page w = (Inr page, w))"
proof -
  obtain cfg where "loadConfig pd appEnvOnly = Inr cfg" "cf_Environment cfg = ''development''" "cf_DocsEnabled cfg"
    by (rule appEnvOnly_loads)
  moreover have "resolveAppEnv appEnvOnly = ''production''" by (simp add: resolveAppEnv_def appEnvOnly_def)
  ultimately show ?thesis by (auto simp: docsRoutes_def DocsConfig_active_def serverDocs_def)
qed

text \<open>A prune interval of zero loads; the ticker built from it (\<open>time.NewTicker\<close>) panics.\<close>

lemma prune_interval_unchecked:
  assumes "pd ''0s'' = Some 0"
  shows "\<exists>cfg. loadConfig pd (appEnvOnly(''OUTBOX_PRUNE_INTERVAL'' := ''0s'')) = Inr cfg \<and> cf_OutboxPruneInterval cfg = 0"
proof -
  let ?env = "appEnvOnly(''OUTBOX_PRUNE_INTERVAL'' := ''0s'')"
  have "\<exists>cfg. readConfig pd ?env = Inr cfg \<and> cf_OutboxPruneInterval cfg = 0 \<and> cf_Environment cfg = ''development''
      \<and> cf_SNSTopicARN cfg = ''x'' \<and> cf_CascadeQueueURL cfg = ''x''"
    using assms by (simp add: readConfig_def getEnvDuration_def getEnvDurationSeconds_def getEnvDurationStr_def getEnvBool_def
        getEnvInt_def getParsed_def getEnv_def appEnvOnly_def)
  then show ?thesis by (auto simp: loadConfig_def refuse_if_def appEnvOnly_def)
qed

end
