(* ===== verification/Lifecycle.thy ===== *)
theory Lifecycle
  imports System "HOL-Library.Sublist"
begin

text \<open>
  What the events of the service tell about the delegations, along any sequence of steps: the
  outbox announces the start and the end of a delegation at most once each, in this order, and
  only when the row moved that far.
\<close>

section \<open>Phases\<close>

definition statusPhase :: "DelegationStatus \<Rightarrow> nat" where
  "statusPhase s = (if s = DelegationActive then 2 else if s = DelegationEnded \<or> s = DelegationCancelled then 3 else 1)"

text \<open>0 for a delegation that does not exist, then 1 scheduled, 2 active, 3 closed.\<close>

definition phaseIn :: "Delegation list \<Rightarrow> uuid \<Rightarrow> nat" where
  "phaseIn rows i = (case find (\<lambda>r. d_ID r = i) rows of None \<Rightarrow> 0 | Some r \<Rightarrow> statusPhase (d_Status r))"

abbreviation phase :: "db \<Rightarrow> uuid \<Rightarrow> nat" where
  "phase d \<equiv> phaseIn (delegations d)"

text \<open>The phase an event announces for a delegation.\<close>

fun announces :: "uuid \<Rightarrow> EventData \<Rightarrow> nat option" where
  "announces i (DelegationStarted p) = (if st_DelegationID p = i then Some 2 else None)"
| "announces i (DelegationEndedEv p) = (if en_DelegationID p = i then Some 3 else None)"
| "announces i (DelegationReviewRequested _) = None"
| "announces i (DelegationEscalationRequested _) = None"

definition announced :: "uuid \<Rightarrow> EventData list \<Rightarrow> nat list" where
  "announced i evs = List.map_filter (announces i) evs"

lemma announced_simps [simp]:
  "announced i [] = []"
  "announced i (x # xs) = (case announces i x of None \<Rightarrow> announced i xs | Some k \<Rightarrow> k # announced i xs)"
  "announced i (xs @ ys) = announced i xs @ announced i ys"
  by (auto simp: announced_def List.map_filter_def split: option.split)

lemma announces_payloads [simp]:
  "announces i (startedPayload T d u) = (if d_ID d = i then Some 2 else None)"
  "announces i (endedPayload T d reason u) = (if d_ID d = i then Some 3 else None)"
  "announces i (reviewPayload d b) = None" "announces i (escalationPayload T d) = None"
  by (simp_all add: startedPayload_def endedPayload_def reviewPayload_def escalationPayload_def)

text \<open>The events \<open>evs\<close> are the news of the change from \<open>d\<close> to \<open>d'\<close>, or some of them.\<close>

definition news :: "db \<Rightarrow> db \<Rightarrow> EventData list \<Rightarrow> bool" where
  "news d d' evs \<longleftrightarrow> (\<forall>i. sorted_wrt (<) (announced i evs) \<and> set (announced i evs) \<subseteq> {phase d i <.. phase d' i})"

definition lifecycle :: "db \<Rightarrow> db \<Rightarrow> bool" where
  "lifecycle d d' \<longleftrightarrow> (db_inv d \<longrightarrow>
     db_inv d' \<and> (\<forall>i. phase d i \<le> phase d' i) \<and> (\<exists>evs. outboxData d' = outboxData d @ evs \<and> news d d' evs))"

lemma news_append:
  assumes "news d1 d2 xs" "news d2 d3 ys" "\<And>i. phase d1 i \<le> phase d2 i" "\<And>i. phase d2 i \<le> phase d3 i"
  shows "news d1 d3 (xs @ ys)"
  unfolding news_def
proof (intro allI conjI)
  fix i
  from assms(1,2) have x: "sorted_wrt (<) (announced i xs)" "set (announced i xs) \<subseteq> {phase d1 i <.. phase d2 i}"
    and y: "sorted_wrt (<) (announced i ys)" "set (announced i ys) \<subseteq> {phase d2 i <.. phase d3 i}"
    by (auto simp: news_def)
  then show "sorted_wrt (<) (announced i (xs @ ys))" by (fastforce simp: sorted_wrt_append)
  show "set (announced i (xs @ ys)) \<subseteq> {phase d1 i <.. phase d3 i}"
    using x(2) y(2) assms(3,4) [of i] by fastforce
qed

lemma lifecycle_trans: "lifecycle d1 d2 \<Longrightarrow> lifecycle d2 d3 \<Longrightarrow> lifecycle d1 d3"
proof -
  assume a: "lifecycle d1 d2" and b: "lifecycle d2 d3"
  show "lifecycle d1 d3"
    unfolding lifecycle_def
  proof
    assume "db_inv d1"
    with a obtain xs where x: "db_inv d2" "\<And>i. phase d1 i \<le> phase d2 i" "outboxData d2 = outboxData d1 @ xs" "news d1 d2 xs"
      unfolding lifecycle_def by blast
    with b obtain ys where y: "db_inv d3" "\<And>i. phase d2 i \<le> phase d3 i" "outboxData d3 = outboxData d2 @ ys" "news d2 d3 ys"
      unfolding lifecycle_def by blast
    show "db_inv d3 \<and> (\<forall>i. phase d1 i \<le> phase d3 i) \<and> (\<exists>evs. outboxData d3 = outboxData d1 @ evs \<and> news d1 d3 evs)"
      using x y news_append [OF x(4) y(4) x(2) y(2)] le_trans by (metis append.assoc)
  qed
qed

interpretation lifecycle: db_frame lifecycle
proof
  show "lifecycle d d" for d by (auto simp: lifecycle_def news_def intro: exI [of _ "[]"])
qed (rule lifecycle_trans)

section \<open>Rows and phases\<close>

lemma find_id:
  assumes "distinct (map d_ID rows)" "r \<in> set rows"
  shows "find (\<lambda>x. d_ID x = d_ID r) rows = Some r"
  using assms by (induction rows) auto

lemma phase_row: "distinct (map d_ID rows) \<Longrightarrow> r \<in> set rows \<Longrightarrow> phaseIn rows (d_ID r) = statusPhase (d_Status r)"
  by (simp add: phaseIn_def find_id)

lemma statusPhase_mono: "legal_status_change a b \<Longrightarrow> b \<noteq> StatusZero \<Longrightarrow> statusPhase a \<le> statusPhase b"
  by (cases a; cases b; simp add: legal_status_change_def statusPhase_def openStatus_def)

lemma step_phase:
  assumes "db_step d d'" "db_inv d"
  shows "phase d i \<le> phase d' i"
proof (cases "find (\<lambda>r. d_ID r = i) (delegations d)")
  case (Some r)
  then have r: "r \<in> set (delegations d)" "d_ID r = i" by (auto simp: find_Some_iff)
  with assms obtain r' where r': "r' \<in> set (delegations d')" "row_evolves r r'"
    by (auto simp: db_step_def db_evolves_def)
  then have same: "d_ID r' = i" using r by (simp add: row_evolves_def same_grant_def)
  have inv': "db_inv d'" using assms by (simp add: db_step_def)
  then have "distinct (map d_ID (delegations d'))" by (simp add: db_inv_def)
  moreover have "delegationRowOK r'" using inv' r'(1) by (simp add: db_inv_def list_all_iff)
  ultimately have "phase d' i = statusPhase (d_Status r')" "d_Status r' \<noteq> StatusZero"
    using phase_row [OF _ r'(1)] same by (simp_all add: delegationRowOK_def)
  then show ?thesis
    using Some r' by (simp add: phaseIn_def row_evolves_def statusPhase_mono)
qed (simp add: phaseIn_def)

lemma lifecycle_news:
  assumes "db_step d d'" "db_inv d \<Longrightarrow> \<exists>evs. outboxData d' = outboxData d @ evs \<and> news d d' evs"
  shows "lifecycle d d'"
  using assms step_phase [OF assms(1)] by (auto simp: lifecycle_def db_step_def)

lemma lifecycle_silent: "db_step d d' \<Longrightarrow> outbox d' = outbox d \<Longrightarrow> lifecycle d d'"
  by (rule lifecycle_news) (auto simp: outboxData_def news_def intro: exI [of _ "[]"])


section \<open>What reaches the outbox\<close>

text \<open>Some of the events a transaction wanted to write were written: all of them, unless one failed.\<close>

definition posted :: "EventData list \<Rightarrow> db \<Rightarrow> db \<Rightarrow> bool" where
  "posted evs d d' \<longleftrightarrow> delegations d' = delegations d \<and> (\<exists>xs. subseq xs evs \<and> outboxData d' = outboxData d @ xs)"

lemma posted_trans: "posted xs d1 d2 \<Longrightarrow> posted ys d2 d3 \<Longrightarrow> posted (xs @ ys) d1 d3"
  unfolding posted_def by (metis append.assoc list_emb_append_mono)

lemma posted_none [simp]: "posted evs d d"
  unfolding posted_def by (intro conjI exI [of _ "[]"]) simp_all

lemma posted_one: "delegations d' = delegations d \<Longrightarrow> outbox d' = outbox d @ [evt] \<Longrightarrow> ev_Data evt = x \<Longrightarrow> posted [x] d d'"
  unfolding posted_def by (intro conjI exI [of _ "[x]"]) (simp_all add: outboxData_def)

lemma enqueue_posted: "posted [x] (db w) (db (snd (enqueue e c T i a x w)))"
  by (auto simp: enqueue_def Publisher_EnqueueCtx_def stmt_def split: option.split intro: posted_one)

lemma enqueueEvent_posted: "posted [x] (db w) (db (snd (enqueueEvent e c T i x cron w)))"
  by (auto simp: enqueueEvent_def cronEvent_def Publisher_EnqueueCtx_def stmt_def split: option.split intro: posted_one)

lemma posted_bind:
  assumes "posted xs (db w) (db (snd p))" "\<And>a w1. p = (Inr a, w1) \<Longrightarrow> posted ys (db w1) (db (snd (k a w1)))"
  shows "posted (xs @ ys) (db w) (db (snd (bind_res p k)))"
proof (cases rule: bind_res_cases [of p k])
  case (error err w1)
  with assms(1) posted_trans [of xs "db w" "db w1" ys "db w1"] show ?thesis by simp
next
  case (ok a w1)
  with assms posted_trans show ?thesis by auto
qed

lemma posted_last:
  assumes "posted xs (db w) (db (snd p))"
  shows "posted xs (db w) (db (snd (bind_res p (\<lambda>_ w. (r, w)))))"
  using posted_bind [OF assms, where ys = "[]" and k = "\<lambda>_ w. (r, w)"] by simp

lemmas enqueue_posts = posted_last [OF enqueue_posted] posted_last [OF enqueueEvent_posted]

lemma posted_for_each:
  assumes "\<And>d w. posted (g d) (db w) (db (snd (f d w)))"
  shows "posted (concat (map g ds)) (db w) (db (snd (for_each f ds w)))"
proof (induction ds arbitrary: w)
  case (Cons d ds)
  then show ?case by (simp add: posted_bind assms)
qed simp

lemma subseq_announced: "subseq xs ys \<Longrightarrow> subseq (announced i xs) (announced i ys)"
  by (induction rule: list_emb.induct) (auto split: option.split)

lemma subseq_Nil: "subseq xs [] \<Longrightarrow> xs = []"
  by (cases xs) auto

lemma subseq_single: "subseq xs [a] \<Longrightarrow> xs = [] \<or> xs = [a]"
  by (cases xs) (auto split: if_splits dest: subseq_Nil)

text \<open>One announcement per delegation at most, of a phase the transaction reached.\<close>

lemma lifecycle_posted:
  assumes "db_step d d'" "posted evs d1 d'" "outbox d1 = outbox d"
    and "\<And>i. db_inv d \<Longrightarrow> announced i evs = [] \<or> (\<exists>k. announced i evs = [k] \<and> phase d i < k \<and> k \<le> phase d1 i)"
  shows "lifecycle d d'"
proof (rule lifecycle_news [OF assms(1)])
  assume inv: "db_inv d"
  from assms(2,3) obtain xs where xs: "subseq xs evs" "outboxData d' = outboxData d @ xs" "delegations d' = delegations d1"
    by (auto simp: posted_def outboxData_def)
  have "sorted_wrt (<) (announced i xs) \<and> set (announced i xs) \<subseteq> {phase d i <.. phase d' i}" for i
    using assms(4) [OF inv, of i] subseq_announced [OF xs(1), of i] xs(3)
    by (auto dest!: subseq_single subseq_Nil)
  with xs show "\<exists>evs. outboxData d' = outboxData d @ evs \<and> news d d' evs" by (auto simp: news_def)
qed


section \<open>The transactions\<close>

interpretation mute: db_frame "\<lambda>d d'. outbox d' = outbox d"
  by unfold_locales auto

lemma sql_outbox [simp]:
  "outbox (db (snd (sql_update e t P f w))) = outbox (db w)"
  "outbox (db (snd (sql_insert e t r w))) = outbox (db w)"
  by (auto simp: sql_update_def sql_insert_def stmt_def Let_def split: option.split)

text \<open>No repository call writes to the outbox.\<close>

lemma repository_outbox [simp]:
  "outbox (db (snd (DelegationRepository_Insert e pool c d w))) = outbox (db w)"
  "outbox (db (snd (DelegationRepository_End e pool c T i st v w))) = outbox (db w)"
  "outbox (db (snd (DelegationRepository_Activate e pool c T i v w))) = outbox (db w)"
  "outbox (db (snd (DelegationRepository_ExtendReview e pool c T i n v w))) = outbox (db w)"
  "outbox (db (snd (DelegationRepository_MarkReviewWarned e pool c T i b v w))) = outbox (db w)"
  "outbox (db (snd (DelegationRepository_EndForUser e pool c T u w))) = outbox (db w)"
  "outbox (db (snd (DelegationRepository_EndForDisabledDelegate e pool c T u w))) = outbox (db w)"
  "outbox (db (snd (DelegationRepository_SoftDeleteTenant e pool c T w))) = outbox (db w)"
  "outbox (db (snd (SettingsRepository_SoftDeleteTenant e c T w))) = outbox (db w)"
  "outbox (db (snd (SettingsRepository_Upsert e c T n m w))) = outbox (db w)"
  "outbox (db (snd (ProcessedEventsRepository_MarkProcessed e c key ev w))) = outbox (db w)"
  unfolding DelegationRepository_Insert_def DelegationRepository_End_def DelegationRepository_Activate_def
    DelegationRepository_ExtendReview_def DelegationRepository_MarkReviewWarned_def DelegationRepository_EndForUser_def
    DelegationRepository_EndForDisabledDelegate_def DelegationRepository_SoftDeleteTenant_def
    SettingsRepository_SoftDeleteTenant_def SettingsRepository_Upsert_def ProcessedEventsRepository_MarkProcessed_def Let_def
  by (intro mute.w.frame_withPool mute.w.frame_bind mute.w.frame_stmt;
      auto simp: Let_def intro!: mute.w.frame_bind split: list.split)+


lemma lifecycle_body:
  assumes "db_step (db w) (db (snd (bind_res p k)))" "outbox (db (snd p)) = outbox (db w)"
    and "\<And>a w1. p = (Inr a, w1) \<Longrightarrow> posted (evs a) (db w1) (db (snd (k a w1)))"
    and "\<And>a w1 i. p = (Inr a, w1) \<Longrightarrow> db_inv (db w) \<Longrightarrow>
      announced i (evs a) = [] \<or> (\<exists>k. announced i (evs a) = [k] \<and> phase (db w) i < k \<and> k \<le> phase (db w1) i)"
  shows "lifecycle (db w) (db (snd (bind_res p k)))"
proof (cases rule: bind_res_cases [of p k])
  case (error err w1)
  with assms(1,2) show ?thesis by (auto intro: lifecycle_silent)
next
  case (ok a w1)
  with assms show ?thesis by (auto intro!: lifecycle_posted [of _ _ "evs a" "db w1"])
qed

lemma update_ids: "(\<And>r. P r \<Longrightarrow> d_ID (f r) = d_ID r) \<Longrightarrow> map d_ID (update_rows P f rows) = map d_ID rows"
  by (simp add: update_rows_def)

lemma phase_updated:
  assumes "distinct (map d_ID rows)" "\<And>r. P r \<Longrightarrow> d_ID (f r) = d_ID r" "r \<in> set rows" "P r"
  shows "phaseIn (update_rows P f rows) (d_ID r) = statusPhase (d_Status (f r))"
proof -
  have "f r \<in> set (update_rows P f rows)" using assms(3,4) by (auto simp: set_update_rows)
  moreover have "distinct (map d_ID (update_rows P f rows))" using update_ids [of P f rows] assms(1,2) by simp
  ultimately show ?thesis using phase_row [of "update_rows P f rows" "f r"] assms(2,4) by simp
qed

lemma phase_written:
  assumes "db_inv d" "wrote_row d d' r r'"
  shows "phase d (d_ID r) = statusPhase (d_Status r)" "phase d' (d_ID r) = statusPhase (d_Status r')"
proof -
  from assms have d: "distinct (map d_ID (delegations d))" "r \<in> set (delegations d)"
    by (simp_all add: db_inv_def wrote_row_def)
  then show "phase d (d_ID r) = statusPhase (d_Status r)" by (rule phase_row)
  have "delegations d' = update_rows (\<lambda>x. d_ID x = d_ID r) (\<lambda>_. r') (delegations d)"
    using assms(2) by (simp add: wrote_row_def update_rows_def)
  with phase_updated [OF d(1), of "\<lambda>x. d_ID x = d_ID r" "\<lambda>_. r'" r] assms(2) d(2)
  show "phase d' (d_ID r) = statusPhase (d_Status r')" by (simp add: wrote_row_def)
qed

lemma phase_open: "openStatus (d_Status r) \<Longrightarrow> statusPhase (d_Status r) < 3"
  by (auto simp: openStatus_def statusPhase_def)

lemma End_phase:
  assumes "db_inv (db w)" "DelegationRepository_End e pool c T i st v w = (Inr d, w1)" "st \<in> {DelegationEnded, DelegationCancelled}"
  shows "phase (db w) i < 3" "phase (db w1) i = 3"
proof -
  obtain t :: tx and r where r: "liveRow T i r" "openStatus (d_Status r)" "d = touch_row (tx_now t) r (r\<lparr>d_Status := st\<rparr>)"
      "wrote_row (db w) (db w1) r d"
    by (rule End_ok [OF assms(1,2)]) (rule that)
  then show "phase (db w) i < 3" "phase (db w1) i = 3"
    using phase_written [OF assms(1) r(4)] assms(3) phase_open [OF r(2)] by (auto simp: liveRow_def statusPhase_def)
qed

lemma Activate_phase:
  assumes "db_inv (db w)" "DelegationRepository_Activate e pool c T i v w = (Inr (Some d), w1)"
  shows "phase (db w) i < 2" "phase (db w1) i = 2"
proof -
  obtain t :: tx and r where r: "liveRow T i r" "d_Status r = DelegationScheduled"
      "d = touch_row (tx_now t) r (r\<lparr>d_Status := DelegationActive\<rparr>)" "wrote_row (db w) (db w1) r d"
    by (rule Activate_ok [OF assms]) (rule that)
  then show "phase (db w) i < 2" "phase (db w1) i = 2"
    using phase_written [OF assms(1) r(4)] by (auto simp: liveRow_def statusPhase_def)
qed

lemma Insert_phase:
  assumes "db_inv (db w)" "DelegationRepository_Insert e pool c d w = (Inr r, w1)" "d_Status d = DelegationActive"
  shows "phase (db w) (d_ID r) = 0" "phase (db w1) (d_ID r) = 2"
proof -
  obtain t :: tx where ins: "d_ID r \<notin> d_ID ` set (delegations (db w))" "d_Status r = DelegationActive"
      "db w1 = (db w)\<lparr>delegations := delegations (db w) @ [r]\<rparr>"
    by (rule Insert_ok [OF assms(2)]) (use assms(3) in auto)
  have none: "find (\<lambda>x. d_ID x = d_ID r) (delegations (db w)) = None"
    using ins(1) unfolding find_None_iff by (metis imageI)
  then show "phase (db w) (d_ID r) = 0" by (simp add: phaseIn_def)
  have "find P (xs @ ys) = (case find P xs of None \<Rightarrow> find P ys | Some x \<Rightarrow> Some x)" for P xs and ys :: "Delegation list"
    by (induction xs) auto
  with none ins show "phase (db w1) (d_ID r) = 2" by (simp add: phaseIn_def statusPhase_def)
qed


lemma Create_tx_life: "lifecycle (db w) (db (snd (Create_tx e T u req p c w)))"
proof -
  have step: "db_step (db w) (db (snd (Create_tx e T u req p c w)))" by (rule rstep.frame_Create_tx) simp_all
  let ?ev = "\<lambda>d. if pl_isScheduled p then [] else
      [DelegationStarted \<lparr>st_DelegationID = d_ID d, st_TenantID = T, st_DelegatorID = u,
                 st_DelegateID = ci_DelegateID req, st_Scope = toScope (ci_Scope req), st_ScopeID = ci_ScopeID req,
                 st_StartsAt = pl_starts p, st_EndsAt = ci_EndsAt req, st_ActorID = u\<rparr>]"
  have ph: "phase (db w) (d_ID d) = 0" "phase (db w1) (d_ID d) = 2"
    if "DelegationRepository_Insert e AppPool c (newDelegation T u req p) w = (Inr d, w1)" "db_inv (db w)" "\<not> pl_isScheduled p" for d w1
    using Insert_phase [OF that(2,1)] that(3) by (auto simp: newDelegation_def)
  show ?thesis
    using step unfolding Create_tx_def
  proof (rule lifecycle_body [where evs = ?ev])
    fix d w1
    show "posted (?ev d) (db w1) (db (snd (if pl_isScheduled p then (Inr d, w1) else
       bind_res (enqueue e c T (d_ID d) (ActorUser u)
              (DelegationStarted \<lparr>st_DelegationID = d_ID d, st_TenantID = T, st_DelegatorID = u,
                 st_DelegateID = ci_DelegateID req, st_Scope = toScope (ci_Scope req), st_ScopeID = ci_ScopeID req,
                 st_StartsAt = pl_starts p, st_EndsAt = ci_EndsAt req, st_ActorID = u\<rparr>) w1) (\<lambda>_ w. (Inr d, w)))))"
      by (simp add: enqueue_posts)
  qed (use ph in auto)
qed

lemma cancelTx_life:
  shows "lifecycle (db w) (db (snd (cancelTx e c T i v reason d c' w)))"
proof -
  have step: "db_step (db w) (db (snd (cancelTx e c T i v reason d c' w)))" by (rule rstep.frame_cancelTx) simp
  let ?ev = "DelegationEndedEv \<lparr>en_DelegationID = i, en_TenantID = T, en_DelegatorID = d_DelegatorID d,
            en_DelegateID = d_DelegateID d, en_Scope = d_Scope d, en_ScopeID = d_ScopeID d,
            en_EndedReason = reason, en_ActorID = cancelActor e c d\<rparr>"
  have ph: "phase (db w) i < 3" "phase (db w1) i = 3"
    if "DelegationRepository_End e AppPool c' T i DelegationCancelled v w = (Inr out, w1)" "db_inv (db w)" for out w1
    using End_phase [OF that(2,1)] by auto
  show ?thesis
    using step unfolding cancelTx_def
    by (rule lifecycle_body [where evs = "\<lambda>_. [?ev]"])
       (use ph enqueue_posts in auto)
qed

lemma endTx_life:
  assumes "c_tx c = Some t"
  shows "lifecycle (db w) (db (snd (endTx e d reason cron c w)))"
proof -
  have step: "db_step (db w) (db (snd (endTx e d reason cron c w)))" by (rule jstep.frame_endTx [OF _ assms]) simp
  obtain r w1 where en: "DelegationRepository_End e SysPool c (d_TenantID d) (d_ID d) DelegationEnded (d_RecordVersion d) w = (r, w1)"
    by force
  then have mute: "outbox (db w1) = outbox (db w)"
    using repository_outbox(2) [of e SysPool c "d_TenantID d" "d_ID d" DelegationEnded "d_RecordVersion d" w] by simp
  show ?thesis
  proof (cases r)
    case (Inl err)
    then have "outbox (db (snd (endTx e d reason cron c w))) = outbox (db w)"
      using mute en by (simp add: endTx_def)
    with step show ?thesis by (rule lifecycle_silent)
  next
    case (Inr out)
    have "posted [endedPayload (d_TenantID d) d reason SystemActorID] (db w1) (db (snd (endTx e d reason cron c w)))"
      using en Inr by (simp add: endTx_def enqueue_posts)
    with step show ?thesis
      by (rule lifecycle_posted) (use mute End_phase [OF _ en [unfolded Inr]] in auto)
  qed
qed

lemma activateTx_life:
  assumes "c_tx c = Some t"
  shows "lifecycle (db w) (db (snd (activateTx e d c w)))"
proof -
  have step: "db_step (db w) (db (snd (activateTx e d c w)))" by (rule jstep.frame_activateTx [OF _ assms]) simp
  show ?thesis
    using step unfolding activateTx_def
  proof (rule lifecycle_body [where evs = "\<lambda>act. if act = None then [] else [startedPayload (d_TenantID d) d SystemActorID]"], goal_cases)
    case (2 act w1)
    show ?case by (simp add: enqueue_posts split: option.split)
  next
    case (3 act w1 i)
    then show ?case using Activate_phase by (auto split: option.split)
  qed simp
qed

lemma warnTx_life:
  assumes "c_tx c = Some t"
  shows "lifecycle (db w) (db (snd (warnTx e d b c w)))"
proof -
  have step: "db_step (db w) (db (snd (warnTx e d b c w)))" by (rule jstep.frame_warnTx [OF _ assms]) simp
  obtain r w1 where en: "DelegationRepository_MarkReviewWarned e SysPool c (d_TenantID d) (d_ID d) b (d_RecordVersion d) w = (r, w1)"
    by force
  then have mute: "outbox (db w1) = outbox (db w)"
    using repository_outbox(5) [of e SysPool c "d_TenantID d" "d_ID d" b "d_RecordVersion d" w] by simp
  have "posted [reviewPayload d b] (db w1) (db (snd (warnTx e d b c w)))"
    using en by (auto simp: warnTx_def enqueue_posts split: sum.split)
  with step show ?thesis by (rule lifecycle_posted) (use mute in auto)
qed


text \<open>The rows a bulk update closed, each announced once.\<close>

lemma announced_rows:
  assumes "distinct (map d_ID rows)"
  shows "announced i (concat (map (\<lambda>r. if P r then endedPayload T r x y # map (escalationPayload T) (g r) else []) rows))
    = (if \<exists>r \<in> set rows. P r \<and> d_ID r = i then [3] else [])"
  using assms
proof (induction rows)
  case (Cons r rows)
  have esc: "announced i (map (escalationPayload T) rs) = []" for rs by (induction rs) auto
  from Cons show ?case by (auto simp: esc image_iff)
qed simp

lemma bulk_end:
  assumes inv: "db_inv (db w)"
    and run: "withPool e pool c (\<lambda>t. sql_update e t P (f t)) w = (Inr rows, w1)"
    and f: "\<And>t r. d_ID (f t r) = d_ID r" "\<And>t r. d_Status (f t r) = DelegationEnded" "\<And>r. P r \<Longrightarrow> openStatus (d_Status r)"
  shows "distinct (map d_ID rows)" "r \<in> set rows \<Longrightarrow> phase (db w) (d_ID r) < 3 \<and> phase (db w1) (d_ID r) = 3"
proof -
  from run obtain t w0 w2 where t: "db w0 = db w" "db w1 = db w2" "sql_update e t P (f t) w0 = (Inr rows, w2)"
    by (rule withPool_ok)
  let ?hit = "\<lambda>r. rls_visible t (d_TenantID r) \<and> P r" and ?upd = "\<lambda>r. touch_row (tx_now t) r (f t r)"
  from sql_update_ok [OF t(3)] t have rows: "rows = map ?upd (rows_matching ?hit (delegations (db w)))"
    and db: "delegations (db w1) = update_rows ?hit ?upd (delegations (db w))" by simp_all
  from inv have d: "distinct (map d_ID (delegations (db w)))" by (simp add: db_inv_def)
  have ids: "map d_ID (map ?upd rs) = map d_ID rs" for rs by (simp add: f)
  show "distinct (map d_ID rows)" unfolding rows ids rows_matching_def using d by (rule distinct_map_filter)
  assume "r \<in> set rows"
  then obtain r0 where r0: "r = ?upd r0" "r0 \<in> set (delegations (db w))" "?hit r0" by (auto simp: rows rows_matching_def)
  then have i: "d_ID r = d_ID r0" by (simp add: f)
  have "phase (db w) (d_ID r0) < 3" using phase_row [OF d r0(2)] phase_open [OF f(3)] r0(3) by simp
  moreover have "phase (db w1) (d_ID r0) = 3"
    unfolding db using phase_updated [OF d _ r0(2), of ?hit ?upd] r0(3) f by (simp add: statusPhase_def)
  ultimately show "phase (db w) (d_ID r) < 3 \<and> phase (db w1) (d_ID r) = 3" by (simp add: i)
qed

lemma endForUserTx_life: "lifecycle (db w) (db (snd (CascadeService_endForUserTx e T u c w)))"
proof -
  have step: "db_step (db w) (db (snd (CascadeService_endForUserTx e T u c w)))" by (rule rstep.frame_endForUserTx) simp
  let ?ev = "\<lambda>d. if d_DelegateID d = u then endedPayload T d EndReasonDelegateRemoved SystemActorID # map (escalationPayload T) [] else []"
  show ?thesis
    using step unfolding CascadeService_endForUserTx_def
  proof (rule lifecycle_body [where evs = "\<lambda>rows. concat (map ?ev rows)"], goal_cases)
    case (2 rows w1)
    show ?case by (intro posted_last posted_for_each) (auto simp: enqueue_posted)
  next
    case (3 rows w1 i)
    note b = bulk_end [OF 3(2) 3(1) [unfolded DelegationRepository_EndForUser_def]]
    have "distinct (map d_ID rows)" by (rule b(1)) auto
    moreover have "phase (db w) (d_ID r) < 3 \<and> phase (db w1) (d_ID r) = 3" if "r \<in> set rows" for r
      by (rule b(2)) (use that in auto)
    ultimately show ?case by (auto simp: announced_rows)
  qed simp
qed

lemma endForDisabledTx_life: "lifecycle (db w) (db (snd (CascadeService_endForDisabledTx e T u c w)))"
proof -
  have step: "db_step (db w) (db (snd (CascadeService_endForDisabledTx e T u c w)))" by (rule rstep.frame_endForDisabledTx) simp
  let ?ev = "\<lambda>d. if True then endedPayload T d EndReasonDelegateDisabled SystemActorID # map (escalationPayload T) [d] else []"
  show ?thesis
    using step unfolding CascadeService_endForDisabledTx_def
  proof (rule lifecycle_body [where evs = "\<lambda>rows. concat (map ?ev rows)"], goal_cases)
    case (2 rows w1)
    have "posted (?ev d) (db w) (db (snd (bind_res (enqueue e c T (d_ID d) ActorSystem
             (endedPayload T d EndReasonDelegateDisabled SystemActorID) w) (\<lambda>_ w.
           enqueue e c T (d_ID d) ActorSystem (escalationPayload T d) w))))" for d w
      using posted_bind [OF enqueue_posted enqueue_posted] by simp
    then show ?case by (intro posted_last posted_for_each)
  next
    case (3 rows w1 i)
    note b = bulk_end [OF 3(2) 3(1) [unfolded DelegationRepository_EndForDisabledDelegate_def]]
    have "distinct (map d_ID rows)" by (rule b(1)) auto
    moreover have "phase (db w) (d_ID r) < 3 \<and> phase (db w1) (d_ID r) = 3" if "r \<in> set rows" for r
      by (rule b(2)) (use that in auto)
    ultimately show ?case by (subst (1 2) announced_rows) (auto split: if_split)
  qed simp
qed

interpretation life: sweeper_frame lifecycle "\<lambda>_. True" "\<lambda>_ _. True"
  by unfold_locales
     (auto intro: Create_tx_life cancelTx_life endForUserTx_life endForDisabledTx_life endTx_life activateTx_life warnTx_life
        lifecycle_silent repository_step Settings_SoftDeleteTenant_step Settings_Upsert_step MarkProcessed_step)


section \<open>Along a run\<close>

lemma sys_run_life: "sys_run D as w w' \<Longrightarrow> ACleanup \<notin> set as \<Longrightarrow> lifecycle (db w) (db w')"
  by (induction rule: sys_run.induct) (auto intro: lifecycle.db_refl lifecycle_trans life.frame_sys_step)


section \<open>Whose authority is delegated\<close>

text \<open>Every row of \<open>d'\<close> is a grant that \<open>d\<close> already had, or a grant that \<open>G\<close> allows.\<close>

definition granted_under :: "(uuid \<Rightarrow> uuid \<Rightarrow> bool) \<Rightarrow> db \<Rightarrow> db \<Rightarrow> bool" where
  "granted_under G d d' \<longleftrightarrow>
     (\<forall>r' \<in> set (delegations d'). (\<exists>r \<in> set (delegations d). same_grant r r') \<or> G (d_TenantID r') (d_DelegatorID r'))"

lemma same_grant_refl [simp]: "same_grant r r"
  by (simp add: same_grant_def)

lemma known_grant [intro]: "r \<in> set rs \<Longrightarrow> \<exists>x \<in> set rs. same_grant x r"
  by (rule bexI) simp_all

lemma same_grant_touch [simp]: "same_grant r (touch_row now x r') \<longleftrightarrow> same_grant r r'"
  by (auto simp: same_grant_def touch_row_def)

lemma granted_trans:
  assumes "granted_under G d1 d2" "granted_under G d2 d3"
  shows "granted_under G d1 d3"
  unfolding granted_under_def
proof
  fix r3 assume "r3 \<in> set (delegations d3)"
  with assms(2) consider r2 where "r2 \<in> set (delegations d2)" "same_grant r2 r3" | "G (d_TenantID r3) (d_DelegatorID r3)"
    by (auto simp: granted_under_def)
  then show "(\<exists>r \<in> set (delegations d1). same_grant r r3) \<or> G (d_TenantID r3) (d_DelegatorID r3)"
  proof cases
    case 1
    with assms(1) show ?thesis by (fastforce simp: granted_under_def same_grant_def)
  qed simp
qed

interpretation auth: db_frame "granted_under G" for G
  by unfold_locales (simp add: granted_under_def known_grant, rule granted_trans)

lemma granted_rows: "delegations d' = delegations d \<Longrightarrow> granted_under G d d'"
  by (auto simp: granted_under_def)

lemma sql_granted:
  assumes "\<And>r. P r \<Longrightarrow> same_grant r (f r)"
  shows "granted_under G (db w) (db (snd (sql_update e t P f w)))"
  using assms unfolding sql_update_def
  by (intro auth.w.frame_stmt) (auto simp: Let_def granted_under_def set_update_rows intro: bexI [rotated])

lemma guarded_granted:
  assumes "\<And>t r. P r \<Longrightarrow> same_grant r (f t r)" "\<And>t rows w. granted_under G (db w) (db (snd (k t rows w)))"
  shows "granted_under G (db w) (db (snd (withPool e pool c (\<lambda>t w. bind_res (sql_update e t P (f t) w) (k t)) w)))"
  by (intro auth.w.frame_withPool auth.w.frame_bind sql_granted assms)

lemma update_granted:
  assumes "\<And>t r. P r \<Longrightarrow> same_grant r (f t r)"
  shows "granted_under G (db w) (db (snd (withPool e pool c (\<lambda>t. sql_update e t P (f t)) w)))"
  by (intro auth.w.frame_withPool sql_granted assms)

lemma sql_insert_granted:
  assumes "G (d_TenantID r) (d_DelegatorID r)"
  shows "granted_under G (db w) (db (snd (sql_insert e t r w)))"
  unfolding sql_insert_def
  by (intro auth.w.frame_stmt) (simp add: granted_rows, auto simp: granted_under_def assms)

lemma Insert_granted:
  assumes "G (d_TenantID d) (d_DelegatorID d)"
  shows "granted_under G (db w) (db (snd (DelegationRepository_Insert e pool c d w)))"
  unfolding DelegationRepository_Insert_def Let_def
  by (intro auth.w.frame_withPool sql_insert_granted) (simp add: assms)

lemma repository_granted:
  "granted_under G (db w) (db (snd (DelegationRepository_End e pool c T i st v w)))"
  "granted_under G (db w) (db (snd (DelegationRepository_Activate e pool c T i v w)))"
  "granted_under G (db w) (db (snd (DelegationRepository_ExtendReview e pool c T i n v w)))"
  "granted_under G (db w) (db (snd (DelegationRepository_MarkReviewWarned e pool c T i b v w)))"
  "granted_under G (db w) (db (snd (DelegationRepository_EndForUser e pool c T u w)))"
  "granted_under G (db w) (db (snd (DelegationRepository_EndForDisabledDelegate e pool c T u w)))"
  "granted_under G (db w) (db (snd (DelegationRepository_SoftDeleteTenant e pool c T w)))"
  unfolding DelegationRepository_End_def DelegationRepository_Activate_def
    DelegationRepository_ExtendReview_def DelegationRepository_MarkReviewWarned_def DelegationRepository_EndForUser_def
    DelegationRepository_EndForDisabledDelegate_def DelegationRepository_SoftDeleteTenant_def
  by (intro guarded_granted update_granted;
      auto simp: same_grant_def extendRow_def granted_rows intro!: auth.w.frame_bind split: list.split)+

lemma ledger_granted:
  "granted_under G (db w) (db (snd (SettingsRepository_SoftDeleteTenant e c T w)))"
  "granted_under G (db w) (db (snd (SettingsRepository_Upsert e c T n m w)))"
  "granted_under G (db w) (db (snd (ProcessedEventsRepository_MarkProcessed e c key ev w)))"
  unfolding SettingsRepository_SoftDeleteTenant_def SettingsRepository_Upsert_def ProcessedEventsRepository_MarkProcessed_def
  by (intro auth.w.frame_withPool auth.w.frame_stmt; simp add: granted_rows Let_def)+

lemma posted_granted: "posted evs d d' \<Longrightarrow> granted_under G d d'"
  by (rule granted_rows) (simp add: posted_def)

interpretation auth: job_frame "granted_under G" "\<lambda>_. True" G for G
  by unfold_locales
     (auto intro: Insert_granted repository_granted ledger_granted posted_granted [OF enqueue_posted]
        posted_granted [OF enqueueEvent_posted])

lemma Cleanup_granted: "granted_under G (db w) (db (snd (Cleanup e jc c w)))"
  unfolding Cleanup_def
proof (rule auth.w.frame_bind)
  show "granted_under G (db w) (db (snd (DelegationRepository_HardPurgeSoftDeletedBefore e SysPool c (clock e (tick w) - retentionDays jc * day) (batchLimit jc) w)))"
    unfolding DelegationRepository_HardPurgeSoftDeletedBefore_def
    by (intro auth.w.frame_withPool auth.w.frame_stmt) (auto simp: Let_def granted_under_def rows_matching_def)
next
  fix n w
  have "granted_under G (db w) (db (snd (ProcessedEventsRepository_Prune e c (ledgerTTLDays jc) (batchLimit jc) w)))"
    using Prune_only_ledger [of w e c "ledgerTTLDays jc" "batchLimit jc"] by (auto simp: only_ledger_def intro: granted_rows)
  then show "granted_under G (db w) (db (snd ((Inr (zeroResult\<lparr>res_Purged := n\<rparr>) :: error + JobResult,
      if jc_ProcessedEvents jc then snd (ProcessedEventsRepository_Prune e c (ledgerTTLDays jc) (batchLimit jc) w) else w))))"
    by (simp add: granted_rows)
qed


text \<open>The grants an action of the service may add.\<close>

definition actionGrants :: "Deployment \<Rightarrow> Action \<Rightarrow> db \<Rightarrow> uuid \<Rightarrow> uuid \<Rightarrow> bool" where
  "actionGrants D a d T u \<longleftrightarrow>
     (\<exists>route rq p. a = ARequest route rq \<and> g_Protected (dp_gin D) rq = Inr p
        \<and> routeGrants (dp_env D) route rq (publicContext (dp_env D) rq p) d T u)"

lemma sys_step_granted:
  assumes "sys_step D a w w'"
  shows "granted_under (actionGrants D a (db w)) (db w) (db w')"
proof (cases "a = ACleanup")
  case True
  with assms show ?thesis using Cleanup_granted by (metis cleanup_stepE snd_conv)
next
  case False
  with assms show ?thesis by (rule auth.frame_sys_step) (auto simp: actionGrants_def)
qed

lemma new_row_granted:
  assumes "sys_step D a w w'" "r' \<in> set (delegations (db w'))" "d_ID r' \<notin> d_ID ` set (delegations (db w))"
  shows "actionGrants D a (db w) (d_TenantID r') (d_DelegatorID r')"
proof -
  have "\<not> same_grant r r'" if "r \<in> set (delegations (db w))" for r
    using assms(3) that by (force simp: same_grant_def)
  with sys_step_granted [OF assms(1)] assms(2) show ?thesis by (auto simp: granted_under_def)
qed

lemma grantor_of_new_row:
  assumes step: "sys_step D a w w'" and inv: "db_inv (db w)"
    and new: "r' \<in> set (delegations (db w'))" "d_ID r' \<notin> d_ID ` set (delegations (db w))"
  obtains route rq p where "a = ARequest route rq" "g_Protected (dp_gin D) rq = Inr (Some p)"
    "uuid_Parse (dp_env D) (pid_TenantID p) = Some (d_TenantID r')"
    "route = R_Create \<and> uuid_Parse (dp_env D) (pid_UserID p) = Some (d_DelegatorID r')
     \<or> route = R_Reassign \<and> (\<exists>did r. uuid_Parse (dp_env D) (valueOf ''id'' (rq_Params rq)) = Some did
          \<and> r \<in> set (delegations (db w)) \<and> liveRow (d_TenantID r') did r \<and> d_DelegatorID r = d_DelegatorID r'
          \<and> (uuid_String (dp_env D) (d_DelegatorID r) = pid_UserID p
             \<or> ''tenant_admin'' \<in> set (pid_Roles p) \<or> ''tenant_owner'' \<in> set (pid_Roles p)))"
proof -
  let ?e = "dp_env D" and ?T = "d_TenantID r'" and ?u = "d_DelegatorID r'"
  from new_row_granted [OF step new] obtain route rq q where a: "a = ARequest route rq"
    and q: "g_Protected (dp_gin D) rq = Inr q" and g: "routeGrants ?e route rq (publicContext ?e rq q) (db w) ?T ?u"
    by (auto simp: actionGrants_def)
  from g obtain p where p: "q = Some p" by (cases q) (auto simp: routeGrants_def)
  have T: "uuid_Parse ?e (pid_TenantID p) = Some ?T"
    using g by (auto simp: routeGrants_def p callerOf_def)
  from step a obtain res where run: "NewRouter ?e (dp_gin D) route rq w = (res, w')" by (auto simp: request_step)
  have changed: "\<not> quiet w w'" using new by (auto simp: quiet_def)
  from g consider "route = R_Create" "uuid_Parse ?e (pid_UserID p) = Some ?u"
    | did r where "route = R_Reassign" "uuid_Parse ?e (valueOf ''id'' (rq_Params rq)) = Some did"
        "r \<in> set (delegations (db w))" "liveRow ?T did r" "d_DelegatorID r = ?u"
    by (auto simp: routeGrants_def p callerOf_def)
  then show ?thesis
  proof cases
    case 1
    with a q p T that show ?thesis by blast
  next
    case 2
    from owner_routes [OF _ run] 2(1) changed q p T 2(2) obtain d where
      d: "d \<in> set (delegations (db w))" "liveRow ?T did d"
      "uuid_String ?e (d_DelegatorID d) = pid_UserID p \<or> ''tenant_admin'' \<in> set (pid_Roles p) \<or> ''tenant_owner'' \<in> set (pid_Roles p)"
      by auto
    with 2 inv have "d = r" by (auto simp: db_inv_def liveRow_def dest: distinct_key_eq)
    with 2 d a q p T show ?thesis by (intro that) auto
  qed
qed

end
