(* ===== verification/Concurrency.thy ===== *)
theory Concurrency
  imports Lifecycle
begin

text \<open>
  Requests, deliveries and jobs run at the same time in the deployed service. What the database
  sees of them is a sequence of transactions, whose arguments come from reads that may be old.
  Here every transaction of the service, with any argument at all, is a step of its own: each
  interleaving of requests, deliveries and jobs is a sequence of such steps. The theorems say
  what survives: the history of the rows and of the events, the ownership check of a request,
  and the version check of the jobs.
\<close>

section \<open>Transactions in any order\<close>

inductive txn :: "db \<Rightarrow> db \<Rightarrow> bool" where
  txn_create: "c_tx c = Some t \<Longrightarrow> txn (db w) (db (snd (Create_tx e T u req p c w)))"
| txn_cancel: "c_tx c' = Some t \<Longrightarrow> txn (db w) (db (snd (cancelTx e c T i v reason d c' w)))"
| txn_extend: "txn (db w) (db (snd (DelegationRepository_ExtendReview e AppPool c T i n v w)))"
| txn_settings: "txn (db w) (db (snd (SettingsRepository_Upsert e c T n m w)))"
| txn_user_removed: "c_tx c = Some t \<Longrightarrow> txn (db w) (db (snd (CascadeService_endForUserTx e T u c w)))"
| txn_user_disabled: "c_tx c = Some t \<Longrightarrow> txn (db w) (db (snd (CascadeService_endForDisabledTx e T u c w)))"
| txn_scrub: "txn (db w) (db (snd (DelegationRepository_SoftDeleteTenant e AppPool c T w)))"
| txn_scrub_settings: "txn (db w) (db (snd (SettingsRepository_SoftDeleteTenant e c T w)))"
| txn_mark: "txn (db w) (db (snd (ProcessedEventsRepository_MarkProcessed e c key ev w)))"
| txn_end: "c_tx c = Some t \<Longrightarrow> txn (db w) (db (snd (endTx e d reason cron c w)))"
| txn_activate: "c_tx c = Some t \<Longrightarrow> txn (db w) (db (snd (activateTx e d c w)))"
| txn_warn: "c_tx c = Some t \<Longrightarrow> txn (db w) (db (snd (warnTx e d b c w)))"

abbreviation txns :: "db \<Rightarrow> db \<Rightarrow> bool" where
  "txns \<equiv> txn\<^sup>*\<^sup>*"

text \<open>A request, a delivery and a sweep each do nothing to the database but such transactions.\<close>

interpretation txns: sweeper_frame txns "\<lambda>_. True" "\<lambda>_ _. True"
  by unfold_locales (auto intro: rtranclp_trans r_into_rtranclp txn.intros)

lemma sys_run_txns: "sys_run D as w w' \<Longrightarrow> ACleanup \<notin> set as \<Longrightarrow> txns (db w) (db w')"
proof (induction rule: sys_run.induct)
  case (cons a w w1 as w')
  then have "txns (db w) (db w1)" by (intro txns.frame_sys_step) auto
  with cons show ?case by (auto intro: rtranclp_trans)
qed simp

text \<open>A relation that every body respects, respected by any sequence of transactions.\<close>

context sweeper_frame
begin

lemma frame_txns:
  assumes "txns d d'" "\<And>c. okc c" "\<And>T u. okg T u"
  shows "R d d'"
  using assms(1)
proof (induction rule: rtranclp_induct)
  case (step d1 d2)
  have "R d1 d2"
    using step(2)
  proof cases
    case txn_create
    then show ?thesis using b_Create_tx assms(2,3) by auto
  next
    case txn_cancel
    then show ?thesis using b_cancelTx assms(2) by auto
  next
    case txn_extend
    then show ?thesis using b_ExtendReview assms(2) by auto
  next
    case txn_settings
    then show ?thesis using b_Upsert assms(2) by auto
  next
    case txn_user_removed
    then show ?thesis using b_endForUserTx assms(2) by auto
  next
    case txn_user_disabled
    then show ?thesis using b_endForDisabledTx assms(2) by auto
  next
    case txn_scrub
    then show ?thesis using b_SoftDeleteTenant assms(2) by auto
  next
    case txn_scrub_settings
    then show ?thesis using b_SettingsSoftDelete assms(2) by auto
  next
    case txn_mark
    then show ?thesis using b_MarkProcessed assms(2) by auto
  next
    case txn_end
    then show ?thesis using b_endTx assms(2) by auto
  next
    case txn_activate
    then show ?thesis using b_activateTx assms(2) by auto
  next
    case txn_warn
    then show ?thesis using b_warnTx assms(2) by auto
  qed
  with step(3) show ?case by (rule db_trans)
qed (rule db_refl)

end

lemma txns_life: "txns d d' \<Longrightarrow> lifecycle d d'"
  by (rule life.frame_txns) simp_all

lemma txns_step: "txns d d' \<Longrightarrow> db_step d d'"
  by (rule jstep.frame_txns) simp_all


text \<open>What other requests, deliveries and jobs may do between two actions of one of them.\<close>

definition others :: "world \<Rightarrow> world \<Rightarrow> bool" where
  "others w w' \<longleftrightarrow> txns (db w) (db w')"

lemma others_refl: "others w w"
  by (simp add: others_def)

lemma others_run: "sys_run D as w w' \<Longrightarrow> ACleanup \<notin> set as \<Longrightarrow> others w w'"
  by (simp add: others_def sys_run_txns)

lemma others_inv: "others w w' \<Longrightarrow> db_inv (db w) \<Longrightarrow> db_inv (db w')"
  using txns_step by (auto simp: others_def db_step_def)

lemma others_row:
  assumes "others w w'" "r \<in> set (delegations (db w))"
  obtains r' where "r' \<in> set (delegations (db w'))" "row_evolves r r'"
  using txns_step [of "db w" "db w'"] assms by (auto simp: others_def db_step_def db_evolves_def)

lemma others_same_row:
  assumes "others w w'" "db_inv (db w)" "r \<in> set (delegations (db w))" "r' \<in> set (delegations (db w'))" "d_ID r' = d_ID r"
  shows "row_evolves r r'"
proof -
  obtain x where x: "x \<in> set (delegations (db w'))" "row_evolves r x" by (rule others_row [OF assms(1,3)])
  have "distinct (map d_ID (delegations (db w')))" using others_inv [OF assms(1,2)] by (simp add: db_inv_def)
  with x assms(4,5) have "x = r'" by (intro distinct_key_eq) (auto simp: row_evolves_def same_grant_def)
  with x show ?thesis by simp
qed

section \<open>A cancel request among others\<close>

text \<open>\<open>cancelInternal\<close> after its first read.\<close>

definition cancelRest :: "env \<Rightarrow> ctx \<Rightarrow> uuid \<Rightarrow> uuid \<Rightarrow> int \<Rightarrow> EndReason \<Rightarrow> Delegation \<Rightarrow> world \<Rightarrow> (error, Delegation, world) outcome" where
  "cancelRest e c T i v reason d w =
     bind_res (TxRunner_RunInTx e c (cancelTx e c T i v reason d) (clearFailOpen e ''cancel'' T (d_DelegatorID d) w)) (\<lambda>ended w.
       (Inr ended,
        record_metric e (MEnded EndReasonCancelled)
          (if hasCache e then Cache_InvalidateDelegatorList e T (d_DelegatorID d) w else w)))"

lemma cancelInternal_rest:
  "cancelInternal e c T i v reason w = bind_res (DelegationRepository_FindByID e AppPool c T i w) (cancelRest e c T i v reason)"
  by (simp add: cancelInternal_def cancelRest_def [abs_def])

text \<open>The handler's ownership check, its read and its transaction, with others in between.\<close>

inductive cancel_race :: "env \<Rightarrow> Gin \<Rightarrow> Request \<Rightarrow> ctx \<Rightarrow> int \<Rightarrow> world \<Rightarrow> world \<Rightarrow> error + Delegation \<Rightarrow> world \<Rightarrow> bool"
  for e g rq c v w where
  "ownedTarget e g rq c w = (Inr (T, i), w1) \<Longrightarrow> others w1 w2
   \<Longrightarrow> DelegationRepository_FindByID e AppPool c T i w2 = (Inr d, w3) \<Longrightarrow> others w3 w4
   \<Longrightarrow> cancelRest e c T i v EndReasonCancelled d w4 = (r, w') \<Longrightarrow> cancel_race e g rq c v w w4 r w'"

text \<open>The handler is such a sequence, with nobody in between.\<close>

lemma handler_cancel_race:
  assumes "DelegationHandler_Cancel e g rq c w = (Inr resp, w')"
  obtains w4 out where "cancel_race e g rq c (fst (ParseInt (valueOf ''record_version'' (rq_Query rq)))) w w4 (Inr out) w'"
    "resp = JSON 200 (BodyDelegation (DelegationToResponse out))"
proof -
  let ?v = "fst (ParseInt (valueOf ''record_version'' (rq_Query rq)))"
  from assms obtain T i w1 out where own: "ownedTarget e g rq c w = (Inr (T, i), w1)"
    and run: "cancelInternal e c T i ?v EndReasonCancelled w1 = (Inr out, w')"
    and resp: "resp = JSON 200 (BodyDelegation (DelegationToResponse out))"
    unfolding DelegationHandler_Cancel_def DelegationService_Cancel_def by (auto simp: res_iff)
  from run obtain d w3 where "DelegationRepository_FindByID e AppPool c T i w1 = (Inr d, w3)"
    "cancelRest e c T i ?v EndReasonCancelled d w3 = (Inr out, w')"
    unfolding cancelInternal_rest bind_res_Inr_iff by auto
  then have "cancel_race e g rq c ?v w w3 (Inr out) w'"
    by (rule cancel_race.intros [OF own others_refl _ others_refl])
  with resp that show ?thesis by blast
qed

lemma cancelRest_ok:
  assumes "c_tx c = None" "db_inv (db w)" "r \<in> set (delegations (db w))" "d_ID r = i" "same_grant d r"
    and "cancelRest e c T i v reason d w = (Inr out, w')"
  obtains now ok where "liveRow T i r" "d_RecordVersion r = v" "openStatus (d_Status r)"
    "out = stamped now (r\<lparr>d_Status := DelegationCancelled\<rparr>)"
    "changed (db w) (replace_row out (delegations (db w)))
       (if hasPublisher e \<or> c_publisher c then [endedPayload T r reason (cancelActor e c r)] else []) (db w')"
    "pointerCalls w' = pointerCalls w @ [UPClear T (d_DelegatorID r) ok]"
proof -
  let ?w = "clearFailOpen e ''cancel'' T (d_DelegatorID d) w"
  from assms(6) obtain w2 where tx: "TxRunner_RunInTx e c (cancelTx e c T i v reason d) ?w = (Inr out, w2)"
    and w': "w' = record_metric e (MEnded EndReasonCancelled) (if hasCache e then Cache_InvalidateDelegatorList e T (d_DelegatorID d) w2 else w2)"
    unfolding cancelRest_def res_iff by auto
  have same: "db w' = db w2" "pointerCalls w' = pointerCalls w2" "d_DelegatorID d = d_DelegatorID r"
    "pointerCalls (clearFailOpen e ''cancel'' T (d_DelegatorID r) w)
       = pointerCalls w @ [UPClear T (d_DelegatorID r) (clearDelegatePointer e (tick w) T (d_DelegatorID r) = None)]"
    using w' assms(5) by (simp_all add: pointerCalls_def same_grant_def)
  have "db_inv (db ?w)" "r \<in> set (delegations (db ?w))" using assms(2,3) by simp_all
  then show ?thesis
    by (rule cancel_run_ok [OF assms(1) _ _ assms(4,5) tx]) (rule that, simp_all add: same)
qed

lemma cancel_race_ok:
  assumes "cancel_race e g rq c v w w4 (Inr out) w'" "c_tx c = None" "db_inv (db w)"
  obtains rc T i r now ok where "c_rc c = Some rc" "uuid_Parse e (rc_TenantID rc) = Some T"
    "uuid_Parse e (valueOf ''id'' (rq_Params rq)) = Some i"
    "r \<in> set (delegations (db w4))" "liveRow T i r" "selfOrAdmin e rc r" "d_RecordVersion r = v" "openStatus (d_Status r)"
    "out = stamped now (r\<lparr>d_Status := DelegationCancelled\<rparr>)"
    "changed (db w4) (replace_row out (delegations (db w4)))
       (if hasPublisher e \<or> c_publisher c then [endedPayload T r EndReasonCancelled (cancelActor e c r)] else []) (db w')"
    "pointerCalls w' = pointerCalls w4 @ [UPClear T (d_DelegatorID r) ok]"
proof -
  from assms(1) obtain T i w1 w2 d w3 where own: "ownedTarget e g rq c w = (Inr (T, i), w1)" and o1: "others w1 w2"
    and f: "DelegationRepository_FindByID e AppPool c T i w2 = (Inr d, w3)" and o2: "others w3 w4"
    and rest: "cancelRest e c T i v EndReasonCancelled d w4 = (Inr out, w')"
    by (auto elim: cancel_race.cases)
  from own obtain rc d0 where rc: "c_rc c = Some rc" "uuid_Parse e (rc_TenantID rc) = Some T"
    "uuid_Parse e (valueOf ''id'' (rq_Params rq)) = Some i" "d0 \<in> set (delegations (db w))" "liveRow T i d0" "selfOrAdmin e rc d0"
    and q: "quiet w w1" by (rule ownedTarget_ok)
  from FindByID_ok [OF f] have d: "d \<in> set (delegations (db w2))" "liveRow T i d" by simp_all
  from quiet_FindByID [OF f] have w3: "db w3 = db w2" by (simp add: quiet_def)
  have inv: "db_inv (db w1)" "db_inv (db w2)" "db_inv (db w3)" "db_inv (db w4)"
    using q assms(3) others_inv [OF o1] others_inv [OF o2] w3 by (auto simp: quiet_def)
  have "row_evolves d0 d"
    using rc(4,5) q d by (intro others_same_row [OF o1 inv(1)]) (auto simp: quiet_def liveRow_def)
  obtain r where r: "r \<in> set (delegations (db w4))" "row_evolves d r"
    by (rule others_row [OF o2]) (use d(1) w3 in auto)
  then have "row_evolves d0 r" using \<open>row_evolves d0 d\<close> by (blast intro: row_evolves_trans)
  with rc(6) have owner: "selfOrAdmin e rc r" by (simp add: selfOrAdmin_def row_evolves_def same_grant_def)
  have "d_ID r = i" "same_grant d r" using r d by (simp_all add: row_evolves_def same_grant_def liveRow_def)
  then show ?thesis
    by (rule cancelRest_ok [OF assms(2) inv(4) r(1) _ _ rest]) (rule that [OF rc(1-3) r(1) _ owner])
qed


section \<open>A sweep among others\<close>

text \<open>
  A sweep lists its targets first. A target that anything touched in between has another
  version, and its transaction leaves it alone; a target whose version still fits is the row
  that was listed.
\<close>

lemma version_fits:
  assumes "others w0 w" "db_inv (db w0)" "d \<in> set (delegations (db w0))"
    and "liveRow (d_TenantID d) (d_ID d) r" "d_RecordVersion r = d_RecordVersion d" "r \<in> set (delegations (db w))"
  shows "d \<in> set (delegations (db w))"
proof -
  have "row_evolves d r" using assms(4,6) by (intro others_same_row [OF assms(1-3)]) (simp_all add: liveRow_def)
  with assms(5,6) show ?thesis by (simp add: row_evolves_def)
qed

lemma endTx_stale:
  assumes o: "others w0 w" "db_inv (db w0)" "d \<in> set (delegations (db w0))"
    and run: "endTx e d reason cron c w = (Inr lost, w')"
  shows "db w' = db w \<or> d \<in> set (delegations (db w)) \<and> (\<exists>now. changed (db w) (replace_row (endedRow now d) (delegations (db w)))
           (published (c_publisher c) [endedPayload (d_TenantID d) d reason SystemActorID]) (db w'))"
proof -
  have inv: "db_inv (db w)" by (rule others_inv [OF o(1,2)])
  obtain r w1 where en: "DelegationRepository_End e SysPool c (d_TenantID d) (d_ID d) DelegationEnded (d_RecordVersion d) w = (r, w1)"
    by force
  show ?thesis
  proof (cases r)
    case (Inl err)
    with run en End_error_db show ?thesis by (auto simp: endTx_def split: if_splits)
  next
    case (Inr out)
    obtain t :: tx and r0 where "liveRow (d_TenantID d) (d_ID d) r0" "d_RecordVersion r0 = d_RecordVersion d"
        "wrote_row (db w) (db w1) r0 out"
      by (rule End_ok [OF inv en [unfolded Inr]]) (rule that)
    then have d: "d \<in> set (delegations (db w))" by (intro version_fits [OF o, of r0]) (auto simp: wrote_row_def)
    with endTx_ok [OF inv d run] show ?thesis by blast
  qed
qed

lemma activateTx_stale:
  assumes o: "others w0 w" "db_inv (db w0)" "d \<in> set (delegations (db w0))"
    and run: "activateTx e d c w = (Inr lost, w')"
  shows "db w' = db w \<or> d \<in> set (delegations (db w)) \<and> (\<exists>now. changed (db w) (replace_row (activatedRow now d) (delegations (db w)))
           (published (c_publisher c) [startedPayload (d_TenantID d) d SystemActorID]) (db w'))"
proof -
  have inv: "db_inv (db w)" by (rule others_inv [OF o(1,2)])
  from run obtain act w1 where en: "DelegationRepository_Activate e SysPool c (d_TenantID d) (d_ID d) (d_RecordVersion d) w = (Inr act, w1)"
    and k: "act = None \<Longrightarrow> w' = w1"
    unfolding activateTx_def bind_res_Inr_iff by (auto split: option.splits)
  show ?thesis
  proof (cases act)
    case None
    with en k Activate_none_db show ?thesis by auto
  next
    case (Some out)
    obtain t :: tx and r0 where "liveRow (d_TenantID d) (d_ID d) r0" "d_RecordVersion r0 = d_RecordVersion d"
        "wrote_row (db w) (db w1) r0 out"
      by (rule Activate_ok [OF inv en [unfolded Some]]) (rule that)
    then have d: "d \<in> set (delegations (db w))" by (intro version_fits [OF o, of r0]) (auto simp: wrote_row_def)
    with activateTx_ok [OF inv d run] show ?thesis by blast
  qed
qed

text \<open>One target of a sweep: nothing happened to the database, or exactly what was meant for the row listed.\<close>

definition swept_one :: "(time \<Rightarrow> Delegation \<Rightarrow> Delegation) \<Rightarrow> EventData list \<Rightarrow> Delegation \<Rightarrow> db \<Rightarrow> db \<Rightarrow> bool" where
  "swept_one upd evs d d1 d2 \<longleftrightarrow>
     d2 = d1 \<or> d \<in> set (delegations d1) \<and> (\<exists>now. changed d1 (replace_row (upd now d) (delegations d1)) evs d2)"

lemma stale_run:
  assumes "c_tx c = None"
    and "\<And>c' w1 w2 lost. db w1 = db w \<Longrightarrow> c_publisher c' = jobPub e c \<Longrightarrow> f c' w1 = (Inr lost, w2)
       \<Longrightarrow> swept_one upd (evs (c_publisher c')) d (db w1) (db w2)"
    and "TxRunner_RunInTx e (WithTenantGUC c T) f w = (r, w')"
  shows "swept_one upd (evs (jobPub e c)) d (db w) (db w')"
proof (cases r)
  case (Inl err)
  with assms(1,3) RunInTx_error [of "WithTenantGUC c T" e f w err w'] show ?thesis by (simp add: swept_one_def)
next
  case (Inr lost)
  with assms(3) have tx: "TxRunner_RunInTx e (WithTenantGUC c T) f w = (Inr lost, w')" by simp
  have "c_tx (WithTenantGUC c T) = None" using assms(1) by simp
  then obtain c' w1 w2 where c': "c_publisher c' = (hasPublisher e \<or> c_publisher (WithTenantGUC c T))" "db w1 = db w"
    "f c' w1 = (Inr lost, w2)" "w' = bump w2"
    using tx by (rule RunInTx_ok)
  then have "swept_one upd (evs (c_publisher c')) d (db w1) (db w2)" by (intro assms(2)) (simp_all)
  with c' show ?thesis by simp
qed


lemma endRun_stale:
  assumes "c_tx c = None" "others w0 w" "db_inv (db w0)" "d \<in> set (delegations (db w0))"
    and "TxRunner_RunInTx e (WithTenantGUC c (d_TenantID d)) (endTx e d reason cron) w = (r, w')"
  shows "swept_one endedRow (published (jobPub e c) [endedPayload (d_TenantID d) d reason SystemActorID]) d (db w) (db w')"
proof (rule stale_run [OF assms(1) _ assms(5), where evs = "\<lambda>b. published b [endedPayload (d_TenantID d) d reason SystemActorID]"])
  fix c' w1 w2 lost
  assume "db w1 = db w" and run: "endTx e d reason cron c' w1 = (Inr lost, w2)"
  with assms(2) have "others w0 w1" by (simp add: others_def)
  from endTx_stale [OF this assms(3,4) run]
  show "swept_one endedRow (published (c_publisher c') [endedPayload (d_TenantID d) d reason SystemActorID]) d (db w1) (db w2)"
    by (auto simp: swept_one_def)
qed

lemma Expiry_step_stale:
  assumes "c_tx c = None" "others w0 w" "db_inv (db w0)" "d \<in> set (delegations (db w0))" "Expiry_step e c d (res, w) = (res', w')"
  shows "swept_one endedRow (published (jobPub e c) [expiredPayload EndReasonExpired d]) d (db w) (db w')"
proof -
  obtain err w1 where cl: "up_ClearDelegatePointer e (d_TenantID d) (d_DelegatorID d) w = (err, w1)" by force
  then have w1: "db w1 = db w" using up_ClearDelegatePointer_def by (auto simp: Let_def)
  obtain r w2 where tx: "endExpired e c d w1 = (r, w2)" by force
  have "others w0 w1" using assms(2) w1 by (simp add: others_def)
  from endRun_stale [OF assms(1) this assms(3,4) tx [unfolded endExpired_def]] w1
  have "swept_one endedRow (published (jobPub e c) [expiredPayload EndReasonExpired d]) d (db w) (db w2)"
    by (simp add: expiredPayload_def)
  moreover have "db w' = db w1 \<or> db w' = db w2"
    using assms(5) cl tx by (auto simp: Expiry_step_def Let_def split: option.splits sum.splits if_splits)
  ultimately show ?thesis using w1 by (auto simp: swept_one_def)
qed

lemma Activation_step_stale:
  assumes "c_tx c = None" "others w0 w" "db_inv (db w0)" "d \<in> set (delegations (db w0))" "Activation_step e c d (res, w) = (res', w')"
  shows "swept_one activatedRow (published (jobPub e c) [activatedPayload d]) d (db w) (db w')"
proof -
  let ?req = "oooRequest (d_TenantID d) (d_DelegatorID d) (d_StartsAt d) (case d_EndsAt d of Some u \<Rightarrow> Some u | None \<Rightarrow> d_ReviewDueAt d) (d_DelegateID d) (d_Reason d)"
  obtain err w1 where cl: "up_SetAvailability e ?req w = (err, w1)" by force
  then have w1: "db w1 = db w" using up_SetAvailability_def by (auto simp: Let_def)
  obtain r w2 where tx: "activateScheduled e c d w1 = (r, w2)" by force
  have "swept_one activatedRow (published (jobPub e c) [startedPayload (d_TenantID d) d SystemActorID]) d (db w1) (db w2)"
  proof (rule stale_run [OF assms(1) _ tx [unfolded activateScheduled_def],
        where evs = "\<lambda>b. published b [startedPayload (d_TenantID d) d SystemActorID]"])
    fix c' w3 w4 lost
    assume "db w3 = db w1" and run: "activateTx e d c' w3 = (Inr lost, w4)"
    with assms(2) w1 have "others w0 w3" by (simp add: others_def)
    from activateTx_stale [OF this assms(3,4) run]
    show "swept_one activatedRow (published (c_publisher c') [startedPayload (d_TenantID d) d SystemActorID]) d (db w3) (db w4)"
      by (auto simp: swept_one_def)
  qed
  moreover have "db w' = db w1 \<or> db w' = db w2"
    using assms(5) cl tx by (auto simp: Activation_step_def Let_def split: option.splits sum.splits if_splits)
  ultimately show ?thesis using w1 by (auto simp: swept_one_def activatedPayload_def)
qed

end
