(* ===== verification/Idempotency.thy ===== *)
theory Idempotency
  imports Concurrency
begin

text \<open>
  The reservation of an \<open>Idempotency-Key\<close> among everything else the service does. The entries of
  the idempotency store are written by \<open>Create\<close> alone, and only under the key of its own request;
  so a reservation survives whatever runs beside the request that holds it, and every other
  request with that key is refused.
\<close>

section \<open>Which entries an operation may write\<close>

definition idem_kept :: "(uuid \<times> string) set \<Rightarrow> world \<Rightarrow> world \<Rightarrow> bool" where
  "idem_kept X w w' \<longleftrightarrow> (\<forall>T key. (T, key) \<notin> X \<longrightarrow> kv w' (KeyIdem T key) = kv w (KeyIdem T key))"

interpretation kept: tx_frame "idem_kept X" for X
  by unfold_locales (auto simp: idem_kept_def)

lemma kept_same_kv: "kv w' = kv w \<Longrightarrow> idem_kept X w w'"
  by (simp add: idem_kept_def)

lemma kept_ext: "same_ext w w' \<Longrightarrow> idem_kept X w w'"
  by (simp add: same_ext_def kept_same_kv)

lemma kept_mono: "idem_kept X w w' \<Longrightarrow> X \<subseteq> Y \<Longrightarrow> idem_kept Y w w'"
  by (auto simp: idem_kept_def)

lemma kept_RunInTx:
  assumes "\<And>c' w1. same_ext w1 (snd (f c' w1))"
  shows "idem_kept X w (snd (TxRunner_RunInTx e c f w))"
  by (intro kept.frame_RunInTx kept_ext assms)

lemma kv_cmd_kept: "(\<And>now w1. idem_kept X w1 (snd (f now w1))) \<Longrightarrow> idem_kept X w (snd (kv_cmd e f w))"
proof -
  assume f: "\<And>now w1. idem_kept X w1 (snd (f now w1))"
  have "idem_kept X w (snd (f (clock e (tick w)) (bump w)))"
    by (rule kept.frame_trans [OF kept.frame_bump f])
  then show ?thesis by (auto simp: kv_cmd_def kept.frame_bump split: option.split prod.split)
qed

lemma cache_kept:
  "idem_kept X w (snd (Cache_GetDelegatorList e T u w))"
  "idem_kept X w (Cache_SetDelegatorList e T u l w)"
  "idem_kept X w (Cache_InvalidateDelegatorList e T u w)"
proof -
  have "idem_kept X w (snd (redis_Get e k w))" for k
    unfolding redis_Get_def by (rule kv_cmd_kept) (simp add: kept.frame_refl)
  then have "redis_Get e k w = (r, w') \<Longrightarrow> idem_kept X w w'" for k r w' by (metis snd_conv)
  then show "idem_kept X w (snd (Cache_GetDelegatorList e T u w))"
    by (auto simp: Cache_GetDelegatorList_def split: prod.split sum.split option.split KVValue.split)
  show "idem_kept X w (Cache_SetDelegatorList e T u l w)" "idem_kept X w (Cache_InvalidateDelegatorList e T u w)"
    unfolding Cache_SetDelegatorList_def Cache_InvalidateDelegatorList_def redis_Set_def redis_Del_def
    by (rule kv_cmd_kept, simp add: idem_kept_def)+
qed

lemma store_kept:
  "idem_kept {(T, key)} w (snd (IdempotencyStore_Save e T key rec w))"
  "idem_kept {(T, key)} w (snd (IdempotencyStore_Reserve e T key w))"
  "idem_kept {(T, key)} w (snd (IdempotencyStore_Release e T key w))"
  "idem_kept X w (snd (IdempotencyStore_Get e T key w))"
proof -
  show "idem_kept {(T, key)} w (snd (IdempotencyStore_Save e T key rec w))"
    "idem_kept {(T, key)} w (snd (IdempotencyStore_Reserve e T key w))"
    "idem_kept {(T, key)} w (snd (IdempotencyStore_Release e T key w))"
    unfolding IdempotencyStore_Save_def IdempotencyStore_Reserve_def IdempotencyStore_Release_def redis_Set_def redis_SetNX_def redis_Del_def
    by (rule kv_cmd_kept; auto simp: idem_kept_def)+
  have "idem_kept X w (snd (redis_Get e k w))" for k
    unfolding redis_Get_def by (rule kv_cmd_kept) (simp add: kept.frame_refl)
  then have "redis_Get e k w = (r, w') \<Longrightarrow> idem_kept X w w'" for k r w' by (metis snd_conv)
  then show "idem_kept X w (snd (IdempotencyStore_Get e T key w))"
    by (auto simp: IdempotencyStore_Get_def split: prod.split sum.split option.split KVValue.split)
qed

section \<open>The use cases\<close>

text \<open>The entry a create may write.\<close>

definition ownKey :: "uuid \<Rightarrow> string \<Rightarrow> (uuid \<times> string) set" where
  "ownKey T key = (if key = '''' then {} else {(T, key)})"

lemma reserve_kept: "key \<noteq> '''' \<Longrightarrow> idem_kept (ownKey T key) w (snd (Create_reserve e T key w))"
  using store_kept(2) [of T key w e]
  by (auto simp: Create_reserve_def ownKey_def split: prod.split sum.split bool.split)

lemma gate_kept: "idem_kept (ownKey T key) w (snd (Create_gate e c T key w))"
proof -
  obtain r w1 where g: "IdempotencyStore_Get e T key w = (r, w1)" by force
  then have w1: "idem_kept X w w1" for X using store_kept(4) [of X w e T key] by simp
  have f: "idem_kept X w w2" if "DelegationRepository_FindByID e AppPool c T i w1 = (x, w2)" for i x w2 X
    using kept_ext [OF repository_ext(2) [of w1 e AppPool c T i], of X] that kept.frame_trans [OF w1] by simp
  have m: "idem_kept X w w2 \<Longrightarrow> idem_kept X w (record_metric e MIdempotencyHit w2)" for w2 X
    by (simp add: idem_kept_def)
  have rv: "key \<noteq> '''' \<Longrightarrow> idem_kept (ownKey T key) w w2 \<Longrightarrow> idem_kept (ownKey T key) w (snd (Create_reserve e T key w2))" for w2
    by (blast intro: kept.frame_trans reserve_kept)
  show ?thesis
    by (auto simp: Create_gate_def kept.frame_refl g w1 rv split: prod.split sum.split option.split dest: f intro: m rv [OF _ f])
qed

lemma commit_kept: "idem_kept X w (snd (Create_commit e c T u req p w))"
proof -
  obtain r w1 where tx: "TxRunner_RunInTx e c (Create_tx e T u req p) w = (r, w1)" by force
  then have "kv w1 = kv w" by (rule RunInTx_pointerCalls(2) [OF Create_tx_ext])
  with tx show ?thesis by (auto simp: Create_commit_def idem_kept_def split: sum.split)
qed

lemma plan_kept: "idem_kept X w (snd (Create_plan e c T u req w))"
proof -
  have "idem_kept X w (snd (checkBothMemberships e T u d w))" for d w
    by (auto simp: checkBothMemberships_def Let_def idem_kept_def split: option.split sum.split prod.split)
  moreover have "idem_kept X w (snd (Create_delegateFree e T d b s w))" for d b s w
    by (auto simp: Create_delegateFree_def up_GetAvailability_def idem_kept_def split: option.split sum.split prod.split)
  moreover have "idem_kept X w (snd (Create_catalog e req w))" for w
    by (auto simp: Create_catalog_def idem_kept_def split: option.split sum.split prod.split bool.split)
  ultimately show ?thesis
    unfolding Create_plan_def Let_def
    by (intro kept.frame_bind) (auto simp: check_res_def kept.frame_refl kept_ext split: option.split)
qed


lemma setOOO_kept: "idem_kept X w (snd (Create_setOOO e T u req p w))"
  by (auto simp: Create_setOOO_def up_SetAvailability_def Let_def idem_kept_def split: option.split)

lemma finish_kept: "idem_kept (ownKey T key) w (Create_finish e T u key d w)"
proof -
  have "idem_kept (ownKey T key) w1 (snd (IdempotencyStore_Save e T key rec w1))" if "key \<noteq> ''''" for w1 rec
    using store_kept(1) [of T key w1 e rec] that by (simp add: ownKey_def)
  then have "idem_kept (ownKey T key) w1 (Cache_InvalidateDelegatorList e T u (snd (IdempotencyStore_Save e T key rec w1)))"
    if "key \<noteq> ''''" for w1 rec
    using that by (blast intro: kept.frame_trans cache_kept)
  moreover have "idem_kept X w1 w2 \<Longrightarrow> idem_kept X w1 (record_metric e m w2)" for X w1 w2 m by (simp add: idem_kept_def)
  ultimately show ?thesis
    using store_kept(1) [of T key w e]
    by (auto simp: Create_finish_def Let_def cache_kept kept.frame_refl ownKey_def)
qed

lemma Create_kept: "idem_kept (ownKey T key) w (snd (DelegationService_Create e c T u key req w))"
proof -
  have body: "idem_kept (ownKey T key) w1 (snd (Create_body e c T u key req w1))" for w1
    unfolding Create_body_def
    by (intro kept.frame_bind plan_kept setOOO_kept commit_kept) (simp add: finish_kept)
  obtain g w1 where g: "Create_gate e c T key w = (g, w1)" by force
  then have w1: "idem_kept (ownKey T key) w w1" using gate_kept [of T key w e c] by simp
  obtain r w2 where b: "Create_body e c T u key req w1 = (r, w2)" by force
  then have w2: "idem_kept (ownKey T key) w w2" using kept.frame_trans [OF w1 body] by (metis snd_conv)
  have "idem_kept (ownKey T key) w (snd (IdempotencyStore_Release e T key w2))" if "g = GateProceed True"
  proof -
    have "key \<noteq> ''''" using g that by (auto simp: Create_gate_def)
    then show ?thesis using kept.frame_trans [OF w2] store_kept(3) [of T key w2 e] by (simp add: ownKey_def)
  qed
  with w1 w2 show ?thesis by (auto simp: DelegationService_Create_def g b split: Gate.split sum.split)
qed

lemma cancel_kept: "idem_kept X w (snd (cancelInternal e c T i v reason w))"
proof -
  have m: "idem_kept X w1 (record_metric e m (if hasCache e then Cache_InvalidateDelegatorList e T u w1 else w1))" for w1 m u
    using cache_kept(3) [of X w1 e T u] by (simp add: idem_kept_def)
  have "idem_kept X (clearFailOpen e op T u w1) (snd (TxRunner_RunInTx e c (cancelTx e c T i v reason d) (clearFailOpen e op T u w1)))"
    for w1 d u op by (rule kept_RunInTx [OF cancelTx_ext])
  then have tx: "idem_kept X w1 (snd (TxRunner_RunInTx e c (cancelTx e c T i v reason d) (clearFailOpen e op T u w1)))" for w1 d u op
    by (simp add: idem_kept_def)
  show ?thesis
    unfolding cancelInternal_def by (intro kept.frame_bind tx) (simp_all add: m kept_ext)
qed

lemma Extend_kept: "idem_kept X w (snd (DelegationService_Extend e c T i x v w))"
proof -
  have "idem_kept X w1 (setFailOpen e op r (if hasCache e then Cache_InvalidateDelegatorList e T u w1 else w1))" for w1 op r u
    using cache_kept(3) [of X w1 e T u] by (simp add: idem_kept_def)
  then show ?thesis
    unfolding DelegationService_Extend_def
    by (intro kept.frame_bind) (simp_all add: check_res_def kept_ext kept.frame_refl split: option.split)
qed

lemma Reassign_kept: "idem_kept X w (snd (DelegationService_Reassign e c T i v req w))"
proof -
  have "idem_kept X w1 (snd (DelegationService_Create e c T u '''' cr w1))" for w1 u cr
    by (rule kept_mono [OF Create_kept]) (simp add: ownKey_def)
  then show ?thesis
    unfolding DelegationService_Reassign_def
    by (intro kept.frame_bind cancel_kept) (simp_all add: check_res_def kept_ext kept.frame_refl split: option.split)
qed

lemma List_kept: "idem_kept X w (snd (DelegationService_List e c T u w))"
proof -
  have "idem_kept X w1 (snd (bind_res (DelegationRepository_ListByDelegator e AppPool c T u w1)
            (\<lambda>list w. (Inr list, if hasCache e then Cache_SetDelegatorList e T u list w else w))))" for w1
    unfolding DelegationRepository_ListByDelegator_def
    by (intro kept.frame_bind) (simp_all add: cache_kept kept.frame_refl kept_ext)
  moreover have "idem_kept X w w1" if "Cache_GetDelegatorList e T u w = (r, w1)" for r w1
    using cache_kept(1) [of X w e T u] that by simp
  ultimately show ?thesis
    by (auto simp: DelegationService_List_def split: prod.split option.split intro: kept.frame_trans)
qed


section \<open>Deliveries and jobs\<close>

text \<open>Neither touches Valkey at all.\<close>

interpretation same_kv: tx_frame "\<lambda>w w'. kv w' = kv w"
  by unfold_locales auto

lemma ext_kv: "same_ext w w' \<Longrightarrow> kv w' = kv w"
  by (simp add: same_ext_def)

lemma fold_kv [simp]:
  "kv (fold (\<lambda>d w. if P d then w else clearFailOpen e op T (g d) w) ds w) = kv w"
  "kv (fold (\<lambda>d w. if P d then record_metric e m w else w) ds w) = kv w"
  by (induction ds arbitrary: w) auto

lemma pow_metric_kv [simp]: "kv ((record_metric e m ^^ n) w) = kv w"
  by (induction n) auto

lemma cascade_kv:
  "kv (snd (CascadeService_EndForUser e c T u w)) = kv w"
  "kv (snd (CascadeService_EndForDisabledDelegate e c T u w)) = kv w"
  "kv (snd (CascadeService_ScrubTenant e c T w)) = kv w"
proof -
  have "same_ext w (snd (CascadeService_endForDisabledTx e T u c w))" for c w
    unfolding CascadeService_endForDisabledTx_def
    by (intro ext.frame_bind ext.frame_for_each) (auto intro: enqueue_ext)
  then have d: "kv (snd (TxRunner_RunInTx e c (CascadeService_endForDisabledTx e T u) w)) = kv w"
    by (intro same_kv.frame_RunInTx ext_kv)
  have u: "kv (snd (TxRunner_RunInTx e c (CascadeService_endForUserTx e T u) w)) = kv w"
    by (intro same_kv.frame_RunInTx ext_kv endForUserTx_ext)
  show "kv (snd (CascadeService_EndForUser e c T u w)) = kv w"
    unfolding CascadeService_EndForUser_def Let_def by (rule same_kv.frame_bind [OF u]) simp
  show "kv (snd (CascadeService_EndForDisabledDelegate e c T u w)) = kv w"
    unfolding CascadeService_EndForDisabledDelegate_def by (rule same_kv.frame_bind [OF d]) simp
  show "kv (snd (CascadeService_ScrubTenant e c T w)) = kv w"
    unfolding CascadeService_ScrubTenant_def
    by (intro same_kv.frame_RunInTx same_kv.frame_bind ext_kv) simp_all
qed

lemma markProcessed_kv: "kv (snd (markProcessedInTx e c k i w)) = kv w"
  unfolding markProcessedInTx_def by (intro same_kv.frame_RunInTx ext_kv) simp

lemma handlers_kv:
  "kv (snd (handleMembershipRevoked e c evp k i w)) = kv w"
  "kv (snd (handleTenantMembershipsPurged e c evp k i w)) = kv w"
  "kv (snd (handleUserDisabled e c evp k i w)) = kv w"
proof -
  have run: "kv (snd (runCascadeAndMark e c' k i fn w1)) = kv w1" if "\<And>c w. kv (snd (fn c w)) = kv w" for c' fn w1
    unfolding runCascadeAndMark_def by (intro same_kv.frame_RunInTx same_kv.frame_bind that) (simp add: ext_kv)
  show "kv (snd (handleMembershipRevoked e c evp k i w)) = kv w"
    "kv (snd (handleTenantMembershipsPurged e c evp k i w)) = kv w"
    "kv (snd (handleUserDisabled e c evp k i w)) = kv w"
    unfolding handleMembershipRevoked_def handleTenantMembershipsPurged_def handleUserDisabled_def
    by (intro same_kv.frame_bind run cascade_kv; simp)+
qed

lemma Handle_kv: "kv (snd (CascadeConsumer_Handle e v c evp w)) = kv w"
proof -
  have skip: "kv (snd (skipDuplicate e c k i w)) = kv w" for k i w
    unfolding skipDuplicate_def by (intro same_kv.frame_bind) (simp_all add: ext_kv)
  have run: "kv (snd (Handle_run e c k i h w)) = kv w" if "\<And>w. kv (snd (h w)) = kv w" for k i h w
  proof -
    have "kv (snd (case h w1 of (Inl err, w) \<Rightarrow> (Inl err, record_metric e MCascadeDLQ w)
       | (Inr _, w) \<Rightarrow> (Inr (), record_metric e MCascadeProcessed w))) = kv w1" for w1
      using that [of w1] by (auto split: prod.split sum.split)
    then show ?thesis unfolding Handle_run_def by (intro same_kv.frame_bind skip) simp
  qed
  have u: "kv (snd (Handle_userUpdated e c evp i w)) = kv w" for i w
    unfolding Handle_userUpdated_def
    by (intro same_kv.frame_bind) (auto simp: markProcessed_kv skip run handlers_kv intro!: same_kv.frame_bind)
  have "kv (snd (validatePayload e v evp w)) = kv w" for w
    by (simp add: validatePayload_def split: option.split)
  then show ?thesis
    unfolding CascadeConsumer_Handle_def Let_def
    by (auto simp: u run handlers_kv ackUnknown_def markProcessed_kv
        intro!: same_kv.frame_bind [where s = "record_metric _ _ _", simplified] split: option.split)
qed


lemma job_steps_kv:
  "kv (snd (Expiry_step e c d s)) = kv (snd s)" "kv (snd (AutoEnd_step e c d s)) = kv (snd s)"
  "kv (snd (Activation_step e c d s)) = kv (snd s)" "kv (snd (Warn_step e c now d s)) = kv (snd s)"
proof -
  have tx: "kv w' = kv w" if "TxRunner_RunInTx e c' f w = (r, w')" "\<And>c1 w1. same_ext w1 (snd (f c1 w1))" for c' w r w'
    and f :: "ctx \<Rightarrow> world \<Rightarrow> (error, bool, world) outcome"
    using same_kv.frame_RunInTx [where c = c' and f = f and w = w and e = e] that ext_kv by (metis snd_conv)
  note tx' = tx [OF _ job_ext(1)] tx [OF _ job_ext(2)] tx [OF _ job_ext(3)]
  show "kv (snd (Expiry_step e c d s)) = kv (snd s)"
    by (auto simp: Expiry_step_def endExpired_def Let_def up_ClearDelegatePointer_def split: prod.split option.split sum.split dest!: tx')
  show "kv (snd (AutoEnd_step e c d s)) = kv (snd s)"
    by (auto simp: AutoEnd_step_def endReviewExpired_def Let_def up_ClearDelegatePointer_def split: prod.split option.split sum.split dest!: tx')
  show "kv (snd (Activation_step e c d s)) = kv (snd s)"
    by (auto simp: Activation_step_def activateScheduled_def Let_def up_SetAvailability_def split: prod.split option.split sum.split dest!: tx')
  show "kv (snd (Warn_step e c now d s)) = kv (snd s)"
    by (auto simp: Warn_step_def Let_def split: prod.split sum.split dest!: tx')
qed

lemma fold_steps_kv:
  assumes "\<And>d s. kv (snd (f d s)) = kv (snd s)" "fold f ds (r, w) = (r', w')"
  shows "kv w' = kv w"
proof -
  have "kv (snd (fold f ds s)) = kv (snd s)" for s
    by (induction ds arbitrary: s) (simp_all add: assms(1))
  with assms(2) show ?thesis by (metis snd_conv)
qed

lemmas folds_kv = fold_steps_kv [OF job_steps_kv(1)] fold_steps_kv [OF job_steps_kv(2)]
  fold_steps_kv [OF job_steps_kv(3)] fold_steps_kv [OF job_steps_kv(4)]

lemma jobs_kv:
  "kv (snd (Expiry e jc c w)) = kv w" "kv (snd (Activation e jc c w)) = kv w"
  "kv (snd (ReviewSweep e jc c w)) = kv w" "kv (snd (Cleanup e jc c w)) = kv w"
proof -
  show "kv (snd (Expiry e jc c w)) = kv w" unfolding Expiry_def DelegationRepository_ListExpiringBefore_def
    by (intro same_kv.frame_bind) (auto simp: ext_kv split: prod.split dest: folds_kv)
  show "kv (snd (Activation e jc c w)) = kv w" unfolding Activation_def DelegationRepository_ListScheduledBefore_def
    by (intro same_kv.frame_bind) (auto simp: ext_kv split: prod.split dest: folds_kv)
  have e: "kv (snd (bind_res (DelegationRepository_FindDueForAutoEnd e SysPool c now n w1) (\<lambda>endTargets w.
              (case fold (AutoEnd_step e c) endTargets (res, w) of (res, w) \<Rightarrow> (Inr res, w))))) = kv w1" for w1 now n res
    unfolding DelegationRepository_FindDueForAutoEnd_def
    by (intro same_kv.frame_bind) (auto simp: ext_kv split: prod.split dest: folds_kv)
  show "kv (snd (ReviewSweep e jc c w)) = kv w" unfolding ReviewSweep_def Let_def DelegationRepository_FindDueForDailyWarn_def
    by (intro same_kv.frame_bind) (auto simp: ext_kv e split: prod.split dest: folds_kv)
  have "kv (snd (DelegationRepository_HardPurgeSoftDeletedBefore e SysPool c b n w)) = kv w" for b n w
    unfolding DelegationRepository_HardPurgeSoftDeletedBefore_def
    by (intro same_kv.frame_withPool same_kv.frame_stmt) (simp add: Let_def)
  then show "kv (snd (Cleanup e jc c w)) = kv w"
    unfolding Cleanup_def by (intro same_kv.frame_bind) (simp_all add: ext_kv)
qed

section \<open>Requests\<close>

lemma answering_kept: "idem_kept X w (snd p) \<Longrightarrow> idem_kept X w (snd (answering g rq p))"
  by simp

lemma owned_kept: "idem_kept X w (snd (ownedTarget e g rq c w))"
proof -
  have "idem_kept X w1 (snd (requireSelfOrAdmin e g rq c T did w1))" for T did w1
    unfolding requireSelfOrAdmin_def
    by (intro kept.frame_bind) (auto simp: kept_ext kept.frame_refl intro!: kept.frame_bind answering_kept split: option.split sum.split)
  then show ?thesis unfolding ownedTarget_def by (intro kept.frame_bind) (simp_all add: kept.frame_refl)
qed


text \<open>The entries of the idempotency store a request may write: that of its own key, on \<open>POST /delegations\<close>.\<close>

definition requestKeys :: "env \<Rightarrow> ctx \<Rightarrow> Route \<Rightarrow> Request \<Rightarrow> (uuid \<times> string) set" where
  "requestKeys e c route rq =
     {(T, key). route = R_Create \<and> key = valueOf ''Idempotency-Key'' (rq_Headers rq)
        \<and> (\<exists>rc. c_rc c = Some rc \<and> uuid_Parse e (rc_TenantID rc) = Some T)}"

lemma route_kept: "idem_kept (requestKeys e c route rq) w (snd (routeHandler e g route rq c w))"
proof (cases route)
  case R_Create
  let ?K = "requestKeys e c R_Create rq" and ?key = "valueOf ''Idempotency-Key'' (rq_Headers rq)"
  have "idem_kept ?K w1 (snd (DelegationService_Create e c T u ?key req w1))"
    if "c_rc c = Some rc" "uuid_Parse e (rc_TenantID rc) = Some T" for rc T u req w1
    by (rule kept_mono [OF Create_kept]) (use that in \<open>auto simp: requestKeys_def ownKey_def\<close>)
  then have "idem_kept ?K w1 (snd (DelegationHandler_Create e g rq c w1))" for w1
    unfolding DelegationHandler_Create_def handler_parts
    by (auto simp: kept.frame_refl requiring_ok intro!: kept.frame_bind answering_kept)
  then show ?thesis unfolding R_Create routeHandler.simps by (intro kept.frame_bind) (simp add: requireIdempotencyKey_def Let_def kept.frame_refl)
next
  case R_Cancel
  then show ?thesis
    by (auto simp: DelegationHandler_Cancel_def DelegationService_Cancel_def kept.frame_refl
        intro!: kept.frame_bind owned_kept answering_kept cancel_kept)
next
  case R_Extend
  then show ?thesis
    by (auto simp: DelegationHandler_Extend_def kept.frame_refl intro!: kept.frame_bind owned_kept answering_kept Extend_kept)
next
  case R_Reassign
  then show ?thesis
    by (auto simp: DelegationHandler_Reassign_def kept.frame_refl intro!: kept.frame_bind owned_kept answering_kept Reassign_kept)
next
  case R_List
  then show ?thesis
    by (auto simp: DelegationHandler_List_def kept.frame_refl intro!: kept.frame_bind answering_kept List_kept)
next
  case R_SettingsGet
  then show ?thesis
    by (auto simp: SettingsHandler_Get_def SettingsService_Get_def kept.frame_refl kept_ext intro!: kept.frame_bind answering_kept)
next
  case R_SettingsSet
  have "idem_kept X w1 (snd (SettingsService_Set e c T m n w1))" for X T m n w1
    by (simp add: SettingsService_Set_def kept_ext kept.frame_refl)
  with R_SettingsSet show ?thesis
    by (auto simp: SettingsHandler_Set_def RequireAnyRole_def kept.frame_refl intro!: kept.frame_bind answering_kept)
next
  case R_Expire
  then show ?thesis
    by (auto simp: InternalHandler_Expire_def reconcilerRunner_RunExpiry_def jobs_kv kept_same_kv kept.frame_refl
        intro!: kept.frame_bind answering_kept)
next
  case R_ReviewSweep
  then show ?thesis
    by (auto simp: InternalHandler_ReviewSweep_def reconcilerRunner_RunReviewSweep_def jobs_kv kept_same_kv kept.frame_refl
        intro!: kept.frame_bind answering_kept)
next
  case R_DeptDelegate
  have "same_ext w1 (snd (gucBoundReader_FindActiveDeptDelegateForUser e c T u d w1))" for T u d w1
    unfolding gucBoundReader_FindActiveDeptDelegateForUser_def DelegationRepository_FindActiveDeptDelegateForUser_def
    by (intro ext_select) (simp split: list.split)
  with R_DeptDelegate show ?thesis
    by (auto simp: InternalHandler_DeptDelegate_def queryUUID_def kept_ext kept.frame_refl intro!: kept.frame_bind answering_kept)
next
  case R_ActiveDelegations
  have "same_ext w1 (snd (gucBoundReader_FindActiveByDelegator e c T u w1))" for T u w1
    unfolding gucBoundReader_FindActiveByDelegator_def DelegationRepository_FindActiveByDelegator_def by simp
  with R_ActiveDelegations show ?thesis
    by (auto simp: InternalHandler_ActiveDelegations_def queryUUID_def kept_ext kept.frame_refl intro!: kept.frame_bind answering_kept)
qed


section \<open>A reservation among others\<close>

text \<open>The request that was let through holds the entry; it is live at every time the service reads the clock.\<close>

definition reserved :: "env \<Rightarrow> uuid \<Rightarrow> string \<Rightarrow> time \<Rightarrow> world \<Rightarrow> bool" where
  "reserved e T key exp w \<longleftrightarrow>
     kv w (KeyIdem T key) = Some (KVIdem pendingRecord, exp) \<and> (\<forall>n. clock e n < exp)"

interpretation resv: frame "\<lambda>w w'. reserved e T key exp w \<longrightarrow> reserved e T key exp w'" for e T key exp
  by unfold_locales auto

lemma kept_reserved: "idem_kept X w w' \<Longrightarrow> (T, key) \<notin> X \<Longrightarrow> reserved e T key exp w \<longrightarrow> reserved e T key exp w'"
  by (simp add: idem_kept_def reserved_def)

text \<open>A second request with the key is told so before it does anything.\<close>

lemma Create_refused:
  assumes "kv_fault e = (\<lambda>_. None)" "hasIdempotency e" "key \<noteq> ''''" "reserved e T key exp w"
  shows "DelegationService_Create e c T u key req w = (Inl inFlight, bump w)"
proof -
  have "idem_holds (clock e (tick w)) (kv w) T key = Some pendingRecord"
    using assms(4) by (simp add: reserved_def idem_holds_def kv_lookup_def)
  then have "Create_gate e c T key w = (GateReturn (Inl inFlight), bump w)"
    using assms(2,3) idem_Get_no_faults [OF assms(1)] by (simp add: Create_gate_def pendingRecord_def)
  then show ?thesis by (simp add: DelegationService_Create_def)
qed

lemma Create_reserved:
  assumes "kv_fault e = (\<lambda>_. None)" "hasIdempotency e" "key \<noteq> ''''"
  shows "reserved e T key exp w \<longrightarrow> reserved e T key exp (snd (DelegationService_Create e c T' u key' req w))"
proof (cases "(T', key') = (T, key)")
  case True
  then show ?thesis using Create_refused [OF assms] by (auto simp: reserved_def)
next
  case False
  then have "(T, key) \<notin> ownKey T' key'" by (auto simp: ownKey_def)
  with Create_kept show ?thesis by (rule kept_reserved)
qed

lemma route_reserved:
  assumes "kv_fault e = (\<lambda>_. None)" "hasIdempotency e" "key \<noteq> ''''"
  shows "reserved e T key exp w \<longrightarrow> reserved e T key exp (snd (routeHandler e g route rq c w))"
proof (cases "route = R_Create")
  case True
  have "reserved e T key exp w \<longrightarrow> reserved e T key exp (snd (answering g rq (DelegationService_Create e c T' u key' req w)))" for T' u key' req w
    using Create_reserved [OF assms] by simp
  then have "reserved e T key exp w \<longrightarrow> reserved e T key exp (snd (DelegationHandler_Create e g rq c w))" for w
    unfolding DelegationHandler_Create_def handler_parts by (intro resv.frame_bind) auto
  then have "reserved e T key exp w \<longrightarrow> reserved e T key exp (snd (routeHandler e g R_Create rq c w))"
    unfolding routeHandler.simps by (intro resv.frame_bind) (simp_all add: requireIdempotencyKey_def Let_def)
  with True show ?thesis by simp
next
  case False
  show ?thesis by (rule kept_reserved [OF route_kept]) (simp add: requestKeys_def False)
qed

lemma sys_step_reserved:
  assumes "kv_fault (dp_env D) = (\<lambda>_. None)" "hasIdempotency (dp_env D)" "key \<noteq> ''''"
    and "sys_step D a w w'" "reserved (dp_env D) T key exp w"
  shows "reserved (dp_env D) T key exp w'"
  using assms(4,5)
proof (induction rule: sys_step.induct)
  case (request route rq w r w')
  have "reserved (dp_env D) T key exp (snd (NewRouter (dp_env D) (dp_gin D) route rq w))"
    using route_reserved [OF assms(1-3)] request(2) by (auto simp: NewRouter_def split: sum.split)
  with request(1) show ?case by simp
next
  case (delivery evp w res w')
  then show ?case using Handle_kv [of "dp_env D" "Some (consumedValidator (dp_formats D))" requestContext evp w] by (simp add: reserved_def)
next
  case (expiry w out w')
  then show ?case using jobs_kv(1) [of "dp_env D" "dp_jobs D" requestContext w] by (simp add: reserved_def)
next
  case (activation w out w')
  then show ?case using jobs_kv(2) [of "dp_env D" "dp_jobs D" requestContext w] by (simp add: reserved_def)
next
  case (review w out w')
  then show ?case using jobs_kv(3) [of "dp_env D" "dp_jobs D" requestContext w] by (simp add: reserved_def)
next
  case (cleanup w out w')
  then show ?case using jobs_kv(4) [of "dp_env D" "dp_jobs D" requestContext w] by (simp add: reserved_def)
qed

lemma sys_run_reserved:
  assumes "kv_fault (dp_env D) = (\<lambda>_. None)" "hasIdempotency (dp_env D)" "key \<noteq> ''''"
  shows "sys_run D as w w' \<Longrightarrow> reserved (dp_env D) T key exp w \<Longrightarrow> reserved (dp_env D) T key exp w'"
  by (induction rule: sys_run.induct) (auto dest: sys_step_reserved [OF assms])

lemma gate_reserves:
  assumes "Create_gate e c T key w = (GateProceed True, w')"
  obtains n where "kv w' (KeyIdem T key) = Some (KVIdem pendingRecord, clock e n + idempotencyTTL)"
proof -
  from assms obtain w1 where "IdempotencyStore_Reserve e T key w1 = (Inr True, w')"
    by (auto simp: Create_gate_def Create_reserve_def split: if_splits prod.splits sum.splits option.splits bool.splits)
  then show ?thesis
    by (intro that [of "tick w1"]) (auto simp: IdempotencyStore_Reserve_def redis_SetNX_def split: if_splits dest!: kv_cmd_ok)
qed

end
