(* ===== verification/Metrics.thy ===== *)
theory Metrics
  imports Consumer EventSchema Clients
begin

text \<open>
  The Prometheus instruments (\<^verbatim>\<open>src/internal/adapter/outbound/metrics/metrics.go\<close>), what the outbound
  clients record of a call, and the exporter of the active gauge
  (\<^verbatim>\<open>src/cmd/server/exporters.go\<close>). An instrument is named by its field of \<open>Metrics\<close>; its state
  is the value of each series, by label values. The registerer is a parameter. A vector asked
  for a series with the wrong number of label values panics (\<open>None\<close>); label values are UTF-8, which the library also requires. Observed durations are
  kept as durations, buckets are not modelled.
\<close>

section \<open>Instruments\<close>

datatype Instrument =
  platformMessagesReceivedTotal | platformMessagesProcessedTotal | platformMessagesFailedTotal
| platformDuplicateMessagesTotal | platformDependencyRequestSeconds | platformDependencyErrorsTotal
| createdTotal | endedTotal | activeGauge | expiryDeferredTotal | activationDeferredTotal | reviewDeferredTotal
| reviewWarnedTotal | reviewExpiredTotal | membershipCheckDuration | membershipCheckFailuresTotal
| upAvailabilityFailuresTotal | idempotencyHitsTotal | dependencyCallDurationSeconds | dependencyCallFailuresTotal
| cascadeProcessedTotal | cascadeDLQTotal | processedEventsDuplicatesTotal | unknownEventAcknowledgedTotal

datatype MetricKind = CounterKind | GaugeKind | HistogramKind

record Opts =
  op_Name :: string
  op_Kind :: MetricKind
  op_Labels :: "string list"

definition opts :: "string \<Rightarrow> MetricKind \<Rightarrow> string list \<Rightarrow> Opts" where
  "opts name kind labels = \<lparr>op_Name = name, op_Kind = kind, op_Labels = labels\<rparr>"

fun instrumentOpts :: "Instrument \<Rightarrow> Opts" where
  "instrumentOpts platformMessagesReceivedTotal = opts ''platform_messages_received_total'' CounterKind [''queue'']"
| "instrumentOpts platformMessagesProcessedTotal = opts ''platform_messages_processed_total'' CounterKind [''queue'']"
| "instrumentOpts platformMessagesFailedTotal = opts ''platform_messages_failed_total'' CounterKind [''queue'']"
| "instrumentOpts platformDuplicateMessagesTotal = opts ''platform_duplicate_messages_total'' CounterKind [''queue'']"
| "instrumentOpts platformDependencyRequestSeconds = opts ''platform_dependency_request_seconds'' HistogramKind [''target_service'', ''endpoint'']"
| "instrumentOpts platformDependencyErrorsTotal = opts ''platform_dependency_errors_total'' CounterKind [''target_service'', ''endpoint'', ''outcome'']"
| "instrumentOpts createdTotal = opts ''iam_delegation_created_total'' CounterKind [''scope'']"
| "instrumentOpts endedTotal = opts ''iam_delegation_ended_total'' CounterKind [''ended_reason'']"
| "instrumentOpts activeGauge = opts ''iam_delegation_active_gauge'' GaugeKind [''tenant'']"
| "instrumentOpts expiryDeferredTotal = opts ''iam_delegation_expiry_deferred_total'' CounterKind []"
| "instrumentOpts activationDeferredTotal = opts ''iam_delegation_activation_deferred_total'' CounterKind []"
| "instrumentOpts reviewDeferredTotal = opts ''iam_delegation_review_deferred_total'' CounterKind []"
| "instrumentOpts reviewWarnedTotal = opts ''iam_delegation_review_warned_total'' CounterKind [''days_remaining'']"
| "instrumentOpts reviewExpiredTotal = opts ''iam_delegation_review_expired_total'' CounterKind []"
| "instrumentOpts membershipCheckDuration = opts ''iam_delegation_membership_check_duration_seconds'' HistogramKind []"
| "instrumentOpts membershipCheckFailuresTotal = opts ''iam_delegation_membership_check_failures_total'' CounterKind []"
| "instrumentOpts upAvailabilityFailuresTotal = opts ''iam_delegation_up_availability_failures_total'' CounterKind [''path'']"
| "instrumentOpts idempotencyHitsTotal = opts ''iam_delegation_idempotency_hits_total'' CounterKind []"
| "instrumentOpts dependencyCallDurationSeconds = opts ''iam_delegation_dependency_call_duration_seconds'' HistogramKind [''target_service'', ''endpoint'']"
| "instrumentOpts dependencyCallFailuresTotal = opts ''iam_delegation_dependency_call_failures_total'' CounterKind [''target_service'', ''endpoint'', ''outcome'']"
| "instrumentOpts cascadeProcessedTotal = opts ''iam_delegation_cascade_processed_total'' CounterKind []"
| "instrumentOpts cascadeDLQTotal = opts ''iam_delegation_cascade_dlq_total'' CounterKind []"
| "instrumentOpts processedEventsDuplicatesTotal = opts ''iam_delegation_processed_events_duplicates_total'' CounterKind [''consumer'']"
| "instrumentOpts unknownEventAcknowledgedTotal = opts ''iam_delegation_unknown_event_acknowledged_total'' CounterKind [''consumer'', ''event_type'']"

section \<open>Series\<close>

datatype Sample = Count nat | Level int | Observed "duration list"

fun zeroSample :: "MetricKind \<Rightarrow> Sample" where
  "zeroSample CounterKind = Count 0"
| "zeroSample GaugeKind = Level 0"
| "zeroSample HistogramKind = Observed []"

type_synonym Metrics = "Instrument \<Rightarrow> string list \<Rightarrow> Sample option"

definition zeroOf :: "Instrument \<Rightarrow> Sample" where "zeroOf i = zeroSample (op_Kind (instrumentOpts i))"

text \<open>An instrument without labels has its one series from the start, a vector none.\<close>

definition newMetrics :: Metrics where
  "newMetrics i vs = (if op_Labels (instrumentOpts i) = [] \<and> vs = [] then Some (zeroOf i) else None)"

definition put :: "Instrument \<Rightarrow> string list \<Rightarrow> Sample \<Rightarrow> Metrics \<Rightarrow> Metrics" where
  "put i vs x m = m(i := (m i)(vs := Some x))"

definition WithLabelValues :: "Instrument \<Rightarrow> string list \<Rightarrow> Metrics \<Rightarrow> (Sample \<times> Metrics) option" where
  "WithLabelValues i vs m =
     (if length vs \<noteq> length (op_Labels (instrumentOpts i)) then None
      else case m i vs of Some x \<Rightarrow> Some (x, m) | None \<Rightarrow> Some (zeroOf i, put i vs (zeroOf i) m))"

fun incSample :: "Sample \<Rightarrow> Sample" where
  "incSample (Count n) = Count (Suc n)"
| "incSample (Level n) = Level (n + 1)"
| "incSample (Observed xs) = Observed xs"

fun observeSample :: "duration \<Rightarrow> Sample \<Rightarrow> Sample" where
  "observeSample t (Observed xs) = Observed (xs @ [t])"
| "observeSample t (Count n) = Count n"
| "observeSample t (Level n) = Level n"

definition modify :: "(Sample \<Rightarrow> Sample) \<Rightarrow> Instrument \<Rightarrow> string list \<Rightarrow> Metrics \<Rightarrow> Metrics option" where
  "modify f i vs m = (case WithLabelValues i vs m of None \<Rightarrow> None | Some (x, m) \<Rightarrow> Some (put i vs (f x) m))"

definition Inc :: "Instrument \<Rightarrow> string list \<Rightarrow> Metrics \<Rightarrow> Metrics option" where
  "Inc = modify incSample"

definition Observe :: "Instrument \<Rightarrow> string list \<Rightarrow> duration \<Rightarrow> Metrics \<Rightarrow> Metrics option" where
  "Observe i vs t = modify (observeSample t) i vs"

definition SetGauge :: "Instrument \<Rightarrow> string list \<Rightarrow> int \<Rightarrow> Metrics \<Rightarrow> Metrics option" where
  "SetGauge i vs n = modify (\<lambda>_. Level n) i vs"

definition Reset :: "Instrument \<Rightarrow> Metrics \<Rightarrow> Metrics" where
  "Reset i m = m(i := (\<lambda>_. None))"

text \<open>One call after the other; a panic ends the sequence.\<close>

definition also_do :: "(Metrics \<Rightarrow> Metrics option) \<Rightarrow> (Metrics \<Rightarrow> Metrics option) \<Rightarrow> Metrics \<Rightarrow> Metrics option" where
  "also_do f g m = (case f m of None \<Rightarrow> None | Some m \<Rightarrow> g m)"

fun all_do :: "(Metrics \<Rightarrow> Metrics option) list \<Rightarrow> Metrics \<Rightarrow> Metrics option" where
  "all_do [] m = Some m"
| "all_do (f # fs) m = also_do f (all_do fs) m"

section \<open>Recorders\<close>

definition platformCascadeQueue :: string where "platformCascadeQueue = ''delegation-cascade-q''"

definition RecordMessageReceived :: "string \<Rightarrow> Metrics \<Rightarrow> Metrics option" where
  "RecordMessageReceived queue = Inc platformMessagesReceivedTotal [queue]"

definition RecordCreated :: "string \<Rightarrow> Metrics \<Rightarrow> Metrics option" where
  "RecordCreated scope = Inc createdTotal [scope]"

definition RecordEnded :: "string \<Rightarrow> Metrics \<Rightarrow> Metrics option" where
  "RecordEnded reason = Inc endedTotal [reason]"

definition ReplaceActiveGauges :: "(string \<times> int) list \<Rightarrow> Metrics \<Rightarrow> Metrics option" where
  "ReplaceActiveGauges counts m = all_do (map (\<lambda>(tenant, n). SetGauge activeGauge [tenant] n) counts) (Reset activeGauge m)"

definition RecordExpiryDeferred :: "Metrics \<Rightarrow> Metrics option" where
  "RecordExpiryDeferred = Inc expiryDeferredTotal []"

definition RecordActivationDeferred :: "Metrics \<Rightarrow> Metrics option" where
  "RecordActivationDeferred = Inc activationDeferredTotal []"

definition RecordReviewDeferred :: "Metrics \<Rightarrow> Metrics option" where
  "RecordReviewDeferred = Inc reviewDeferredTotal []"

definition RecordReviewWarned :: "string \<Rightarrow> Metrics \<Rightarrow> Metrics option" where
  "RecordReviewWarned daysRemaining = Inc reviewWarnedTotal [daysRemaining]"

definition RecordReviewExpired :: "Metrics \<Rightarrow> Metrics option" where
  "RecordReviewExpired = Inc reviewExpiredTotal []"

definition ObserveMembershipCheckDuration :: "duration \<Rightarrow> Metrics \<Rightarrow> Metrics option" where
  "ObserveMembershipCheckDuration seconds = Observe membershipCheckDuration [] seconds"

definition RecordMembershipCheckFailure :: "Metrics \<Rightarrow> Metrics option" where
  "RecordMembershipCheckFailure = Inc membershipCheckFailuresTotal []"

definition RecordUPAvailabilityFailure :: "string \<Rightarrow> Metrics \<Rightarrow> Metrics option" where
  "RecordUPAvailabilityFailure path = Inc upAvailabilityFailuresTotal [path]"

definition RecordIdempotencyHit :: "Metrics \<Rightarrow> Metrics option" where
  "RecordIdempotencyHit = Inc idempotencyHitsTotal []"

definition RecordCascadeProcessed :: "Metrics \<Rightarrow> Metrics option" where
  "RecordCascadeProcessed =
     also_do (Inc platformMessagesProcessedTotal [platformCascadeQueue]) (Inc cascadeProcessedTotal [])"

definition RecordCascadeDLQ :: "Metrics \<Rightarrow> Metrics option" where
  "RecordCascadeDLQ =
     also_do (Inc platformMessagesFailedTotal [platformCascadeQueue]) (Inc cascadeDLQTotal [])"

definition RecordProcessedEventsDuplicate :: "string \<Rightarrow> Metrics \<Rightarrow> Metrics option" where
  "RecordProcessedEventsDuplicate consumer =
     also_do (Inc platformDuplicateMessagesTotal [platformCascadeQueue]) (Inc processedEventsDuplicatesTotal [consumer])"

definition RecordUnknownEventAcknowledged :: "string \<Rightarrow> string \<Rightarrow> Metrics \<Rightarrow> Metrics option" where
  "RecordUnknownEventAcknowledged consumer evType = Inc unknownEventAcknowledgedTotal [consumer, evType]"

definition ObserveDependencyLatency :: "string \<Rightarrow> string \<Rightarrow> duration \<Rightarrow> Metrics \<Rightarrow> Metrics option" where
  "ObserveDependencyLatency targetService endpoint seconds =
     also_do (Observe platformDependencyRequestSeconds [targetService, endpoint] seconds)
             (Observe dependencyCallDurationSeconds [targetService, endpoint] seconds)"

definition IncDependencyError :: "string \<Rightarrow> string \<Rightarrow> string \<Rightarrow> Metrics \<Rightarrow> Metrics option" where
  "IncDependencyError targetService endpoint outcome =
     also_do (Inc platformDependencyErrorsTotal [targetService, endpoint, outcome])
             (Inc dependencyCallFailuresTotal [targetService, endpoint, outcome])"


text \<open>\<open>errors.As(err, &netErr) && netErr.Timeout()\<close> and \<open>errors.Is(err, context.DeadlineExceeded)\<close>.\<close>

definition DependencyOutcome :: "bool \<Rightarrow> bool \<Rightarrow> string" where
  "DependencyOutcome netTimeout deadlineExceeded =
     (if netTimeout then ''timeout'' else if deadlineExceeded then ''timeout'' else ''5xx'')"

text \<open>The package-level wrappers: nothing happens before \<open>Register\<close> has set \<open>Live\<close>.\<close>

definition whenLive :: "(Metrics \<Rightarrow> Metrics option) \<Rightarrow> Metrics option \<Rightarrow> Metrics option option" where
  "whenLive f live = (case live of None \<Rightarrow> Some None | Some m \<Rightarrow> map_option Some (f m))"

text \<open>What a call of a client leaves in the metrics; \<open>err\<close> is the outcome of its error, if any.\<close>

definition observeCall :: "string \<Rightarrow> string \<Rightarrow> duration \<Rightarrow> string option \<Rightarrow> Metrics \<Rightarrow> Metrics option" where
  "observeCall svc ep elapsed err =
     also_do (ObserveDependencyLatency svc ep elapsed)
       (case err of None \<Rightarrow> Some | Some outcome \<Rightarrow> IncDependencyError svc ep outcome)"

definition observeExists :: "duration \<Rightarrow> string option \<Rightarrow> Metrics \<Rightarrow> Metrics option" where
  "observeExists elapsed err =
     also_do (ObserveMembershipCheckDuration elapsed)
       (also_do (ObserveDependencyLatency ''org_membership'' ''i15_member_exists'' elapsed)
         (case err of
            None \<Rightarrow> Some
          | Some outcome \<Rightarrow> also_do RecordMembershipCheckFailure
                             (IncDependencyError ''org_membership'' ''i15_member_exists'' outcome)))"

section \<open>Metered calls of the clients\<close>

text \<open>
  The exported methods of the clients: the call, and what it leaves in the metrics. \<open>timing\<close>
  answers what \<open>errors.As\<close> and \<open>errors.Is\<close> say of an error (a network timeout, an exceeded
  deadline). The service's own deferrals and failures do not pass through here.
\<close>

definition outcomeOf :: "(error \<Rightarrow> bool \<times> bool) \<Rightarrow> error + 'a \<Rightarrow> string option" where
  "outcomeOf timing r = (case r of Inl err \<Rightarrow> Some (DependencyOutcome (fst (timing err)) (snd (timing err))) | Inr _ \<Rightarrow> None)"

definition metered :: "string \<Rightarrow> string \<Rightarrow> (error \<Rightarrow> bool \<times> bool) \<Rightarrow> duration \<Rightarrow> error + 'a \<Rightarrow> Metrics option \<Rightarrow> (error + 'a) \<times> Metrics option option" where
  "metered svc ep timing elapsed r live = (r, whenLive (observeCall svc ep elapsed (outcomeOf timing r)) live)"

definition userprofile_GetAvailability where
  "userprofile_GetAvailability e net c n tenantID userID timing elapsed live =
     metered ''user_profile'' ''get_availability'' timing elapsed (userprofile_getAvailability e net c n tenantID userID) live"

definition userprofile_ClearDelegatePointer where
  "userprofile_ClearDelegatePointer e net c n tenantID userID timing elapsed live =
     metered ''user_profile'' ''clear_delegate_pointer'' timing elapsed (userprofile_clearDelegatePointer e net c n tenantID userID) live"

definition userprofile_SetAvailability where
  "userprofile_SetAvailability e net c n req timing elapsed live =
     metered ''user_profile'' ''set_availability'' timing elapsed (userprofile_setAvailability e net c n req) live"

definition catalogadmin_DepartmentActive where
  "catalogadmin_DepartmentActive e net c n departmentID timing elapsed live =
     metered ''catalog_admin'' ''cat7_dept_active'' timing elapsed (catalogadmin_departmentActive e net c n departmentID) live"

definition orgmembership_Exists where
  "orgmembership_Exists e net c n tenantID userID timing elapsed live =
     (let r = orgmembership_exists e net c n tenantID userID
      in (r, whenLive (observeExists elapsed (outcomeOf timing r)) live))"

section \<open>Registration\<close>

type_synonym labels = "(string \<times> string) list"

record Family =
  fa_Opts :: Opts
  fa_Const :: labels

text \<open>\<open>gin\<close> is what gincommon answers; a map without entries becomes nil.\<close>

definition gincommonLabels :: "labels \<Rightarrow> labels option" where
  "gincommonLabels gin = (if length gin = 0 then None else Some gin)"

definition extendedServiceLabels :: "string \<Rightarrow> labels \<Rightarrow> labels" where
  "extendedServiceLabels env gin =
     (let base = (case gincommonLabels gin of None \<Rightarrow> [] | Some l \<Rightarrow> l)
      in if env \<noteq> '''' then (''environment'', env) # filter (\<lambda>(k, _). k \<noteq> ''environment'') base else base)"

definition platformLabels :: "string \<Rightarrow> labels" where
  "platformLabels env = [(''domain'', ''iam''), (''service'', ''iam-delegation''), (''environment'', env)]"

definition platformCollectors :: "Instrument list" where
  "platformCollectors =
     [platformMessagesReceivedTotal, platformMessagesProcessedTotal, platformMessagesFailedTotal,
      platformDuplicateMessagesTotal, platformDependencyRequestSeconds, platformDependencyErrorsTotal]"

definition svcCollectors :: "Instrument list" where
  "svcCollectors =
     [createdTotal, endedTotal, activeGauge, expiryDeferredTotal, activationDeferredTotal, reviewDeferredTotal,
      reviewWarnedTotal, reviewExpiredTotal, membershipCheckDuration, membershipCheckFailuresTotal,
      upAvailabilityFailuresTotal, idempotencyHitsTotal, dependencyCallDurationSeconds, dependencyCallFailuresTotal,
      cascadeProcessedTotal, cascadeDLQTotal, processedEventsDuplicatesTotal, unknownEventAcknowledgedTotal]"

definition families :: "string \<Rightarrow> labels \<Rightarrow> Family list" where
  "families env gin =
     map (\<lambda>i. \<lparr>fa_Opts = instrumentOpts i, fa_Const = platformLabels env\<rparr>) platformCollectors
     @ map (\<lambda>i. \<lparr>fa_Opts = instrumentOpts i, fa_Const = extendedServiceLabels env gin\<rparr>) svcCollectors"

fun knownEndpoints :: "string \<Rightarrow> string list" where
  "knownEndpoints targetService =
     (if targetService = ''org_membership'' then [''i15_member_exists'']
      else if targetService = ''user_profile'' then [''get_availability'', ''set_availability'', ''clear_delegate_pointer'']
      else if targetService = ''catalog_admin'' then [''cat7_dept_active'']
      else [])"

definition touch :: "Instrument \<Rightarrow> string list \<Rightarrow> Metrics \<Rightarrow> Metrics option" where
  "touch i vs m = map_option snd (WithLabelValues i vs m)"

text \<open>The series that exist, at zero, before anything is recorded.\<close>

definition preinitialized :: "(Instrument \<times> string list) list" where
  "preinitialized =
     map (\<lambda>i. (i, [platformCascadeQueue]))
       [platformMessagesReceivedTotal, platformMessagesProcessedTotal, platformMessagesFailedTotal, platformDuplicateMessagesTotal]
     @ map (\<lambda>scope. (createdTotal, [scope])) [''all'', ''department'', ''tender'']
     @ map (\<lambda>reason. (endedTotal, [reason]))
         [''expired'', ''cancelled'', ''reassigned'', ''delegate_removed'', ''review_expired'', ''delegate_disabled'']
     @ map (\<lambda>days. (reviewWarnedTotal, [days])) [''3'', ''2'', ''1'']
     @ map (\<lambda>consumer. (processedEventsDuplicatesTotal, [consumer])) [''cascade'', ''offboarding'', ''delegate_disable'']
     @ concat (map (\<lambda>svc. concat (map (\<lambda>ep.
           (platformDependencyRequestSeconds, [svc, ep]) # (dependencyCallDurationSeconds, [svc, ep])
           # concat (map (\<lambda>outcome. [(platformDependencyErrorsTotal, [svc, ep, outcome]), (dependencyCallFailuresTotal, [svc, ep, outcome])])
                [''timeout'', ''5xx''])) (knownEndpoints svc)))
         [''org_membership'', ''user_profile'', ''catalog_admin''])"

fun registerAll :: "(Family \<Rightarrow> 'r \<Rightarrow> RawError option \<times> 'r) \<Rightarrow> Family list \<Rightarrow> 'r \<Rightarrow> RawError option \<times> 'r" where
  "registerAll register [] reg = (None, reg)"
| "registerAll register (f # fs) reg =
     (case register f reg of (Some err, reg) \<Rightarrow> (Some err, reg) | (None, reg) \<Rightarrow> registerAll register fs reg)"

datatype Registration = RegisterFailed RawError | RegisterPanicked | Registered Metrics

definition registerOn :: "(Family \<Rightarrow> 'r \<Rightarrow> RawError option \<times> 'r) \<Rightarrow> string \<Rightarrow> labels \<Rightarrow> 'r \<Rightarrow> Registration \<times> 'r" where
  "registerOn register env gin reg =
     (case registerAll register (families env gin) reg of
        (Some err, reg) \<Rightarrow> (RegisterFailed err, reg)
      | (None, reg) \<Rightarrow>
          (case all_do (map (\<lambda>(i, vs). touch i vs) preinitialized) newMetrics of
             None \<Rightarrow> RegisterPanicked | Some m \<Rightarrow> Registered m, reg))"

text \<open>
  \<open>Register\<close> registers once per process; later calls answer the same, or panic (\<open>None\<close>) with the same error.
  The state is \<open>registerOnce\<close> with what the one registration gave.
\<close>

definition Register :: "(Family \<Rightarrow> 'r \<Rightarrow> RawError option \<times> 'r) \<Rightarrow> string \<Rightarrow> labels \<Rightarrow> Registration option \<times> 'r \<Rightarrow> Metrics option \<times> (Registration option \<times> 'r)" where
  "Register register env gin s =
     (let (once, reg) = (case s of
            (Some r, reg) \<Rightarrow> (r, reg)
          | (None, reg) \<Rightarrow> registerOn register env gin reg)
      in (case once of Registered m \<Rightarrow> Some m | _ \<Rightarrow> None, (Some once, reg)))"

section \<open>The active gauge\<close>

text \<open>\<open>order\<close> is the order in which Go ranges over the map of counts.\<close>

definition emitActiveGauge :: "env \<Rightarrow> ((uuid \<Rightarrow> nat option) \<Rightarrow> uuid list) \<Rightarrow> world \<Rightarrow> Metrics \<Rightarrow> Metrics option \<times> world" where
  "emitActiveGauge e order w m =
     (case GaugeRepository_CountActiveByTenant e w of
        (Inl _, w) \<Rightarrow> (Some m, w)
      | (Inr counts, w) \<Rightarrow>
          (ReplaceActiveGauges (map (\<lambda>T. (uuid_String e T, int (the (counts T)))) (order counts)) m, w))"

text \<open>
  Once at the start, then once per tick until the context is cancelled; the list says what
  happened to the world before each tick.
\<close>

fun runActiveGaugeExporter :: "env \<Rightarrow> ((uuid \<Rightarrow> nat option) \<Rightarrow> uuid list) \<Rightarrow> (world \<Rightarrow> world) list \<Rightarrow> world \<Rightarrow> Metrics \<Rightarrow> Metrics option \<times> world" where
  "runActiveGaugeExporter e order [] w m = emitActiveGauge e order w m"
| "runActiveGaugeExporter e order (between # ticks) w m =
     (case emitActiveGauge e order w m of
        (None, w) \<Rightarrow> (None, w)
      | (Some m, w) \<Rightarrow> runActiveGaugeExporter e order ticks (between w) m)"

section \<open>No recorder panics\<close>

lemma modify_eq:
  assumes "length vs = length (op_Labels (instrumentOpts i))"
  shows "modify f i vs m = Some (put i vs (f (case m i vs of None \<Rightarrow> zeroOf i | Some x \<Rightarrow> x)) m)"
  using assms by (auto simp: modify_def WithLabelValues_def put_def split: option.split)

lemma opts_simps [simp]: "op_Name (opts n k l) = n" "op_Kind (opts n k l) = k" "op_Labels (opts n k l) = l"
  by (simp_all add: opts_def)

lemma also_do_some: "f m = Some m1 \<Longrightarrow> also_do f g m = g m1"
  by (simp add: also_do_def)

text \<open>The samples of an instrument are of its kind.\<close>

fun kindOf :: "Sample \<Rightarrow> MetricKind" where
  "kindOf (Count _) = CounterKind"
| "kindOf (Level _) = GaugeKind"
| "kindOf (Observed _) = HistogramKind"

definition kinded :: "Metrics \<Rightarrow> bool" where
  "kinded m \<longleftrightarrow> (\<forall>i vs x. m i vs = Some x \<longrightarrow> kindOf x = op_Kind (instrumentOpts i))"

definition counted :: "Metrics \<Rightarrow> Instrument \<Rightarrow> string list \<Rightarrow> nat" where
  "counted m i vs = (case m i vs of Some (Count n) \<Rightarrow> n | _ \<Rightarrow> 0)"

lemma kindOf_zero [simp]: "kindOf (zeroOf i) = op_Kind (instrumentOpts i)"
  by (cases "op_Kind (instrumentOpts i)") (simp_all add: zeroOf_def)

lemma kindOf_inc [simp]: "kindOf (incSample x) = kindOf x"
  by (cases x) simp_all

lemma Inc_ok:
  assumes "kinded m" "op_Kind (instrumentOpts i) = CounterKind" "length vs = length (op_Labels (instrumentOpts i))"
  obtains m' where "Inc i vs m = Some m'" "kinded m'"
    "\<And>j us. counted m' j us = counted m j us + (if (j, us) = (i, vs) then 1 else 0)"
proof -
  let ?x = "case m i vs of None \<Rightarrow> zeroOf i | Some x \<Rightarrow> x"
  have k: "kindOf ?x = CounterKind" using assms(1,2) by (auto simp: kinded_def split: option.split)
  then obtain n where n: "?x = Count n" by (cases ?x) auto
  then have "counted m i vs = n" using assms(2) by (auto simp: counted_def zeroOf_def split: option.splits)
  then have "counted (put i vs (incSample ?x) m) j us = counted m j us + (if (j, us) = (i, vs) then 1 else 0)" for j us
    using n by (auto simp: counted_def put_def)
  moreover have "kinded (put i vs (incSample ?x) m)"
    using assms(1,2) k by (auto simp: kinded_def put_def)
  ultimately show ?thesis using that modify_eq [OF assms(3)] by (simp add: Inc_def)
qed

section \<open>The counters count\<close>

text \<open>The methods behind \<open>record_metric\<close>: which recorder the service calls for an entry of the log.\<close>

fun recordMetric :: "Metric \<Rightarrow> Metrics \<Rightarrow> Metrics option" where
  "recordMetric (MCreated scope) = RecordCreated (scopeString scope)"
| "recordMetric (MEnded reason) = RecordEnded (endReasonString reason)"
| "recordMetric MIdempotencyHit = RecordIdempotencyHit"
| "recordMetric (MUPFailure path) = RecordUPAvailabilityFailure path"
| "recordMetric MExpiryDeferred = RecordExpiryDeferred"
| "recordMetric MActivationDeferred = RecordActivationDeferred"
| "recordMetric MReviewDeferred = RecordReviewDeferred"
| "recordMetric (MReviewWarned n) = RecordReviewWarned (FormatInt n)"
| "recordMetric MReviewExpired = RecordReviewExpired"
| "recordMetric (MMessageReceived queue) = RecordMessageReceived queue"
| "recordMetric MCascadeProcessed = RecordCascadeProcessed"
| "recordMetric MCascadeDLQ = RecordCascadeDLQ"
| "recordMetric (MDuplicate consumer) = RecordProcessedEventsDuplicate consumer"
| "recordMetric (MUnknownEvent consumer t) = RecordUnknownEventAcknowledged consumer t"

definition replay :: "Metric list \<Rightarrow> Metrics \<Rightarrow> Metrics option" where
  "replay log = all_do (map recordMetric log)"

text \<open>The series an entry adds one to.\<close>

fun touches :: "Metric \<Rightarrow> (Instrument \<times> string list) list" where
  "touches (MCreated scope) = [(createdTotal, [scopeString scope])]"
| "touches (MEnded reason) = [(endedTotal, [endReasonString reason])]"
| "touches MIdempotencyHit = [(idempotencyHitsTotal, [])]"
| "touches (MUPFailure path) = [(upAvailabilityFailuresTotal, [path])]"
| "touches MExpiryDeferred = [(expiryDeferredTotal, [])]"
| "touches MActivationDeferred = [(activationDeferredTotal, [])]"
| "touches MReviewDeferred = [(reviewDeferredTotal, [])]"
| "touches (MReviewWarned n) = [(reviewWarnedTotal, [FormatInt n])]"
| "touches MReviewExpired = [(reviewExpiredTotal, [])]"
| "touches (MMessageReceived queue) = [(platformMessagesReceivedTotal, [queue])]"
| "touches MCascadeProcessed = [(platformMessagesProcessedTotal, [platformCascadeQueue]), (cascadeProcessedTotal, [])]"
| "touches MCascadeDLQ = [(platformMessagesFailedTotal, [platformCascadeQueue]), (cascadeDLQTotal, [])]"
| "touches (MDuplicate consumer) = [(platformDuplicateMessagesTotal, [platformCascadeQueue]), (processedEventsDuplicatesTotal, [consumer])]"
| "touches (MUnknownEvent consumer t) = [(unknownEventAcknowledgedTotal, [consumer, t])]"

lemma also_do_Some [simp]: "also_do f Some = f"
  by (rule ext) (simp add: also_do_def split: option.split)

lemma all_do_Nil: "all_do [] = Some"
  by (rule ext) simp

lemma all_do_Cons: "all_do (f # fs) = also_do f (all_do fs)"
  by (rule ext) simp

lemma recordMetric_touches: "recordMetric x = all_do (map (\<lambda>(i, vs). Inc i vs) (touches x))"
  by (cases x) (simp_all add: all_do_Nil all_do_Cons RecordCreated_def RecordEnded_def RecordIdempotencyHit_def
      RecordUPAvailabilityFailure_def RecordExpiryDeferred_def RecordActivationDeferred_def RecordReviewDeferred_def
      RecordReviewWarned_def RecordReviewExpired_def RecordMessageReceived_def RecordCascadeProcessed_def
      RecordCascadeDLQ_def RecordProcessedEventsDuplicate_def RecordUnknownEventAcknowledged_def del: all_do.simps)

lemma touches_ok:
  "distinct (touches x)"
  "(i, vs) \<in> set (touches x) \<Longrightarrow> op_Kind (instrumentOpts i) = CounterKind \<and> length vs = length (op_Labels (instrumentOpts i))"
  by (cases x; auto)+

lemma incs_ok:
  assumes "kinded m" "distinct l"
    and "\<forall>(i, vs) \<in> set l. op_Kind (instrumentOpts i) = CounterKind \<and> length vs = length (op_Labels (instrumentOpts i))"
  shows "\<exists>m'. all_do (map (\<lambda>(i, vs). Inc i vs) l) m = Some m' \<and> kinded m'
    \<and> (\<forall>j us. counted m' j us = counted m j us + (if (j, us) \<in> set l then 1 else 0))"
  using assms
proof (induction l arbitrary: m)
  case (Cons p l)
  obtain i vs where p: "p = (i, vs)" by force
  with Cons.prems(3) have ok: "op_Kind (instrumentOpts i) = CounterKind" "length vs = length (op_Labels (instrumentOpts i))" by auto
  obtain m1 where m1: "Inc i vs m = Some m1" "kinded m1"
    "\<And>j us. counted m1 j us = counted m j us + (if (j, us) = (i, vs) then 1 else 0)"
    by (rule Inc_ok [OF Cons.prems(1) ok]) (rule that)
  from Cons.IH [OF m1(2)] Cons.prems obtain m' where "all_do (map (\<lambda>(i, vs). Inc i vs) l) m1 = Some m'" "kinded m'"
    "\<forall>j us. counted m' j us = counted m1 j us + (if (j, us) \<in> set l then 1 else 0)" by auto
  with m1 p Cons.prems(2) show ?case by (auto simp: also_do_def)
qed simp

text \<open>
  No entry of the log panics, and each series has been counted up once per entry that touches it.
\<close>

lemma replay_counts:
  assumes "kinded m"
  shows "\<exists>m'. replay log m = Some m' \<and> kinded m'
    \<and> (\<forall>i vs. counted m' i vs = counted m i vs + length (filter (\<lambda>x. (i, vs) \<in> set (touches x)) log))"
  using assms
proof (induction log arbitrary: m)
  case (Cons x log)
  have "\<forall>(i, vs) \<in> set (touches x). op_Kind (instrumentOpts i) = CounterKind \<and> length vs = length (op_Labels (instrumentOpts i))"
    using touches_ok(2) by auto
  from incs_ok [OF Cons.prems touches_ok(1) this] obtain m1 where m1: "recordMetric x m = Some m1" "kinded m1"
    "\<forall>j us. counted m1 j us = counted m j us + (if (j, us) \<in> set (touches x) then 1 else 0)"
    by (auto simp: recordMetric_touches)
  from Cons.IH [OF m1(2)] m1 show ?case by (auto simp: replay_def also_do_def)
qed (simp add: replay_def)


section \<open>After registration\<close>

lemma touch_all:
  assumes "\<forall>(i, vs) \<in> set l. length vs = length (op_Labels (instrumentOpts i))"
  shows "all_do (map (\<lambda>(i, vs). touch i vs) l) m
    = Some (\<lambda>i vs. if (i, vs) \<in> set l \<and> m i vs = None then Some (zeroOf i) else m i vs)"
  using assms
proof (induction l arbitrary: m)
  case (Cons p l)
  obtain i vs where p: "p = (i, vs)" by force
  with Cons.prems have "touch i vs m = Some (if m i vs = None then put i vs (zeroOf i) m else m)"
    by (auto simp: touch_def WithLabelValues_def split: option.split)
  then have "all_do (map (\<lambda>(i, vs). touch i vs) (p # l)) m
      = all_do (map (\<lambda>(i, vs). touch i vs) l) (if m i vs = None then put i vs (zeroOf i) m else m)"
    by (simp add: p also_do_def)
  also have "\<dots> = Some (\<lambda>j us. if (j, us) \<in> set (p # l) \<and> m j us = None then Some (zeroOf j) else m j us)"
    using Cons.prems by (subst Cons.IH) (auto simp: p put_def fun_eq_iff)
  finally show ?case .
qed simp

lemma preinitialized_arity: "\<forall>(i, vs) \<in> set preinitialized. length vs = length (op_Labels (instrumentOpts i))"
  by (simp add: preinitialized_def)

definition initialMetrics :: Metrics where
  "initialMetrics i vs = (if (i, vs) \<in> set preinitialized \<or> op_Labels (instrumentOpts i) = [] \<and> vs = [] then Some (zeroOf i) else None)"

lemma registerOn_eq:
  "registerOn register env gin reg =
     (case registerAll register (families env gin) reg of
        (Some err, reg) \<Rightarrow> (RegisterFailed err, reg) | (None, reg) \<Rightarrow> (Registered initialMetrics, reg))"
proof -
  have "all_do (map (\<lambda>(i, vs). touch i vs) preinitialized) newMetrics = Some initialMetrics"
    unfolding touch_all [OF preinitialized_arity] by (simp add: newMetrics_def initialMetrics_def fun_eq_iff)
  then show ?thesis by (simp add: registerOn_def split: prod.split option.split)
qed

lemma Register_once:
  "Register register env gin s = (r, s') \<Longrightarrow> Register register env' gin' s' = (r, s')"
  by (auto simp: Register_def Let_def split: prod.splits option.splits)

lemma initialMetrics_zero: "kinded initialMetrics" "counted initialMetrics i vs = 0"
proof -
  show "kinded initialMetrics" by (simp add: kinded_def initialMetrics_def)
  show "counted initialMetrics i vs = 0"
    by (cases "op_Kind (instrumentOpts i)") (simp_all add: counted_def initialMetrics_def zeroOf_def)
qed

text \<open>Prometheus refuses two collectors of one name; the service has none.\<close>

lemma family_names_distinct: "distinct (map (\<lambda>f. op_Name (fa_Opts f)) (families env gin))"
proof -
  have "map (\<lambda>f. op_Name (fa_Opts f)) (families env gin) = map (\<lambda>i. op_Name (instrumentOpts i)) (platformCollectors @ svcCollectors)"
    by (simp add: families_def)
  moreover have "distinct (map (\<lambda>i. op_Name (instrumentOpts i)) (platformCollectors @ svcCollectors))" by code_simp
  ultimately show ?thesis by simp
qed

lemma families_complete: "\<exists>f \<in> set (families env gin). fa_Opts f = instrumentOpts i"
proof -
  have "i \<in> set platformCollectors \<or> i \<in> set svcCollectors"
    by (cases i) (simp_all add: platformCollectors_def svcCollectors_def)
  then show ?thesis
  proof
    assume "i \<in> set platformCollectors"
    then show ?thesis
      by (intro bexI [of _ "\<lparr>fa_Opts = instrumentOpts i, fa_Const = platformLabels env\<rparr>"]) (simp_all add: families_def)
  next
    assume "i \<in> set svcCollectors"
    then show ?thesis
      by (intro bexI [of _ "\<lparr>fa_Opts = instrumentOpts i, fa_Const = extendedServiceLabels env gin\<rparr>"]) (simp_all add: families_def)
  qed
qed

text \<open>A registerer that only refuses a name it already has accepts them all.\<close>

lemma registerAll_ok:
  assumes "\<And>f r. op_Name (fa_Opts f) \<notin> names r \<Longrightarrow> \<exists>r'. register f r = (None, r') \<and> names r' = insert (op_Name (fa_Opts f)) (names r)"
    and "distinct (map (\<lambda>f. op_Name (fa_Opts f)) fs)" "\<forall>f \<in> set fs. op_Name (fa_Opts f) \<notin> names reg"
  shows "\<exists>reg'. registerAll register fs reg = (None, reg')"
  using assms(2,3)
proof (induction fs arbitrary: reg)
  case (Cons f fs)
  from Cons.prems(2) assms(1) [of f reg] obtain r' where
    r': "register f reg = (None, r')" "names r' = insert (op_Name (fa_Opts f)) (names reg)" by auto
  have "\<forall>g \<in> set fs. op_Name (fa_Opts g) \<notin> names r'"
    using Cons.prems r'(2) by (auto simp: image_iff)
  with Cons.IH [of r'] Cons.prems(1) r'(1) show ?case by simp
qed simp

text \<open>What the service records under a closed vocabulary was there from the start.\<close>

lemma recorded_labels_known:
  "counted initialMetrics endedTotal [endReasonString reason] = 0 \<and> initialMetrics endedTotal [endReasonString reason] \<noteq> None"
  "scope \<in> {ScopeAll, ScopeDepartment, ScopeTender} \<Longrightarrow> initialMetrics createdTotal [scopeString scope] \<noteq> None"
  "k \<in> {consumerCascade, consumerOffboarding, consumerDelegateDisable} \<Longrightarrow> initialMetrics processedEventsDuplicatesTotal [k] \<noteq> None"
proof -
  show "counted initialMetrics endedTotal [endReasonString reason] = 0 \<and> initialMetrics endedTotal [endReasonString reason] \<noteq> None"
    by (cases reason) (simp_all add: initialMetrics_zero initialMetrics_def preinitialized_def)
qed (auto simp: initialMetrics_def preinitialized_def consumerCascade_def consumerOffboarding_def consumerDelegateDisable_def)

section \<open>A metered call\<close>

lemma Observe_ok:
  assumes "kinded m" "op_Kind (instrumentOpts i) = HistogramKind" "length vs = length (op_Labels (instrumentOpts i))"
  obtains m' where "Observe i vs t m = Some m'" "kinded m'" "\<And>j us. counted m' j us = counted m j us"
proof -
  let ?x = "case m i vs of None \<Rightarrow> zeroOf i | Some x \<Rightarrow> x"
  have k: "kindOf ?x = HistogramKind" using assms(1,2) by (auto simp: kinded_def split: option.split)
  then obtain xs where x: "?x = Observed xs" by (cases ?x) auto
  have "counted m i vs = 0"
    using x by (simp add: counted_def split: option.splits)
  then have "counted (put i vs (observeSample t ?x) m) j us = counted m j us" for j us
    using x by (auto simp: counted_def put_def)
  moreover have "kinded (put i vs (observeSample t ?x) m)"
    using assms(1,2) x by (auto simp: kinded_def put_def)
  ultimately show ?thesis using that modify_eq [OF assms(3)] by (simp add: Observe_def)
qed

lemma Latency_ok:
  assumes "kinded m"
  obtains m' where "ObserveDependencyLatency svc ep t m = Some m'" "kinded m'" "\<And>j us. counted m' j us = counted m j us"
proof -
  obtain m1 where m1: "Observe platformDependencyRequestSeconds [svc, ep] t m = Some m1" "kinded m1" "\<And>j us. counted m1 j us = counted m j us"
    by (rule Observe_ok [OF assms, of platformDependencyRequestSeconds "[svc, ep]" t]) simp_all
  obtain m2 where "Observe dependencyCallDurationSeconds [svc, ep] t m1 = Some m2" "kinded m2" "\<And>j us. counted m2 j us = counted m1 j us"
    by (rule Observe_ok [OF m1(2), of dependencyCallDurationSeconds "[svc, ep]" t]) simp_all
  with m1 that show ?thesis by (simp add: ObserveDependencyLatency_def also_do_def)
qed

text \<open>A call never panics, and leaves one more error in each of the two counters exactly when it failed.\<close>

lemma observeCall_ok:
  assumes "kinded m"
  obtains m' where "observeCall svc ep t err m = Some m'" "kinded m'"
    "\<And>j us. counted m' j us = counted m j us + (if \<exists>x. err = Some x \<and> us = [svc, ep, x]
        \<and> j \<in> {platformDependencyErrorsTotal, dependencyCallFailuresTotal} then 1 else 0)"
proof -
  obtain m1 where m1: "ObserveDependencyLatency svc ep t m = Some m1" "kinded m1" "\<And>j us. counted m1 j us = counted m j us"
    by (rule Latency_ok [OF assms]) (rule that)
  show ?thesis
  proof (cases err)
    case None
    with m1 that show ?thesis by (simp add: observeCall_def also_do_def)
  next
    case (Some out)
    have "\<exists>m'. all_do (map (\<lambda>(i, vs). Inc i vs) [(platformDependencyErrorsTotal, [svc, ep, out]), (dependencyCallFailuresTotal, [svc, ep, out])]) m1
        = Some m' \<and> kinded m' \<and> (\<forall>j us. counted m' j us = counted m1 j us
          + (if (j, us) \<in> set [(platformDependencyErrorsTotal, [svc, ep, out]), (dependencyCallFailuresTotal, [svc, ep, out])] then 1 else 0))"
      by (rule incs_ok [OF m1(2)]) simp_all
    then obtain m' where "IncDependencyError svc ep out m1 = Some m'" "kinded m'" "\<And>j us. counted m' j us = counted m j us
          + (if (j, us) \<in> set [(platformDependencyErrorsTotal, [svc, ep, out]), (dependencyCallFailuresTotal, [svc, ep, out])] then 1 else 0)"
      using m1(3) by (auto simp: IncDependencyError_def all_do_Nil all_do_Cons)
    with m1 Some that show ?thesis by (auto simp: observeCall_def also_do_def)
  qed
qed

text \<open>Metering changes nothing of a call, and fails for no call.\<close>

lemma metered_ok:
  assumes "kinded m"
  shows "\<exists>m'. metered svc ep timing t r (Some m) = (r, Some (Some m')) \<and> kinded m'
    \<and> (\<forall>j us. counted m' j us = counted m j us + (if \<exists>x. outcomeOf timing r = Some x \<and> us = [svc, ep, x]
        \<and> j \<in> {platformDependencyErrorsTotal, dependencyCallFailuresTotal} then 1 else 0))"
  by (rule observeCall_ok [OF assms, of svc ep t "outcomeOf timing r"]) (simp add: metered_def whenLive_def)

text \<open>Every series a metered call may touch was there from the start.\<close>

lemma metered_series_known:
  assumes "ep \<in> set (knownEndpoints svc)"
  shows "initialMetrics platformDependencyRequestSeconds [svc, ep] \<noteq> None"
    "initialMetrics platformDependencyErrorsTotal [svc, ep, DependencyOutcome a b] \<noteq> None"
  using assms by (auto simp: initialMetrics_def preinitialized_def DependencyOutcome_def split: if_splits)

section \<open>The active gauge is the table\<close>

lemma SetGauge_all:
  assumes "distinct (map fst counts)"
  shows "all_do (map (\<lambda>(tenant, n). SetGauge activeGauge [tenant] n) counts) m
    = Some (m(activeGauge := (\<lambda>vs. case vs of [t] \<Rightarrow> (case map_of counts t of Some n \<Rightarrow> Some (Level n) | None \<Rightarrow> m activeGauge vs) | _ \<Rightarrow> m activeGauge vs)))"
  using assms
proof (induction counts arbitrary: m)
  case Nil
  show ?case by (simp add: fun_eq_iff split: list.split)
next
  case (Cons p counts)
  obtain t n where p: "p = (t, n)" by force
  have "SetGauge activeGauge [t] n m = Some (put activeGauge [t] (Level n) m)"
    by (simp add: SetGauge_def modify_eq)
  then have "all_do (map (\<lambda>(tenant, n). SetGauge activeGauge [tenant] n) (p # counts)) m
      = all_do (map (\<lambda>(tenant, n). SetGauge activeGauge [tenant] n) counts) (put activeGauge [t] (Level n) m)"
    by (simp add: p also_do_def)
  also have "\<dots> = Some (m(activeGauge := (\<lambda>vs. case vs of [t] \<Rightarrow> (case map_of (p # counts) t of Some n \<Rightarrow> Some (Level n) | None \<Rightarrow> m activeGauge vs) | _ \<Rightarrow> m activeGauge vs)))"
    using Cons.prems by (subst Cons.IH)
      (auto simp: p put_def fun_eq_iff map_of_eq_None_iff [symmetric] split: list.split option.split)
  finally show ?case .
qed

lemma ReplaceActiveGauges_eq:
  assumes "distinct (map fst counts)"
  shows "ReplaceActiveGauges counts m
    = Some (m(activeGauge := (\<lambda>vs. case vs of [t] \<Rightarrow> map_option Level (map_of counts t) | _ \<Rightarrow> None)))"
  unfolding ReplaceActiveGauges_def SetGauge_all [OF assms]
  by (auto simp: Reset_def fun_eq_iff split: list.split option.split)

definition activeRows :: "uuid \<Rightarrow> db \<Rightarrow> Delegation list" where
  "activeRows T d = filter (\<lambda>r. d_Status r = DelegationActive \<and> d_DeletedAt r = None \<and> d_TenantID r = T) (delegations d)"

lemma CountActive_ok:
  assumes "GaugeRepository_CountActiveByTenant e w = (Inr counts, w')"
  shows "counts T = (if activeRows T (db w) = [] then None else Some (length (activeRows T (db w))))" "db w' = db w"
  using assms by (auto simp: GaugeRepository_CountActiveByTenant_def wrap_out_def stmt_def Let_def activeRows_def conj_ac
      filter_empty_conv split: option.splits sum.splits prod.splits if_splits)

lemma emitActiveGauge_ok:
  assumes "\<And>c. distinct (order c) \<and> set (order c) = dom c" "inj (uuid_String e)"
    and "GaugeRepository_CountActiveByTenant e w = (Inr counts, w1)"
  obtains m' where "emitActiveGauge e order w m = (Some m', w1)"
    "\<And>T. m' activeGauge [uuid_String e T] = (if activeRows T (db w) = [] then None else Some (Level (int (length (activeRows T (db w))))))"
    "\<And>vs. m' activeGauge vs \<noteq> None \<Longrightarrow> \<exists>T. vs = [uuid_String e T]"
    "\<And>i. i \<noteq> activeGauge \<Longrightarrow> m' i = m i"
proof -
  let ?l = "map (\<lambda>T. (uuid_String e T, int (the (counts T)))) (order counts)"
  have d: "distinct (map fst ?l)"
    using assms(1) [of counts] assms(2) by (auto simp: comp_def distinct_map intro: inj_on_subset)
  have mo: "map_of ?l (uuid_String e T) = map_option int (counts T)" for T
  proof (cases "counts T")
    case None
    then have "T \<notin> set (order counts)" using assms(1) by auto
    then have "uuid_String e T \<notin> fst ` set ?l" using injD [OF assms(2)] by fastforce
    with None show ?thesis by (simp add: map_of_eq_None_iff del: set_map)
  next
    case (Some n)
    then have "T \<in> set (order counts)" using assms(1) by auto
    then have "(uuid_String e T, int n) \<in> set ?l" using Some by force
    with d Some show ?thesis by (simp add: map_of_eq_Some_iff del: set_map)
  qed
  let ?m = "m(activeGauge := (\<lambda>vs. case vs of [t] \<Rightarrow> map_option Level (map_of ?l t) | _ \<Rightarrow> None))"
  have run: "emitActiveGauge e order w m = (Some ?m, w1)"
    by (simp add: emitActiveGauge_def assms(3) ReplaceActiveGauges_eq [OF d])
  show ?thesis
  proof (rule that [OF run])
    fix T
    have "?m activeGauge [uuid_String e T] = map_option Level (map_option int (counts T))" by (simp add: mo)
    then show "?m activeGauge [uuid_String e T] = (if activeRows T (db w) = [] then None else Some (Level (int (length (activeRows T (db w))))))"
      unfolding CountActive_ok(1) [OF assms(3)] by simp
  next
    fix vs assume "?m activeGauge vs \<noteq> None"
    then obtain t where "vs = [t]" "map_of ?l t \<noteq> None" by (auto split: list.splits)
    then show "\<exists>T. vs = [uuid_String e T]" by (auto simp: map_of_eq_None_iff)
  qed simp
qed

lemma emitActiveGauge_error:
  "GaugeRepository_CountActiveByTenant e w = (Inl err, w1) \<Longrightarrow> emitActiveGauge e order w m = (Some m, w1)"
  by (simp add: emitActiveGauge_def)


lemma emitActiveGauge_db: "emitActiveGauge e order w m = (r, w') \<Longrightarrow> db w' = db w"
  by (auto simp: emitActiveGauge_def GaugeRepository_CountActiveByTenant_def wrap_out_def stmt_def Let_def
      split: option.splits sum.splits prod.splits if_splits)

text \<open>Without faults the last tick leaves the table as it found it in the gauge.\<close>

lemma CountActive_total:
  assumes "no_faults e"
  obtains counts w1 where "GaugeRepository_CountActiveByTenant e w = (Inr counts, w1)"
  using assms that by (force simp: GaugeRepository_CountActiveByTenant_def wrap_out_def stmt_def no_faults_def Let_def)

lemma exporter_ok:
  assumes "no_faults e" "\<And>c. distinct (order c) \<and> set (order c) = dom c" "inj (uuid_String e)"
  shows "\<exists>m' w'. runActiveGaugeExporter e order ticks w m = (Some m', w')
    \<and> (\<forall>T. m' activeGauge [uuid_String e T] = (if activeRows T (db w') = [] then None else Some (Level (int (length (activeRows T (db w')))))))
    \<and> (\<forall>vs. m' activeGauge vs \<noteq> None \<longrightarrow> (\<exists>T. vs = [uuid_String e T]))
    \<and> (\<forall>i. i \<noteq> activeGauge \<longrightarrow> m' i = m i)"
proof (induction ticks arbitrary: w m)
  case Nil
  obtain counts w1 where q: "GaugeRepository_CountActiveByTenant e w = (Inr counts, w1)" by (rule CountActive_total [OF assms(1)])
  from emitActiveGauge_ok [OF assms(2,3) q, of m] CountActive_ok(2) [OF q] show ?case by (metis runActiveGaugeExporter.simps(1))
next
  case (Cons between ticks)
  obtain counts w1 where q: "GaugeRepository_CountActiveByTenant e w = (Inr counts, w1)" by (rule CountActive_total [OF assms(1)])
  obtain m1 where m1: "emitActiveGauge e order w m = (Some m1, w1)" "\<And>i. i \<noteq> activeGauge \<Longrightarrow> m1 i = m i"
    by (rule emitActiveGauge_ok [OF assms(2,3) q, of m]) (rule that)
  with Cons.IH [of "between w1" m1] show ?case by auto
qed

section \<open>What a delivery leaves in the counters\<close>

text \<open>The entries about the message traffic; the cascades only write others.\<close>

fun traffic :: "Metric \<Rightarrow> bool" where
  "traffic (MMessageReceived _) = True" | "traffic MCascadeProcessed = True" | "traffic MCascadeDLQ = True"
| "traffic (MDuplicate _) = True" | "traffic (MUnknownEvent _ _) = True" | "traffic _ = False"

text \<open>The log grew, by entries of which those about the traffic are \<open>xs\<close>.\<close>

definition logged :: "Metric list \<Rightarrow> world \<Rightarrow> world \<Rightarrow> bool" where
  "logged xs w w' \<longleftrightarrow> (\<exists>log. metric_log w' = metric_log w @ log \<and> filter traffic log = xs)"

lemma logged_trans: "logged xs w1 w2 \<Longrightarrow> logged ys w2 w3 \<Longrightarrow> logged (xs @ ys) w1 w3"
  unfolding logged_def by (metis append.assoc filter_append)

lemma logged_same: "metric_log w' = metric_log w \<Longrightarrow> logged [] w w'"
  by (auto simp: logged_def)

interpretation unlogged: tx_frame "logged []"
proof
  show "logged [] w1 w2 \<Longrightarrow> logged [] w2 w3 \<Longrightarrow> logged [] w1 w3" for w1 w2 w3
    using logged_trans [of "[]" w1 w2 "[]" w3] by simp
qed (auto simp: logged_def)

lemma unlogged_ext: "same_ext w w' \<Longrightarrow> logged [] w w'"
  by (simp add: same_ext_def logged_same)

lemma unlogged_metric: "\<not> traffic x \<Longrightarrow> logged [] w (record_metric e x w)"
  by (auto simp: logged_def record_metric_def)

lemma logged_metric: "hasMetrics e \<Longrightarrow> traffic x \<Longrightarrow> logged [x] w (record_metric e x w)"
  by (auto simp: logged_def record_metric_def)

lemma unlogged_clear: "logged [] w (clearFailOpen e op T u w)"
  by (auto simp: clearFailOpen_def up_ClearDelegatePointer_def Let_def logged_def record_metric_def split: option.split)

lemma cascade_unlogged:
  "logged [] w (snd (CascadeService_EndForUser e c T u w))"
  "logged [] w (snd (CascadeService_EndForDisabledDelegate e c T u w))"
  "logged [] w (snd (CascadeService_ScrubTenant e c T w))"
proof -
  have d: "same_ext w (snd (CascadeService_endForDisabledTx e T u c w))" for c w
    unfolding CascadeService_endForDisabledTx_def
    by (intro ext.frame_bind ext.frame_for_each) (auto intro: enqueue_ext)
  have f: "logged [] w (fold (\<lambda>d w. if P d then w else clearFailOpen e op T (g d) w) ds w)" for P op g ds w
    by (rule unlogged.frame_fold) (simp add: unlogged_clear unlogged.frame_refl)
  have g: "logged [] w (fold (\<lambda>d w. if P d then record_metric e (MEnded r) w else w) ds w)" for P r ds w
    by (rule unlogged.frame_fold) (simp add: unlogged_metric unlogged.frame_refl)
  have p: "logged [] w ((record_metric e (MEnded r) ^^ n) w)" for r n w
  proof (induction n)
    case (Suc n)
    then show ?case using unlogged.frame_trans [OF Suc unlogged_metric] by simp
  qed (simp add: unlogged.frame_refl)
  show "logged [] w (snd (CascadeService_EndForUser e c T u w))"
    unfolding CascadeService_EndForUser_def Let_def
    by (rule unlogged.frame_bind [OF unlogged.frame_RunInTx [OF unlogged_ext [OF endForUserTx_ext]]])
       (simp add: unlogged.frame_trans [OF f g])
  show "logged [] w (snd (CascadeService_EndForDisabledDelegate e c T u w))"
    unfolding CascadeService_EndForDisabledDelegate_def
    by (rule unlogged.frame_bind [OF unlogged.frame_RunInTx [OF unlogged_ext [OF d]]]) (simp add: p)
  show "logged [] w (snd (CascadeService_ScrubTenant e c T w))"
    unfolding CascadeService_ScrubTenant_def
    by (intro unlogged.frame_RunInTx unlogged.frame_bind unlogged_ext) simp_all
qed

lemma handlers_unlogged:
  "logged [] w (snd (handleMembershipRevoked e c evp k i w))"
  "logged [] w (snd (handleTenantMembershipsPurged e c evp k i w))"
  "logged [] w (snd (handleUserDisabled e c evp k i w))"
proof -
  have run: "logged [] w1 (snd (runCascadeAndMark e c' k i fn w1))" if "\<And>c w. logged [] w (snd (fn c w))" for c' fn w1
    unfolding runCascadeAndMark_def
    by (intro unlogged.frame_RunInTx unlogged.frame_bind that) (simp add: unlogged_ext)
  show "logged [] w (snd (handleMembershipRevoked e c evp k i w))"
    "logged [] w (snd (handleTenantMembershipsPurged e c evp k i w))"
    "logged [] w (snd (handleUserDisabled e c evp k i w))"
    unfolding handleMembershipRevoked_def handleTenantMembershipsPurged_def handleUserDisabled_def
    by (intro unlogged.frame_bind run cascade_unlogged; simp add: unlogged.frame_refl)+
qed

lemma mark_unlogged: "logged [] w (snd (markProcessedInTx e c k i w))"
  unfolding markProcessedInTx_def by (intro unlogged.frame_RunInTx unlogged_ext) simp

text \<open>What the traffic entries say of the result.\<close>

definition told :: "error + unit \<Rightarrow> Metric list \<Rightarrow> bool" where
  "told r xs \<longleftrightarrow> xs = [] \<or> xs = [MCascadeProcessed] \<and> r = Inr () \<or> xs = [MCascadeDLQ] \<and> isl r
     \<or> (\<exists>k. xs = [MDuplicate k] \<and> r = Inr ()) \<or> (\<exists>k t. xs = [MUnknownEvent k t])"


definition telling :: "world \<Rightarrow> (error, unit, world) outcome \<Rightarrow> bool" where
  "telling w p \<longleftrightarrow> (\<exists>xs. told (fst p) xs \<and> logged xs w (snd p))"

lemma telling_none: "logged [] w (snd p) \<Longrightarrow> telling w p"
  by (auto simp: telling_def told_def)

lemma telling_after: "logged [] w w1 \<Longrightarrow> telling w1 p \<Longrightarrow> telling w p"
  unfolding telling_def by (metis append_Nil logged_trans)

lemma skipDuplicate_cases:
  assumes "hasMetrics e" "skipDuplicate e c k i w = (r, w')"
  obtains err where "r = Inl err" "logged [] w w'" | "r = Inr True" "logged [MDuplicate k] w w'" | "r = Inr False" "logged [] w w'"
proof (cases "ProcessedEventsRepository_IsProcessed e c k i w")
  case (Pair x w1)
  have w1: "logged [] w w1" using unlogged_ext [OF other_repositories_ext(4) [of w e c k i]] Pair by simp
  have "logged [MDuplicate k] w (record_metric e (MDuplicate k) w1)"
    using logged_trans [OF w1 logged_metric [OF assms(1)]] by simp
  with assms(2) Pair w1 that show ?thesis by (cases x) (auto simp: skipDuplicate_def split: if_splits)
qed

lemma Handle_run_telling:
  assumes "hasMetrics e" "\<And>w. logged [] w (snd (h w))"
  shows "telling w (Handle_run e c k i h w)"
proof -
  obtain r w1 where s: "skipDuplicate e c k i w = (r, w1)" by force
  obtain x w2 where x: "h w1 = (x, w2)" by force
  have w2: "logged [] w1 w2" using assms(2) [of w1] x by simp
  from assms(1) s show ?thesis
  proof (cases rule: skipDuplicate_cases)
    case (3)
    have "logged [y] w (record_metric e y w2)" if "traffic y" for y
      using logged_trans [OF 3(2) logged_trans [OF w2 logged_metric [OF assms(1) that]]] by simp
    with 3 s x show ?thesis
      by (cases x) (auto simp: Handle_run_def telling_def told_def intro: exI [of _ "[MCascadeDLQ]"] exI [of _ "[MCascadeProcessed]"])
  qed (auto simp: Handle_run_def s telling_def told_def)
qed

lemma Handle_userUpdated_telling:
  assumes "hasMetrics e"
  shows "telling w (Handle_userUpdated e c evp i w)"
proof (cases "isUserUpdatedDisabled e evp")
  case (Inl err)
  then show ?thesis by (simp add: Handle_userUpdated_def telling_none unlogged.frame_refl)
next
  case (Inr disabled)
  obtain r w1 where s: "skipDuplicate e c consumerDelegateDisable i w = (r, w1)" by force
  have m: "logged [] w1 (snd (markProcessedInTx e c consumerDelegateDisable i w1))" by (rule mark_unlogged)
  from assms s have "telling w (bind_res (skipDuplicate e c consumerDelegateDisable i w) (\<lambda>skip w.
           if skip then (Inr (), w) else markProcessedInTx e c consumerDelegateDisable i w))"
  proof (cases rule: skipDuplicate_cases)
    case (3)
    with s m show ?thesis by (simp add: telling_after telling_none)
  qed (auto simp: s telling_def told_def)
  with Inr show ?thesis
    by (cases disabled) (auto simp: Handle_userUpdated_def intro!: Handle_run_telling assms handlers_unlogged)
qed

lemma ackUnknown_telling:
  assumes "hasMetrics e"
  shows "telling w (ackUnknown e c k evp w)"
proof -
  have "logged [MUnknownEvent k (ee_Type evp)] w (snd (ackUnknown e c k evp w))"
    using logged_trans [OF logged_metric [OF assms] mark_unlogged] by (simp add: ackUnknown_def)
  then show ?thesis by (auto simp: telling_def told_def)
qed

lemma Handle_telling:
  assumes "hasMetrics e" "CascadeConsumer_Handle e v c evp w = (r, w')"
  obtains xs where "told r xs" "logged (MMessageReceived platformCascadeQueue # xs) w w'"
proof -
  let ?w = "record_metric e (MMessageReceived ''delegation-cascade-q'') w"
  have w: "logged [MMessageReceived platformCascadeQueue] w ?w" using logged_metric [OF assms(1)] by (simp add: platformCascadeQueue_def)
  have v: "telling ?w (bind_res (validatePayload e v evp ?w) k)" if "\<And>w. telling w (k () w)" for k
  proof (cases "validatePayload e v evp ?w")
    case (Pair x w1)
    show ?thesis
    proof (cases x)
      case (Inl err)
      with Pair have "w1 = record_metric e MCascadeDLQ ?w"
        by (auto simp: validatePayload_def split: option.splits if_splits)
      with Inl Pair logged_metric [OF assms(1), of MCascadeDLQ ?w] show ?thesis
        by (auto simp: telling_def told_def)
    next
      case (Inr u)
      with Pair have "w1 = ?w" by (auto simp: validatePayload_def split: option.splits if_splits)
      with Inr Pair that show ?thesis by simp
    qed
  qed
  have "telling ?w (CascadeConsumer_Handle e v c evp w)"
    unfolding CascadeConsumer_Handle_def Let_def
    by (auto simp: telling_none [OF unlogged.frame_refl, of "(_, _)", unfolded snd_conv] intro!: v Handle_run_telling [OF assms(1)] Handle_userUpdated_telling [OF assms(1)]
        ackUnknown_telling [OF assms(1)] handlers_unlogged split: option.split)
  then obtain xs where "told r xs" "logged xs ?w w'" by (auto simp: telling_def assms(2))
  with that logged_trans [OF w] show ?thesis by simp
qed

text \<open>The instruments of the message traffic are counted up by its entries alone.\<close>

definition trafficInstruments :: "Instrument set" where
  "trafficInstruments = {platformMessagesReceivedTotal, platformMessagesProcessedTotal, platformMessagesFailedTotal, platformDuplicateMessagesTotal}"

lemma touches_traffic: "i \<in> trafficInstruments \<Longrightarrow> (i, vs) \<in> set (touches x) \<Longrightarrow> traffic x"
  by (cases x) (auto simp: trafficInstruments_def)

lemma traffic_counts:
  assumes "kinded m" "logged xs w w'"
  obtains log m' where "metric_log w' = metric_log w @ log" "replay log m = Some m'"
    "\<And>i vs. i \<in> trafficInstruments
       \<Longrightarrow> counted m' i vs = counted m i vs + length (filter (\<lambda>x. (i, vs) \<in> set (touches x)) xs)"
proof -
  from assms(2) obtain log where log: "metric_log w' = metric_log w @ log" "filter traffic log = xs" by (auto simp: logged_def)
  from replay_counts [OF assms(1), of log] obtain m' where m': "replay log m = Some m'"
    "\<And>i vs. counted m' i vs = counted m i vs + length (filter (\<lambda>x. (i, vs) \<in> set (touches x)) log)" by auto
  have "filter (\<lambda>x. (i, vs) \<in> set (touches x)) xs = filter (\<lambda>x. (i, vs) \<in> set (touches x)) log"
    if "i \<in> trafficInstruments" for i vs
    using touches_traffic [OF that] by (auto simp: log(2) [symmetric] intro: filter_cong)
  with log m' that show ?thesis by simp
qed

section \<open>Every recorder\<close>

text \<open>
  A call of each method of \<open>Metrics\<close> that records something, with its arguments; what it does to the
  model's state; and, independently, the series it stands for: one more (\<open>None\<close>), or an observed time.
\<close>

datatype RecorderCall =
  CallMessageReceived string | CallCreated string | CallEnded string | CallReplaceActiveGauges "(string \<times> int) list"
| CallExpiryDeferred | CallActivationDeferred | CallReviewDeferred | CallReviewWarned string | CallReviewExpired
| CallMembershipCheckDuration duration | CallMembershipCheckFailure | CallUPAvailabilityFailure string
| CallIdempotencyHit | CallCascadeProcessed | CallCascadeDLQ | CallProcessedEventsDuplicate string
| CallUnknownEventAcknowledged string string | CallDependencyLatency string string duration
| CallDependencyError string string string

fun perform :: "RecorderCall \<Rightarrow> Metrics \<Rightarrow> Metrics option" where
  "perform (CallMessageReceived queue) = RecordMessageReceived queue"
| "perform (CallCreated scope) = RecordCreated scope"
| "perform (CallEnded reason) = RecordEnded reason"
| "perform (CallReplaceActiveGauges counts) = ReplaceActiveGauges counts"
| "perform CallExpiryDeferred = RecordExpiryDeferred"
| "perform CallActivationDeferred = RecordActivationDeferred"
| "perform CallReviewDeferred = RecordReviewDeferred"
| "perform (CallReviewWarned days) = RecordReviewWarned days"
| "perform CallReviewExpired = RecordReviewExpired"
| "perform (CallMembershipCheckDuration t) = ObserveMembershipCheckDuration t"
| "perform CallMembershipCheckFailure = RecordMembershipCheckFailure"
| "perform (CallUPAvailabilityFailure path) = RecordUPAvailabilityFailure path"
| "perform CallIdempotencyHit = RecordIdempotencyHit"
| "perform CallCascadeProcessed = RecordCascadeProcessed"
| "perform CallCascadeDLQ = RecordCascadeDLQ"
| "perform (CallProcessedEventsDuplicate consumer) = RecordProcessedEventsDuplicate consumer"
| "perform (CallUnknownEventAcknowledged consumer t) = RecordUnknownEventAcknowledged consumer t"
| "perform (CallDependencyLatency svc ep t) = ObserveDependencyLatency svc ep t"
| "perform (CallDependencyError svc ep outcome) = IncDependencyError svc ep outcome"

type_synonym Act = "Instrument \<times> string list \<times> duration option"

fun acts :: "RecorderCall \<Rightarrow> Act list" where
  "acts (CallMessageReceived queue) = [(platformMessagesReceivedTotal, [queue], None)]"
| "acts (CallCreated scope) = [(createdTotal, [scope], None)]"
| "acts (CallEnded reason) = [(endedTotal, [reason], None)]"
| "acts (CallReplaceActiveGauges counts) = []"
| "acts CallExpiryDeferred = [(expiryDeferredTotal, [], None)]"
| "acts CallActivationDeferred = [(activationDeferredTotal, [], None)]"
| "acts CallReviewDeferred = [(reviewDeferredTotal, [], None)]"
| "acts (CallReviewWarned days) = [(reviewWarnedTotal, [days], None)]"
| "acts CallReviewExpired = [(reviewExpiredTotal, [], None)]"
| "acts (CallMembershipCheckDuration t) = [(membershipCheckDuration, [], Some t)]"
| "acts CallMembershipCheckFailure = [(membershipCheckFailuresTotal, [], None)]"
| "acts (CallUPAvailabilityFailure path) = [(upAvailabilityFailuresTotal, [path], None)]"
| "acts CallIdempotencyHit = [(idempotencyHitsTotal, [], None)]"
| "acts CallCascadeProcessed = [(platformMessagesProcessedTotal, [''delegation-cascade-q''], None), (cascadeProcessedTotal, [], None)]"
| "acts CallCascadeDLQ = [(platformMessagesFailedTotal, [''delegation-cascade-q''], None), (cascadeDLQTotal, [], None)]"
| "acts (CallProcessedEventsDuplicate consumer) =
     [(platformDuplicateMessagesTotal, [''delegation-cascade-q''], None), (processedEventsDuplicatesTotal, [consumer], None)]"
| "acts (CallUnknownEventAcknowledged consumer t) = [(unknownEventAcknowledgedTotal, [consumer, t], None)]"
| "acts (CallDependencyLatency svc ep t) =
     [(platformDependencyRequestSeconds, [svc, ep], Some t), (dependencyCallDurationSeconds, [svc, ep], Some t)]"
| "acts (CallDependencyError svc ep outcome) =
     [(platformDependencyErrorsTotal, [svc, ep, outcome], None), (dependencyCallFailuresTotal, [svc, ep, outcome], None)]"

text \<open>How often a series was counted up by acts, and the times they observed in it.\<close>

definition increments :: "Act list \<Rightarrow> Instrument \<Rightarrow> string list \<Rightarrow> nat" where
  "increments l i vs = length (filter (\<lambda>a. a = (i, vs, None)) l)"

definition timesSeen :: "Act list \<Rightarrow> Instrument \<Rightarrow> string list \<Rightarrow> duration list" where
  "timesSeen l i vs = map (\<lambda>(_, _, x). the x) (filter (\<lambda>(j, us, x). j = i \<and> us = vs \<and> x \<noteq> None) l)"

definition observed :: "Metrics \<Rightarrow> Instrument \<Rightarrow> string list \<Rightarrow> duration list" where
  "observed m i vs = (case m i vs of Some (Observed ts) \<Rightarrow> ts | _ \<Rightarrow> [])"

text \<open>The counts the gauge was last replaced with.\<close>

definition lastCounts :: "RecorderCall list \<Rightarrow> (string \<times> int) list" where
  "lastCounts calls = fold (\<lambda>call l. case call of CallReplaceActiveGauges counts \<Rightarrow> counts | _ \<Rightarrow> l) calls []"

definition gaugeOf :: "(string \<times> int) list \<Rightarrow> string list \<Rightarrow> Sample option" where
  "gaugeOf counts vs = (case vs of [t] \<Rightarrow> map_option Level (map_of counts t) | _ \<Rightarrow> None)"

fun doAct :: "Act \<Rightarrow> Metrics \<Rightarrow> Metrics option" where
  "doAct (i, vs, None) = Inc i vs"
| "doAct (i, vs, Some t) = Observe i vs t"

fun validAct :: "Act \<Rightarrow> bool" where
  "validAct (i, vs, x) \<longleftrightarrow> length vs = length (op_Labels (instrumentOpts i))
     \<and> op_Kind (instrumentOpts i) = (case x of None \<Rightarrow> CounterKind | Some _ \<Rightarrow> HistogramKind)"

lemma acts_valid: "a \<in> set (acts call) \<Longrightarrow> validAct a"
  by (cases call) auto

lemma perform_acts:
  "perform call = (case call of CallReplaceActiveGauges counts \<Rightarrow> ReplaceActiveGauges counts | _ \<Rightarrow> all_do (map doAct (acts call)))"
  by (cases call) (simp_all add: all_do_Nil all_do_Cons RecordCreated_def RecordEnded_def RecordIdempotencyHit_def
      RecordUPAvailabilityFailure_def RecordExpiryDeferred_def RecordActivationDeferred_def RecordReviewDeferred_def
      RecordReviewWarned_def RecordReviewExpired_def RecordMessageReceived_def RecordCascadeProcessed_def
      RecordCascadeDLQ_def RecordProcessedEventsDuplicate_def RecordUnknownEventAcknowledged_def
      ObserveMembershipCheckDuration_def RecordMembershipCheckFailure_def ObserveDependencyLatency_def
      IncDependencyError_def platformCascadeQueue_def del: all_do.simps)

text \<open>What the metrics show after some acts, the gauge apart.\<close>

definition shows_acts :: "Metrics \<Rightarrow> Act list \<Rightarrow> Metrics \<Rightarrow> bool" where
  "shows_acts m l m' \<longleftrightarrow> kinded m' \<and> (\<forall>i vs. counted m' i vs = counted m i vs + increments l i vs
     \<and> observed m' i vs = observed m i vs @ timesSeen l i vs)"

lemma shows_append: "shows_acts m l m1 \<Longrightarrow> shows_acts m1 l' m' \<Longrightarrow> shows_acts m (l @ l') m'"
  by (simp add: shows_acts_def increments_def timesSeen_def)

lemma doAct_ok:
  assumes "kinded m" "validAct a"
  obtains m' where "doAct a m = Some m'" "shows_acts m [a] m'" "m' activeGauge = m activeGauge"
proof -
  obtain i vs x where a: "a = (i, vs, x)" by (cases a)
  let ?x = "case m i vs of None \<Rightarrow> zeroOf i | Some x \<Rightarrow> x"
  let ?f = "case x of None \<Rightarrow> incSample | Some t \<Rightarrow> observeSample t"
  have run: "doAct a m = Some (put i vs (?f ?x) m)"
    using assms(2) a by (cases x) (simp_all add: Inc_def Observe_def modify_eq)
  have k: "kindOf ?x = op_Kind (instrumentOpts i)" using assms(1) by (auto simp: kinded_def split: option.split)
  have gauge: "i \<noteq> activeGauge" using assms(2) a by (cases x) auto
  have "shows_acts m [a] (put i vs (?f ?x) m)"
  proof (cases x)
    case None
    with k assms(2) a obtain n where n: "?x = Count n" by (cases ?x) auto
    have c: "op_Kind (instrumentOpts i) = CounterKind" using assms(2) a None by simp
    have now: "counted m i vs = n" "observed m i vs = []"
      using n c by (auto simp: counted_def observed_def zeroOf_def split: option.splits)
    show ?thesis
      using assms(1) now n c None a
      by (auto simp: shows_acts_def kinded_def put_def counted_def observed_def increments_def timesSeen_def split: if_splits)
  next
    case (Some t)
    with k assms(2) a obtain ts where n: "?x = Observed ts" by (cases ?x) auto
    have c: "op_Kind (instrumentOpts i) = HistogramKind" using assms(2) a Some by simp
    have now: "counted m i vs = 0" "observed m i vs = ts"
      using n c by (auto simp: counted_def observed_def zeroOf_def split: option.splits)
    show ?thesis
      using assms(1) now n c Some a
      by (auto simp: shows_acts_def kinded_def put_def counted_def observed_def increments_def timesSeen_def split: if_splits)
  qed
  moreover have "put i vs (?f ?x) m activeGauge = m activeGauge" using gauge by (simp add: put_def)
  ultimately show ?thesis by (rule that [OF run])
qed

lemma doActs_ok:
  assumes "kinded m" "\<forall>a \<in> set l. validAct a"
  shows "\<exists>m'. all_do (map doAct l) m = Some m' \<and> shows_acts m l m' \<and> m' activeGauge = m activeGauge"
  using assms
proof (induction l arbitrary: m)
  case Nil
  then show ?case by (simp add: shows_acts_def increments_def timesSeen_def)
next
  case (Cons a l)
  from Cons.prems(2) have a: "validAct a" by simp
  obtain m1 where m1: "doAct a m = Some m1" "shows_acts m [a] m1" "m1 activeGauge = m activeGauge"
    by (rule doAct_ok [OF Cons.prems(1) a])
  then have "kinded m1" by (simp add: shows_acts_def)
  with Cons.IH [of m1] Cons.prems(2) obtain m' where m': "all_do (map doAct l) m1 = Some m'" "shows_acts m1 l m'"
    "m' activeGauge = m1 activeGauge" by auto
  with m1 shows_append [OF m1(2) m'(2)] show ?case by (simp add: also_do_def)
qed

lemma perform_ok:
  assumes "kinded m" "\<And>counts. call = CallReplaceActiveGauges counts \<Longrightarrow> distinct (map fst counts)"
  obtains m' where "perform call m = Some m'" "shows_acts m (acts call) m'"
    "m' activeGauge = (case call of CallReplaceActiveGauges counts \<Rightarrow> gaugeOf counts | _ \<Rightarrow> m activeGauge)"
proof (cases "\<exists>counts. call = CallReplaceActiveGauges counts")
  case True
  then obtain counts where call: "call = CallReplaceActiveGauges counts" by blast
  let ?m = "m(activeGauge := gaugeOf counts)"
  have "perform call m = Some ?m"
    unfolding call perform.simps ReplaceActiveGauges_eq [OF assms(2) [OF call]]
    by (simp add: gaugeOf_def [abs_def])
  moreover have "?m activeGauge vs \<noteq> Some (Count n)" "?m activeGauge vs \<noteq> Some (Observed ts)" for vs n ts
    by (auto simp: gaugeOf_def split: list.split)
  moreover have "m activeGauge vs \<noteq> Some (Count n)" "m activeGauge vs \<noteq> Some (Observed ts)" for vs n ts
    using assms(1) by (fastforce simp: kinded_def)+
  moreover have "kinded ?m"
    using assms(1) by (auto simp: kinded_def gaugeOf_def split: list.splits)
  ultimately show ?thesis
    using call by (intro that [of ?m])
      (auto simp: shows_acts_def increments_def timesSeen_def counted_def observed_def split: option.split Sample.split)
next
  case False
  then have p: "perform call = all_do (map doAct (acts call))" by (auto simp: perform_acts split: RecorderCall.split)
  from doActs_ok [OF assms(1), of "acts call"] acts_valid obtain m' where
    "all_do (map doAct (acts call)) m = Some m'" "shows_acts m (acts call) m'" "m' activeGauge = m activeGauge" by blast
  with False p show ?thesis by (intro that [of m']) (auto split: RecorderCall.split)
qed

text \<open>Any calls in any order, the gauge being replaced by maps.\<close>

lemma performs_ok:
  assumes "kinded m" "\<forall>counts. CallReplaceActiveGauges counts \<in> set calls \<longrightarrow> distinct (map fst counts)"
    and "m activeGauge = gaugeOf l"
  shows "\<exists>m'. all_do (map perform calls) m = Some m' \<and> shows_acts m (concat (map acts calls)) m'
    \<and> m' activeGauge = gaugeOf (fold (\<lambda>call l. case call of CallReplaceActiveGauges counts \<Rightarrow> counts | _ \<Rightarrow> l) calls l)"
  using assms
proof (induction calls arbitrary: m l)
  case Nil
  then show ?case by (simp add: shows_acts_def increments_def timesSeen_def)
next
  case (Cons call calls)
  let ?l = "case call of CallReplaceActiveGauges counts \<Rightarrow> counts | _ \<Rightarrow> l"
  obtain m1 where m1: "perform call m = Some m1" "shows_acts m (acts call) m1"
    "m1 activeGauge = (case call of CallReplaceActiveGauges counts \<Rightarrow> gaugeOf counts | _ \<Rightarrow> m activeGauge)"
    by (rule perform_ok [OF Cons.prems(1), of call]) (use Cons.prems(2) in auto)
  then have "kinded m1" "m1 activeGauge = gaugeOf ?l"
    using Cons.prems(3) by (auto simp: shows_acts_def split: RecorderCall.split)
  with Cons.IH [of m1 ?l] Cons.prems(2) obtain m' where m': "all_do (map perform calls) m1 = Some m'"
    "shows_acts m1 (concat (map acts calls)) m'"
    "m' activeGauge = gaugeOf (fold (\<lambda>call l. case call of CallReplaceActiveGauges counts \<Rightarrow> counts | _ \<Rightarrow> l) calls ?l)" by auto
  with m1 shows_append [OF m1(2) m'(2)] show ?case by (simp add: also_do_def)
qed

lemma initialMetrics_empty: "observed initialMetrics i vs = []" "initialMetrics activeGauge = gaugeOf []"
proof -
  show "observed initialMetrics i vs = []"
    by (cases "op_Kind (instrumentOpts i)") (simp_all add: observed_def initialMetrics_def zeroOf_def)
  show "initialMetrics activeGauge = gaugeOf []"
    by (rule ext) (auto simp: initialMetrics_def gaugeOf_def preinitialized_def split: list.split)
qed

lemma recorders_ok:
  assumes "\<forall>counts. CallReplaceActiveGauges counts \<in> set calls \<longrightarrow> distinct (map fst counts)"
  shows "\<exists>m'. all_do (map perform calls) initialMetrics = Some m'
    \<and> (\<forall>i vs. counted m' i vs = increments (concat (map acts calls)) i vs
         \<and> observed m' i vs = timesSeen (concat (map acts calls)) i vs)
    \<and> m' activeGauge = gaugeOf (lastCounts calls)"
  using performs_ok [OF initialMetrics_zero(1) assms initialMetrics_empty(2)]
  by (auto simp: shows_acts_def initialMetrics_zero(2) initialMetrics_empty(1) lastCounts_def)

text \<open>What is kept under two names agrees.\<close>

lemma increments_concat: "increments (concat (map acts calls)) i vs = (\<Sum>call \<leftarrow> calls. increments (acts call) i vs)"
  by (induction calls) (simp_all add: increments_def)

lemma timesSeen_concat: "timesSeen (concat (map acts calls)) i vs = concat (map (\<lambda>call. timesSeen (acts call) i vs) calls)"
  by (induction calls) (simp_all add: timesSeen_def)

lemma dual_series:
  "increments (acts call) platformMessagesProcessedTotal [''delegation-cascade-q''] = increments (acts call) cascadeProcessedTotal []"
  "increments (acts call) platformMessagesFailedTotal [''delegation-cascade-q''] = increments (acts call) cascadeDLQTotal []"
  "increments (acts call) platformDependencyErrorsTotal vs = increments (acts call) dependencyCallFailuresTotal vs"
  "timesSeen (acts call) platformDependencyRequestSeconds vs = timesSeen (acts call) dependencyCallDurationSeconds vs"
  by (cases call; simp add: increments_def timesSeen_def)+

end
