(* ===== verification/Process.thy ===== *)
theory Process
  imports Config Metrics "HOL-Library.Multiset"
begin

text \<open>
  The server process (\<^verbatim>\<open>src/cmd/server/main.go\<close>, \<^verbatim>\<open>wiring.go\<close>,
  \<^verbatim>\<open>src/internal/adapter/outbound/postgres/migrate.go\<close>) and the reconciler's
  (\<^verbatim>\<open>src/cmd/reconciler/main.go\<close>): what is started in which order, what is undone in which order,
  and the group of workers in between. What a process does to the outside is a trace of effects; a
  \<open>defer\<close> pushes effects on a stack that is run, last in first out, when the function
  returns. The constructors of the libraries are parameters (\<open>Boot\<close>): they fail or they do not.
\<close>

section \<open>Effects and deferred effects\<close>

datatype Worker =
  OutboxRunner | CascadeSQSConsumer | GaugeExporter | OutboxPruner | HTTPListener | MetricsListener | Closer

datatype StartError =
  StartConfig ConfigError
| StartFailed string RawError   \<comment> \<open>the text it is wrapped with\<close>
| StartClient string error
| StartPanic   \<comment> \<open>of \<open>metrics.Register\<close>\<close>
| StartRun RunError   \<comment> \<open>of the reconciler\<close>

datatype Effect =
  SignalsNotified | SignalsStopped
| TracingStarted | TracingFlushed | TelemetryShutdown
| MetricsRegistered
| SpanStarted | SpanEnded
| OutboxSchemaApplied string | DomainMigrated string
| PoolOpened pool string | PoolDrained pool | PoolClosed pool
| ValkeyOpened string | ValkeyClosed
| WorkerReturned Worker "StartError option"
| HTTPServerShutdown | MetricsServerShutdown | OutboxRunnerStopped | CascadeConsumerStopped

record Proc =
  pr_trace :: "Effect list"
  pr_defers :: "Effect list list"

definition newProc :: Proc where "newProc = \<lparr>pr_trace = [], pr_defers = []\<rparr>"

definition emit :: "Effect \<Rightarrow> Proc \<Rightarrow> Proc" where
  "emit x p = p\<lparr>pr_trace := pr_trace p @ [x]\<rparr>"

definition deferring :: "Effect list \<Rightarrow> Proc \<Rightarrow> Proc" where
  "deferring xs p = p\<lparr>pr_defers := xs # pr_defers p\<rparr>"

definition unwound :: "Proc \<Rightarrow> Effect list" where
  "unwound p = concat (pr_defers p)"

text \<open>\<open>if err != nil { return fmt.Errorf("...: %w", err) }\<close>.\<close>

definition failing :: "string \<Rightarrow> RawError option \<Rightarrow> Proc \<Rightarrow> (StartError, unit, Proc) outcome" where
  "failing what x = check_res (map_option (StartFailed what) x)"

definition from_sum :: "('x \<Rightarrow> 'e) \<Rightarrow> 'x + 'a \<Rightarrow> 's \<Rightarrow> ('e, 'a, 's) outcome" where
  "from_sum f x s = (case x of Inl err \<Rightarrow> (Inl (f err), s) | Inr a \<Rightarrow> (Inr a, s))"

section \<open>What the libraries answer\<close>

record SNSConfigEnv =
  sn_TopicARN :: string
  sn_Region :: string
  sn_EndpointURL :: string

record 'r Boot =
  bt_pd :: parse_duration
  bt_pgDSN :: "procenv \<Rightarrow> string"   \<comment> \<open>pgcommon.ConfigFromEnv\<close>
  bt_register :: "Family \<Rightarrow> 'r \<Rightarrow> RawError option \<times> 'r"
  bt_gin :: labels
  bt_registry :: 'r
  bt_ApplySchema :: "string \<Rightarrow> RawError option"   \<comment> \<open>platform-events' outbox schema, at a DSN\<close>
  bt_Up :: "string \<Rightarrow> RawError option"   \<comment> \<open>pgcommon's migration runner on the embedded migrations, at a DSN\<close>
  bt_NewPool :: "pool \<Rightarrow> string \<Rightarrow> RawError option"
  bt_formats :: "string \<Rightarrow> string \<Rightarrow> bool"   \<comment> \<open>format checks of the schema library\<close>
  bt_Compile :: "string \<Rightarrow> RawError option"   \<comment> \<open>parsing, adding and compiling the embedded schema of a name\<close>
  bt_LoadAWS :: "string \<Rightarrow> RawError option"   \<comment> \<open>awsconfig.LoadDefaultConfig, for a region\<close>
  bt_glue :: Registry
  bt_definitions :: "string \<Rightarrow> string option"
  bt_LoadSNS :: "procenv \<Rightarrow> SNSConfigEnv"
  bt_NewSNSPublisher :: "SNSConfigEnv \<Rightarrow> RawError option"
  bt_NewRunner :: "procenv \<Rightarrow> RawError option"   \<comment> \<open>outbox.NewRunner, configured from the environment\<close>
  bt_LoadSQS :: "procenv \<Rightarrow> SQSConfigEnv"
  bt_NewSQSConsumer :: "SQSConfigEnv \<Rightarrow> RawError option"

section \<open>Steps of the start-up\<close>

text \<open>The outbox schema first: the domain migration grants rights on its table.\<close>

definition RunMigrations :: "'r Boot \<Rightarrow> string \<Rightarrow> Proc \<Rightarrow> (RawError, unit, Proc) outcome" where
  "RunMigrations b dsn p =
     (case bt_Up b dsn of Some err \<Rightarrow> (Inl err, p) | None \<Rightarrow> (Inr (), emit (DomainMigrated dsn) p))"

definition Migrate :: "'r Boot \<Rightarrow> string \<Rightarrow> Proc \<Rightarrow> (string \<times> RawError, unit, Proc) outcome" where
  "Migrate b dsn p =
     (case bt_ApplySchema b dsn of
        Some err \<Rightarrow> (Inl (''outbox schema'', err), p)
      | None \<Rightarrow>
          (case RunMigrations b dsn (emit (OutboxSchemaApplied dsn) p) of
             (Inl err, p) \<Rightarrow> (Inl (''domain migrations'', err), p) | (Inr u, p) \<Rightarrow> (Inr u, p)))"

text \<open>A pool is closed after it was drained: the two defers run last in, first out.\<close>

definition openPool :: "'r Boot \<Rightarrow> pool \<Rightarrow> string \<Rightarrow> string \<Rightarrow> Proc \<Rightarrow> (StartError, unit, Proc) outcome" where
  "openPool b k what dsn p =
     bind_res (failing what (bt_NewPool b k dsn) p) (\<lambda>_ p.
       (Inr (), deferring [PoolDrained k] (deferring [PoolClosed k] (emit (PoolOpened k dsn) p))))"

text \<open>Go ranges over the map of schemas in any order; only which error comes first depends on it.\<close>

fun compileEntries :: "(string \<Rightarrow> RawError option) \<Rightarrow> string list \<Rightarrow> RawError option" where
  "compileEntries compile [] = None"
| "compileEntries compile (name # names) =
     (case compile name of Some err \<Rightarrow> Some err | None \<Rightarrow> compileEntries compile names)"

definition NewValidatingCodec :: "'r Boot \<Rightarrow> RawError + schemas" where
  "NewValidatingCodec b =
     (case compileEntries (bt_Compile b) (map fst ByEventType) of
        Some err \<Rightarrow> Inl err | None \<Rightarrow> Inr (compiled (bt_formats b) ByEventType))"

definition NewConsumedValidator :: "'r Boot \<Rightarrow> RawError + schemas" where
  "NewConsumedValidator b =
     (case compileEntries (bt_Compile b) (map fst Consumed) of
        Some err \<Rightarrow> Inl err | None \<Rightarrow> Inr (compiled (bt_formats b) Consumed))"

definition buildSNSPublisher :: "'r Boot \<Rightarrow> procenv \<Rightarrow> string \<Rightarrow> string \<Rightarrow> RawError option" where
  "buildSNSPublisher b env region endpointURL =
     (let snsEnv = bt_LoadSNS b env;
          snsEnv = (if region \<noteq> '''' then snsEnv\<lparr>sn_Region := region\<rparr> else snsEnv);
          snsEnv = (if endpointURL \<noteq> '''' then snsEnv\<lparr>sn_EndpointURL := endpointURL\<rparr> else snsEnv)
      in bt_NewSNSPublisher b snsEnv)"

definition publishedEvents :: "string list" where
  "publishedEvents = [''DelegationStarted'', ''DelegationEnded'', ''DelegationReviewRequested'', ''DelegationEscalationRequested'']"

text \<open>The codec of the publisher: Glue when a registry is named, plain JSON otherwise.\<close>

definition glueCodec :: "'r Boot \<Rightarrow> config \<Rightarrow> Proc \<Rightarrow> (StartError, GlueCodec option, Proc) outcome" where
  "glueCodec b cfg p =
     (if cf_GlueRegistryName cfg = '''' then (Inr None, p)
      else bind_res (failing ''load AWS config'' (bt_LoadAWS b (cf_AWSRegion cfg)) p) (\<lambda>_ p.
           bind_res (from_sum (StartClient ''build Glue codec'')
               (NewGlueCodec (bt_glue b) (cf_GlueRegistryName cfg) (bt_definitions b) publishedEvents) p) (\<lambda>gc p.
             (Inr (Some gc), p))))"

definition catalogClient :: "config \<Rightarrow> Proc \<Rightarrow> (StartError, HTTPClient option, Proc) outcome" where
  "catalogClient cfg p =
     (if cf_CatalogAdminBaseURL cfg = '''' then (Inr None, p)
      else bind_res (from_sum (StartClient ''build Catalog Admin client'')
             (catalogadmin_NewHTTPClient (cf_CatalogAdminBaseURL cfg) (nanosToDuration (cf_CatalogAdminTimeout cfg))) p) (\<lambda>c p.
             (Inr (Some c), p)))"

section \<open>The server\<close>

record Server =
  sv_config :: config
  sv_metrics :: Metrics
  sv_published :: schemas
  sv_glue :: "GlueCodec option"
  sv_userProfile :: HTTPClient
  sv_orgMembership :: HTTPClient
  sv_catalogAdmin :: "HTTPClient option"
  sv_consumed :: schemas
  sv_sqs :: SQSConfigEnv

text \<open>Tracing and metrics, as both processes begin; the tracer is flushed before gincommon shuts down.\<close>

definition telemetry :: "'r Boot \<Rightarrow> string \<Rightarrow> Proc \<Rightarrow> (StartError, Metrics, Proc) outcome" where
  "telemetry b environment p =
     (let p = deferring [SignalsStopped] (emit SignalsNotified p);
          p = deferring [TracingFlushed] (deferring [TelemetryShutdown] (emit TracingStarted p))
      in case fst (Register (bt_register b) environment (bt_gin b) (None, bt_registry b)) of
           None \<Rightarrow> (Inl StartPanic, p)
         | Some m \<Rightarrow> (Inr m, emit MetricsRegistered p))"

definition storage :: "'r Boot \<Rightarrow> procenv \<Rightarrow> Proc \<Rightarrow> (StartError, unit, Proc) outcome" where
  "storage b env p =
     (let dsn = DSNFromEnv (bt_pd b) (bt_pgDSN b) env;
          migratorDSN = MigrationDSNFromEnv (bt_pd b) (bt_pgDSN b) env;
          sysDSN = SystemDSNFromEnv (bt_pd b) (bt_pgDSN b) env
      in bind_res (case Migrate b migratorDSN p of
                     (Inl (what, err), p) \<Rightarrow> (Inl (StartFailed (''run migrations: '' @ what) err), p) | (Inr u, p) \<Rightarrow> (Inr u, p)) (\<lambda>_ p.
         bind_res (openPool b AppPool ''connect app pool'' dsn p) (\<lambda>_ p.
           openPool b SysPool ''connect system pool'' (pc_DSN (SystemPoolConfig (bt_pd b) env sysDSN)) p)))"

text \<open>Events out: the schema check at enqueue, the publisher and its codec, the outbox runner.\<close>

definition publishing :: "'r Boot \<Rightarrow> procenv \<Rightarrow> config \<Rightarrow> Proc \<Rightarrow> (StartError, schemas \<times> GlueCodec option, Proc) outcome" where
  "publishing b env cfg p =
     bind_res (from_sum (StartFailed ''build enqueue codec'') (NewValidatingCodec b) p) (\<lambda>published p.
     bind_res (glueCodec b cfg p) (\<lambda>glue p.
     bind_res (failing ''build SNS publisher'' (buildSNSPublisher b env (cf_AWSRegion cfg) (cf_AWSEndpointURL cfg)) p) (\<lambda>_ p.
     bind_res (failing ''build outbox runner'' (bt_NewRunner b (ensureOutboxEnv env)) p) (\<lambda>_ p.
       (Inr (published, glue), p)))))"

definition outboundClients :: "config \<Rightarrow> Proc \<Rightarrow> (StartError, HTTPClient \<times> HTTPClient \<times> HTTPClient option, Proc) outcome" where
  "outboundClients cfg p =
     bind_res (from_sum (StartClient ''build User Profile client'')
       (userprofile_NewHTTPClient (cf_UserProfileBaseURL cfg) (nanosToDuration (cf_UserProfileTimeout cfg))) p) (\<lambda>up p.
     bind_res (from_sum (StartClient ''build Org Membership client'')
       (orgmembership_NewHTTPChecker (cf_OrgMembershipBaseURL cfg) (nanosToDuration (cf_OrgMembershipTimeout cfg))) p) (\<lambda>om p.
     bind_res (catalogClient cfg p) (\<lambda>cat p.
       (Inr (up, om, cat), p))))"

text \<open>Events in: the consumed schemas and the SQS consumer of the cascade queue.\<close>

definition consuming :: "'r Boot \<Rightarrow> procenv \<Rightarrow> config \<Rightarrow> Proc \<Rightarrow> (StartError, schemas \<times> SQSConfigEnv, Proc) outcome" where
  "consuming b env cfg p =
     bind_res (from_sum (StartFailed ''build consumed-schema validator'') (NewConsumedValidator b) p) (\<lambda>consumed p.
     bind_res (failing ''load AWS config'' (bt_LoadAWS b (cf_AWSRegion cfg)) p) (\<lambda>_ p.
     let sqs = cascadeSQSEnv (bt_LoadSQS b (ensureOutboxEnv env)) (cf_CascadeQueueURL cfg) (cf_CascadeSQSConcurrency cfg)
                 (cf_AWSRegion cfg) (cf_AWSEndpointURL cfg) in
     bind_res (failing ''build cascade SQS consumer'' (bt_NewSQSConsumer b sqs) p) (\<lambda>_ p.
       (Inr (consumed, sqs), p))))"

text \<open>\<open>run\<close> up to the start of the workers.\<close>

definition server_start :: "'r Boot \<Rightarrow> procenv \<Rightarrow> Proc \<Rightarrow> (StartError, Server, Proc) outcome" where
  "server_start b env p =
     bind_res (from_sum StartConfig (loadConfig (bt_pd b) env) p) (\<lambda>cfg p.
     bind_res (telemetry b (cf_Environment cfg) p) (\<lambda>appMetrics p.
     bind_res (storage b env p) (\<lambda>_ p.
     bind_res (publishing b env cfg p) (\<lambda>(published, glue) p.
     bind_res (outboundClients cfg p) (\<lambda>(up, om, cat) p.
     let p = deferring [ValkeyClosed] (emit (ValkeyOpened (cf_ValkeyAddr cfg)) p) in
     bind_res (consuming b env cfg p) (\<lambda>(consumed, sqs) p.
       (Inr \<lparr>sv_config = cfg, sv_metrics = appMetrics, sv_published = published, sv_glue = glue, sv_userProfile = up,
             sv_orgMembership = om, sv_catalogAdmin = cat, sv_consumed = consumed, sv_sqs = sqs\<rparr>, p)))))))"

text \<open>The collaborators the services, the handlers and the consumer are built from.\<close>

definition serverEnv :: "'r Boot \<Rightarrow> Net \<Rightarrow> Server \<Rightarrow> env \<Rightarrow> env" where
  "serverEnv b net sv e =
     with_schemas (bt_formats b)
       ((with_clients net (sv_userProfile sv) (sv_orgMembership sv) (sv_catalogAdmin sv) e)
          \<lparr>hasIdempotency := True, hasCache := True, hasMetrics := True, hasPublisher := True\<rparr>)"

section \<open>The workers\<close>

text \<open>
  The errgroup: a worker that returns an error (wrapped with a text, if any) cancels the others; the first error is what
  \<open>Wait\<close> answers. \<open>Start\<close> of the outbox runner and of the SQS consumer may return at any time.
  The two tickers return when the group is cancelled. A listener returns an error at any time, and no
  error once its server was shut down. The closer waits for the cancellation and then closes, in
  order; an error of a close is logged.
\<close>

record Group =
  gr_running :: "Worker \<Rightarrow> bool"
  gr_cancelled :: bool
  gr_err :: "StartError option"
  gr_closed :: nat   \<comment> \<open>how many of \<open>closings\<close> were done\<close>
  gr_log :: "Effect list"

definition closings :: "Effect list" where
  "closings = [HTTPServerShutdown, MetricsServerShutdown, OutboxRunnerStopped, CascadeConsumerStopped]"

definition newGroup :: Group where
  "newGroup = \<lparr>gr_running = (\<lambda>_. True), gr_cancelled = False, gr_err = None, gr_closed = 0, gr_log = []\<rparr>"

definition returned :: "Worker \<Rightarrow> StartError option \<Rightarrow> Group \<Rightarrow> Group" where
  "returned k r g =
     g\<lparr>gr_running := (gr_running g)(k := False),
       gr_cancelled := gr_cancelled g \<or> r \<noteq> None,
       gr_err := (case gr_err g of None \<Rightarrow> r | Some err \<Rightarrow> Some err),
       gr_log := gr_log g @ [WorkerReturned k r]\<rparr>"

definition serverOf :: "Worker \<Rightarrow> Effect" where
  "serverOf k = (if k = HTTPListener then HTTPServerShutdown else MetricsServerShutdown)"

inductive group_step :: "Group \<Rightarrow> Group \<Rightarrow> bool" where
  signalled: "\<not> gr_cancelled g \<Longrightarrow> group_step g (g\<lparr>gr_cancelled := True\<rparr>)"
| library_returns: "k \<in> {OutboxRunner, CascadeSQSConsumer} \<Longrightarrow> gr_running g k
    \<Longrightarrow> group_step g (returned k (map_option (StartFailed '''') r) g)"
| ticker_returns: "k \<in> {GaugeExporter, OutboxPruner} \<Longrightarrow> gr_running g k \<Longrightarrow> gr_cancelled g \<Longrightarrow> group_step g (returned k None g)"
| listener_fails: "k \<in> {HTTPListener, MetricsListener} \<Longrightarrow> gr_running g k
    \<Longrightarrow> group_step g (returned k (Some (StartFailed (if k = HTTPListener then ''http server'' else ''metrics server'') err)) g)"
| listener_closed: "k \<in> {HTTPListener, MetricsListener} \<Longrightarrow> gr_running g k \<Longrightarrow> serverOf k \<in> set (take (gr_closed g) closings)
    \<Longrightarrow> group_step g (returned k None g)"
| closes: "gr_running g Closer \<Longrightarrow> gr_cancelled g \<Longrightarrow> gr_closed g < length closings
    \<Longrightarrow> group_step g (g\<lparr>gr_closed := Suc (gr_closed g), gr_log := gr_log g @ [closings ! gr_closed g]\<rparr>)"
| closer_returns: "gr_running g Closer \<Longrightarrow> gr_closed g = length closings \<Longrightarrow> group_step g (returned Closer None g)"

abbreviation group_steps :: "Group \<Rightarrow> Group \<Rightarrow> bool" where
  "group_steps \<equiv> group_step\<^sup>*\<^sup>*"

definition allReturned :: "Group \<Rightarrow> bool" where
  "allReturned g \<longleftrightarrow> (\<forall>k. \<not> gr_running g k)"

section \<open>Whole runs of the server\<close>

datatype Exit = Finished "StartError option" | Crashed

text \<open>
  A failed start returns its error; a panic unwinds the same way and then crashes. The ticker of the
  pruner panics in its goroutine when its interval is not positive, which ends the process at
  once, without the defers.
\<close>

inductive server_run :: "'r Boot \<Rightarrow> procenv \<Rightarrow> Exit \<Rightarrow> Effect list \<Rightarrow> bool" for b env where
  not_started: "server_start b env newProc = (Inl err, p)
    \<Longrightarrow> server_run b env (if err = StartPanic then Crashed else Finished (Some err)) (pr_trace p @ unwound p)"
| served: "server_start b env newProc = (Inr sv, p) \<Longrightarrow> group_steps newGroup g \<Longrightarrow> allReturned g
    \<Longrightarrow> 0 < sint (cf_OutboxPruneInterval (sv_config sv))
    \<Longrightarrow> server_run b env (Finished (gr_err g)) (pr_trace p @ gr_log g @ unwound p)"
| pruner_panics: "server_start b env newProc = (Inr sv, p) \<Longrightarrow> group_steps newGroup g \<Longrightarrow> gr_running g OutboxPruner
    \<Longrightarrow> sint (cf_OutboxPruneInterval (sv_config sv)) \<le> 0
    \<Longrightarrow> server_run b env Crashed (pr_trace p @ gr_log g)"

fun exitCode :: "Exit \<Rightarrow> int" where
  "exitCode (Finished None) = 0" | "exitCode (Finished (Some _)) = 1" | "exitCode Crashed = 2"

section \<open>The reconciler process\<close>

text \<open>
  One deferred function drains the pools: the app pool, and the system pool if it was opened by
  then. A pool that was drained is closed.
\<close>

definition alsoDeferred :: "Effect list \<Rightarrow> Proc \<Rightarrow> Proc" where
  "alsoDeferred xs p = p\<lparr>pr_defers := (hd (pr_defers p) @ xs) # tl (pr_defers p)\<rparr>"

definition reconciler_start :: "'r Boot \<Rightarrow> procenv \<Rightarrow> string \<Rightarrow> Proc \<Rightarrow> (StartError, HTTPClient \<times> JobContext, Proc) outcome" where
  "reconciler_start b env job p =
     (if job = '''' then (Inl (StartRun JobRequired), p)
      else bind_res (telemetry b (resolveAppEnv env) p) (\<lambda>_ p.
        let p = deferring [SpanEnded] (emit SpanStarted p);
            dsn = DSNFromEnv (bt_pd b) (bt_pgDSN b) env;
            sysDSN = pc_DSN (SystemPoolConfig (bt_pd b) env (SystemDSNFromEnv (bt_pd b) (bt_pgDSN b) env)) in
        bind_res (failing ''connect app pool'' (bt_NewPool b AppPool dsn) p) (\<lambda>_ p.
        let p = deferring [PoolDrained AppPool] (emit (PoolOpened AppPool dsn) p) in
        if \<not> isDevLikeEnvironment (resolveAppEnv env) \<and> env ''SYSTEM_DATABASE_URL'' = ''''
        then (Inl (StartRun (RunConfig (Refused ''SYSTEM_DATABASE_URL''))), p)
        else bind_res (failing ''connect system pool'' (bt_NewPool b SysPool sysDSN) p) (\<lambda>_ p.
        let p = alsoDeferred [PoolDrained SysPool] (emit (PoolOpened SysPool sysDSN) p) in
        bind_res (from_sum (\<lambda>err. StartRun (RunConfig err)) (getEnvDurationMS env ''USER_PROFILE_TIMEOUT_MS'' 3000000000) p) (\<lambda>timeout p.
        bind_res (from_sum (StartClient ''build User Profile client'')
          (userprofile_NewHTTPClient (env ''USER_PROFILE_BASE_URL'') (nanosToDuration timeout)) p) (\<lambda>up p.
        bind_res (from_sum (StartFailed ''build enqueue codec'') (NewValidatingCodec b) p) (\<lambda>_ p.
        bind_res (from_sum (\<lambda>err. StartRun (RunConfig err)) (cronContext env) p) (\<lambda>jc p.
          (Inr (up, jc), p)))))))))"

definition reconciler_process :: "'r Boot \<Rightarrow> Net \<Rightarrow> procenv \<Rightarrow> string \<Rightarrow> env \<Rightarrow> world \<Rightarrow> (StartError, JobResult, world) outcome \<times> Effect list" where
  "reconciler_process b net env job e w =
     (case reconciler_start b env job newProc of
        (Inl err, p) \<Rightarrow> ((Inl err, w), pr_trace p @ unwound p)
      | (Inr (up, jc), p) \<Rightarrow>
          (case cronJob job of
             None \<Rightarrow> (Inl (StartRun (UnknownJob job)), w)
           | Some f \<Rightarrow>
               (case f (cronEnv (bt_formats b) net up e) jc requestContext w of
                  (Inl err, w) \<Rightarrow> (Inl (StartRun (RunFailed err)), w)
                | (Inr res, w) \<Rightarrow> (Inr res, w)),
           pr_trace p @ unwound p))"

section \<open>Everything acquired is released\<close>

datatype Resource = Signals | Tracing | Span | PoolRes pool | ValkeyRes

fun acquires :: "Effect \<Rightarrow> Resource option" where
  "acquires SignalsNotified = Some Signals" | "acquires TracingStarted = Some Tracing" | "acquires SpanStarted = Some Span"
| "acquires (PoolOpened k _) = Some (PoolRes k)" | "acquires (ValkeyOpened _) = Some ValkeyRes" | "acquires _ = None"

fun releases :: "Effect \<Rightarrow> Resource option" where
  "releases SignalsStopped = Some Signals" | "releases TelemetryShutdown = Some Tracing" | "releases SpanEnded = Some Span"
| "releases (PoolDrained k) = Some (PoolRes k)" | "releases ValkeyClosed = Some ValkeyRes" | "releases _ = None"

abbreviation acquired :: "Effect list \<Rightarrow> Resource list" where "acquired \<equiv> List.map_filter acquires"
abbreviation released :: "Effect list \<Rightarrow> Resource list" where "released \<equiv> List.map_filter releases"

text \<open>What a defer undoes; the pending defers of a start-up undo what was done, the latest first.\<close>

fun undoOf :: "Effect \<Rightarrow> Effect list" where
  "undoOf SignalsNotified = [SignalsStopped]"
| "undoOf TracingStarted = [TracingFlushed, TelemetryShutdown]"
| "undoOf (PoolOpened k _) = [PoolDrained k, PoolClosed k]"
| "undoOf (ValkeyOpened _) = [ValkeyClosed]"
| "undoOf _ = []"

definition undo :: "Effect list \<Rightarrow> Effect list" where
  "undo tr = concat (rev (map undoOf tr))"

text \<open>The place of an effect in the life of a server.\<close>

fun stage :: "Effect \<Rightarrow> nat" where
  "stage SignalsNotified = 0" | "stage TracingStarted = 1" | "stage MetricsRegistered = 2"
| "stage (OutboxSchemaApplied _) = 3" | "stage (DomainMigrated _) = 4"
| "stage (PoolOpened k _) = (if k = AppPool then 5 else 6)" | "stage (ValkeyOpened _) = 7"
| "stage (WorkerReturned _ _) = 8"
| "stage HTTPServerShutdown = 9" | "stage MetricsServerShutdown = 10" | "stage OutboxRunnerStopped = 11"
| "stage CascadeConsumerStopped = 12" | "stage ValkeyClosed = 13"
| "stage (PoolDrained k) = (if k = SysPool then 14 else 16)" | "stage (PoolClosed k) = (if k = SysPool then 15 else 17)"
| "stage TracingFlushed = 18" | "stage TelemetryShutdown = 19" | "stage SignalsStopped = 20"
| "stage SpanStarted = 21" | "stage SpanEnded = 22"

lemma map_filter_append [simp]: "List.map_filter f (xs @ ys) = List.map_filter f xs @ List.map_filter f ys"
  by (simp add: List.map_filter_def)

lemma map_filter_simps [simp]:
  "List.map_filter f [] = []"
  "List.map_filter f (x # xs) = (case f x of None \<Rightarrow> List.map_filter f xs | Some y \<Rightarrow> y # List.map_filter f xs)"
  by (simp_all add: List.map_filter_def split: option.split)

lemma proc_simps [simp]:
  "pr_trace (emit x p) = pr_trace p @ [x]" "unwound (emit x p) = unwound p"
  "pr_trace (deferring xs p) = pr_trace p" "unwound (deferring xs p) = xs @ unwound p"
  "pr_trace newProc = []" "unwound newProc = []"
  by (simp_all add: emit_def deferring_def unwound_def newProc_def)

lemma undo_simps [simp]: "undo [] = []" "undo [x] = undoOf x" "undo (xs @ [x]) = undoOf x @ undo xs"
  by (simp_all add: undo_def)

text \<open>A property of the outcome of a chain, from its steps.\<close>

lemma post_bind:
  assumes "\<And>err s. q = (Inl err, s) \<Longrightarrow> P (Inl err, s)" "\<And>a s. q = (Inr a, s) \<Longrightarrow> P (k a s)"
  shows "P (bind_res q k)"
  by (cases rule: bind_res_cases [of q k]) (use assms in auto)

lemma post_pure:
  assumes "snd q = p" "\<And>err. P (Inl err, p)" "\<And>a. P (k a p)"
  shows "P (bind_res q k)"
  by (rule post_bind) (use assms in auto)

lemma bind_pure: "snd q = p \<Longrightarrow> (\<And>a. snd (k a p) = p) \<Longrightarrow> snd (bind_res q k) = p"
  by (rule post_pure [where P = "\<lambda>q. snd q = p"]) auto

lemma pure_checks: "snd (failing what x p) = p" "snd (from_sum f y p) = p"
  by (auto simp: failing_def from_sum_def check_res_def split: option.split sum.split)

lemma pure_steps:
  "snd (glueCodec b cfg p) = p" "snd (catalogClient cfg p) = p"
  "snd (publishing b env cfg p) = p" "snd (outboundClients cfg p) = p" "snd (consuming b env cfg p) = p"
proof -
  show g: "snd (glueCodec b cfg p) = p" "snd (catalogClient cfg p) = p" for p
    unfolding glueCodec_def catalogClient_def by (auto intro!: bind_pure simp: pure_checks)
  show "snd (publishing b env cfg p) = p" "snd (outboundClients cfg p) = p" "snd (consuming b env cfg p) = p"
    unfolding publishing_def outboundClients_def consuming_def Let_def by (auto intro!: bind_pure simp: pure_checks g)
qed

lemma from_sum_iff [res_iff]:
  "from_sum f x s = (Inr a, s') \<longleftrightarrow> x = Inr a \<and> s' = s"
  "from_sum f x s = (Inl err, s') \<longleftrightarrow> (\<exists>y. x = Inl y \<and> err = f y \<and> s' = s)"
  by (auto simp: from_sum_def split: sum.splits)

text \<open>Where a start-up may stop: after the first \<open>n\<close> effects, with what undoes them pending.\<close>

definition reached :: "nat \<Rightarrow> Proc \<Rightarrow> bool" where
  "reached n p \<longleftrightarrow> map stage (pr_trace p) = [0..<n] \<and> unwound p = undo (pr_trace p)"

definition started :: "(StartError, 'a, Proc) outcome \<Rightarrow> bool" where
  "started q \<longleftrightarrow> (\<exists>n \<le> 8. reached n (snd q) \<and> (\<not> isl (fst q) \<longrightarrow> n = 8))"

lemma started_failed: "reached n p \<Longrightarrow> n \<le> 8 \<Longrightarrow> started (Inl err, p)"
  by (auto simp: started_def)

lemma started_pure:
  assumes "reached n p" "snd q = p" "n \<le> 8" "\<And>a. started (k a p)"
  shows "started (bind_res q k)"
  by (rule post_pure [OF assms(2)]) (use assms started_failed in auto)

lemma reached_do:
  assumes "reached n p" "pr_trace p' = pr_trace p @ [x]" "unwound p' = undoOf x @ unwound p" "stage x = n" "m = Suc n"
  shows "reached m p'"
  using assms by (simp add: reached_def)

lemma telemetry_reached:
  assumes "telemetry b environment newProc = (r, p)"
  shows "reached (if isl r then 2 else 3) p"
  using assms by (auto simp: telemetry_def Let_def reached_def undo_def upt_rec split: option.splits)

lemma Migrate_reached:
  assumes "Migrate b dsn p = (r, p')" "reached 3 p"
  shows "\<exists>n. 3 \<le> n \<and> n \<le> 5 \<and> reached n p' \<and> (\<not> isl r \<longrightarrow> n = 5)"
proof (cases "bt_ApplySchema b dsn")
  case (Some err)
  with assms show ?thesis by (auto simp: Migrate_def)
next
  case None
  let ?p = "emit (OutboxSchemaApplied dsn) p"
  have p: "reached 4 ?p" by (rule reached_do [OF assms(2), of _ "OutboxSchemaApplied dsn"]) simp_all
  have "reached 5 (emit (DomainMigrated dsn) ?p)" by (rule reached_do [OF p, of _ "DomainMigrated dsn"]) simp_all
  with None assms(1) p show ?thesis
    by (cases "bt_Up b dsn") (auto simp: Migrate_def RunMigrations_def intro: exI [of _ 4] exI [of _ 5])
qed

lemma openPool_reached:
  assumes "openPool b k what dsn p = (r, p')" "reached n p" "stage (PoolOpened k dsn) = n"
  shows "reached (if isl r then n else Suc n) p'"
proof (cases "bt_NewPool b k dsn")
  case (Some err)
  with assms show ?thesis by (auto simp: openPool_def failing_def)
next
  case None
  with assms(1) have "r = Inr ()" "p' = deferring [PoolDrained k] (deferring [PoolClosed k] (emit (PoolOpened k dsn) p))"
    by (auto simp: openPool_def failing_def)
  then show ?thesis by (auto intro!: reached_do [OF assms(2) _ _ assms(3)])
qed

lemma storage_reached:
  assumes "storage b env p = (r, p')" "reached 3 p"
  shows "\<exists>n. 3 \<le> n \<and> n \<le> 7 \<and> reached n p' \<and> (\<not> isl r \<longrightarrow> n = 7)"
proof -
  let ?P = "\<lambda>q. \<exists>n. 3 \<le> n \<and> n \<le> 7 \<and> reached n (snd q) \<and> (\<not> isl (fst q) \<longrightarrow> n = 7)"
  have "?P (storage b env p)"
    unfolding storage_def Let_def
  proof (rule post_bind, goal_cases)
    case (1 err s)
    then show ?case using Migrate_reached [OF _ assms(2)] by (fastforce split: prod.splits sum.splits)
  next
    case (2 u p1)
    then have p1: "reached 5 p1" using Migrate_reached [OF _ assms(2)] by (fastforce split: prod.splits sum.splits)
    show ?case
    proof (rule post_bind, goal_cases)
      case (1 err s)
      from openPool_reached [OF 1 p1] show ?case by (intro exI [of _ 5]) simp
    next
      case (2 u p2)
      have p2: "reached 6 p2" using openPool_reached [OF 2 p1] by simp
      show ?case
      proof (cases "openPool b SysPool ''connect system pool'' (pc_DSN (SystemPoolConfig (bt_pd b) env (SystemDSNFromEnv (bt_pd b) (bt_pgDSN b) env))) p2")
        case (Pair r3 p3)
        from openPool_reached [OF Pair p2] Pair show ?thesis by (intro exI [of _ "if isl r3 then 6 else 7"]) auto
      qed
    qed
  qed
  with assms(1) show ?thesis by simp
qed

lemma server_start_started: "started (server_start b env newProc)"
  unfolding server_start_def Let_def case_prod_beta
proof (rule post_pure [OF pure_checks(2)], goal_cases)
  case (1 err)
  have "reached 0 newProc" by (simp add: reached_def)
  then show ?case by (rule started_failed) simp
next
  case (2 cfg)
  show ?case
  proof (rule post_bind, goal_cases)
    case (1 err p)
    from telemetry_reached [OF 1] show ?case by (simp add: started_failed)
  next
    case (2 m p)
    from telemetry_reached [OF 2] have p: "reached 3 p" by simp
    show ?case
    proof (rule post_bind, goal_cases)
      case (1 err p1)
      from storage_reached [OF 1 p] show ?case by (auto intro: started_failed)
    next
      case (2 u p1)
      from storage_reached [OF 2 p] have p1: "reached 7 p1" by simp
      let ?p2 = "deferring [ValkeyClosed] (emit (ValkeyOpened (cf_ValkeyAddr cfg)) p1)"
      have p2: "reached 8 ?p2" by (rule reached_do [OF p1, of _ "ValkeyOpened (cf_ValkeyAddr cfg)"]) simp_all
      have last: "started (Inr sv, ?p2)" for sv :: Server using p2 by (auto simp: started_def)
      show ?case
        by (intro started_pure [OF p1] started_pure [OF p2] pure_steps last) simp_all
    qed
  qed
qed

text \<open>What was undone is what was acquired, in the opposite order.\<close>

lemma released_undo: "map stage tr = [0..<n] \<Longrightarrow> n \<le> 8 \<Longrightarrow> released tr = [] \<and> acquired (undo tr) = [] \<and> released (undo tr) = rev (acquired tr)"
proof (induction tr arbitrary: n rule: rev_induct)
  case (snoc x tr)
  from snoc.prems(1) have n: "n = Suc (length tr)" by (metis length_append_singleton length_map length_upt minus_nat.diff_0)
  then have "map stage tr = [0..<length tr]" "stage x = length tr" using snoc.prems(1) by simp_all
  with snoc n show ?case by (cases x) (auto split: if_splits)
qed simp

section \<open>The group stops, in order\<close>

definition firstError :: "Effect list \<Rightarrow> StartError option" where
  "firstError log = (case List.map_filter (\<lambda>x. case x of WorkerReturned _ r \<Rightarrow> r | _ \<Rightarrow> None) log of [] \<Rightarrow> None | err # _ \<Rightarrow> Some err)"

definition group_inv :: "Group \<Rightarrow> bool" where
  "group_inv g \<longleftrightarrow>
     gr_closed g \<le> length closings
     \<and> filter (\<lambda>x. x \<in> set closings) (gr_log g) = take (gr_closed g) closings
     \<and> (\<forall>k. gr_running g k \<longleftrightarrow> (\<forall>r. WorkerReturned k r \<notin> set (gr_log g)))
     \<and> (\<not> gr_running g Closer \<longrightarrow> gr_closed g = length closings)
     \<and> (gr_closed g > 0 \<longrightarrow> gr_cancelled g)
     \<and> (gr_err g \<noteq> None \<longrightarrow> gr_cancelled g)
     \<and> gr_err g = firstError (gr_log g)"

lemma firstError_snoc:
  "firstError (log @ [WorkerReturned k r]) = (case firstError log of None \<Rightarrow> r | Some err \<Rightarrow> Some err)"
  "x \<in> set closings \<Longrightarrow> firstError (log @ [x]) = firstError log"
  by (auto simp: firstError_def closings_def split: list.split option.split)

lemma returned_simps [simp]:
  "gr_running (returned k r g) = (gr_running g)(k := False)" "gr_cancelled (returned k r g) = (gr_cancelled g \<or> r \<noteq> None)"
  "gr_err (returned k r g) = (case gr_err g of None \<Rightarrow> r | Some err \<Rightarrow> Some err)" "gr_closed (returned k r g) = gr_closed g"
  "gr_log (returned k r g) = gr_log g @ [WorkerReturned k r]"
  by (simp_all add: returned_def)

lemma inv_returned:
  assumes "group_inv g" "gr_running g k" "k = Closer \<longrightarrow> gr_closed g = length closings"
  shows "group_inv (returned k r g)"
proof -
  have "WorkerReturned k r \<notin> set closings" by (simp add: closings_def)
  with assms show ?thesis
    by (auto simp: group_inv_def firstError_snoc split: option.splits)
qed

lemma group_step_inv: "group_step g g' \<Longrightarrow> group_inv g \<Longrightarrow> group_inv g'"
proof (induction rule: group_step.induct)
  case (closes g)
  then have "closings ! gr_closed g \<in> set closings" "\<forall>k r. WorkerReturned k r \<noteq> closings ! gr_closed g"
    by (auto simp: closings_def nth_Cons split: nat.splits)
  with closes show ?case
    by (auto simp: group_inv_def firstError_snoc take_Suc_conv_app_nth)
next
  case (signalled g)
  let ?h = "g\<lparr>gr_cancelled := True\<rparr>"
  have "gr_closed ?h = gr_closed g" "gr_log ?h = gr_log g" "gr_running ?h = gr_running g" "gr_err ?h = gr_err g" "gr_cancelled ?h"
    by simp_all
  with signalled(2) show ?case unfolding group_inv_def by metis
qed (auto intro!: inv_returned)

lemma group_steps_inv: "group_steps newGroup g \<Longrightarrow> group_inv g"
proof (induction rule: rtranclp_induct)
  case base
  show ?case by (simp add: group_inv_def newGroup_def firstError_def)
qed (rule group_step_inv)

text \<open>Every step uses something up.\<close>

definition workers :: "Worker list" where
  "workers = [OutboxRunner, CascadeSQSConsumer, GaugeExporter, OutboxPruner, HTTPListener, MetricsListener, Closer]"

lemma workers_all: "k \<in> set workers"
  by (cases k) (simp_all add: workers_def)

definition left :: "Group \<Rightarrow> nat" where
  "left g = length (filter (gr_running g) workers) + (length closings - gr_closed g) + (if gr_cancelled g then 0 else 1)"

lemma left_returned: "gr_running g k \<Longrightarrow> left (returned k r g) < left g"
proof -
  assume k: "gr_running g k"
  have "length (filter ((gr_running g)(k := False)) workers) < length (filter (gr_running g) workers)"
  proof -
    have "filter ((gr_running g)(k := False)) workers = filter (\<lambda>x. x \<noteq> k) (filter (gr_running g) workers)"
      unfolding filter_filter by (rule filter_cong) auto
    also have "length \<dots> < length (filter (gr_running g) workers)"
      by (rule length_filter_less [of k]) (use k workers_all in auto)
    finally show ?thesis .
  qed
  then show ?thesis by (auto simp: left_def)
qed

lemma left_decreases: "group_step g g' \<Longrightarrow> left g' < left g"
  by (induction rule: group_step.induct) (auto simp: left_returned, auto simp: left_def)

text \<open>Once cancelled, the group is never stuck before its last worker has returned.\<close>

lemma group_progress:
  assumes "group_inv g" "gr_cancelled g" "\<not> allReturned g"
  shows "\<exists>g'. group_step g g'"
proof (cases "gr_running g Closer")
  case True
  then show ?thesis
    using assms(1,2) closes closer_returns by (metis group_inv_def le_neq_implies_less)
next
  case False
  with assms(1) have all: "gr_closed g = length closings" by (simp add: group_inv_def)
  from assms(3) obtain k where k: "gr_running g k" by (auto simp: allReturned_def)
  have "serverOf k \<in> set closings" for k by (simp add: serverOf_def closings_def)
  with k all assms(2) False show ?thesis
    using library_returns [of k g] ticker_returns [of k g] listener_closed [of k g] by (cases k) auto
qed

lemma cancelled_stays: "group_steps g g' \<Longrightarrow> gr_cancelled g \<Longrightarrow> gr_cancelled g'"
proof (induction rule: rtranclp_induct)
  case (step g' g'')
  then show ?case by (auto elim!: group_step.cases)
qed simp

lemma no_infinite_run: "\<not> (\<forall>i. group_step (f i) (f (Suc i)))"
proof
  assume "\<forall>i. group_step (f i) (f (Suc i))"
  then have "\<forall>i. (f (Suc i), f i) \<in> measure left" by (simp add: left_decreases)
  then show False using wf_iff_no_infinite_down_chain [of "measure left"] by blast
qed

section \<open>A started server\<close>

text \<open>The effects of a start-up that went through, in order.\<close>

definition startTrace :: "'r Boot \<Rightarrow> procenv \<Rightarrow> config \<Rightarrow> Effect list" where
  "startTrace b env cfg =
     [SignalsNotified, TracingStarted, MetricsRegistered,
      OutboxSchemaApplied (MigrationDSNFromEnv (bt_pd b) (bt_pgDSN b) env), DomainMigrated (MigrationDSNFromEnv (bt_pd b) (bt_pgDSN b) env),
      PoolOpened AppPool (DSNFromEnv (bt_pd b) (bt_pgDSN b) env),
      PoolOpened SysPool (pc_DSN (SystemPoolConfig (bt_pd b) env (SystemDSNFromEnv (bt_pd b) (bt_pgDSN b) env))),
      ValkeyOpened (cf_ValkeyAddr cfg)]"

lemma telemetry_Inr [res_iff]:
  "telemetry b environment p = (Inr m, p') \<longleftrightarrow>
     fst (Register (bt_register b) environment (bt_gin b) (None, bt_registry b)) = Some m
     \<and> p' = emit MetricsRegistered (deferring [TracingFlushed] (deferring [TelemetryShutdown]
              (emit TracingStarted (deferring [SignalsStopped] (emit SignalsNotified p)))))"
  by (auto simp: telemetry_def Let_def split: option.splits)

lemma openPool_Inr [res_iff]:
  "openPool b k what dsn p = (Inr u, p') \<longleftrightarrow>
     bt_NewPool b k dsn = None \<and> p' = deferring [PoolDrained k] (deferring [PoolClosed k] (emit (PoolOpened k dsn) p))"
  by (auto simp: openPool_def failing_def res_iff)

lemma storage_trace:
  assumes "storage b env p = (Inr u, p')"
  shows "pr_trace p' = pr_trace p
    @ [OutboxSchemaApplied (MigrationDSNFromEnv (bt_pd b) (bt_pgDSN b) env), DomainMigrated (MigrationDSNFromEnv (bt_pd b) (bt_pgDSN b) env),
       PoolOpened AppPool (DSNFromEnv (bt_pd b) (bt_pgDSN b) env),
       PoolOpened SysPool (pc_DSN (SystemPoolConfig (bt_pd b) env (SystemDSNFromEnv (bt_pd b) (bt_pgDSN b) env)))]"
  using assms unfolding storage_def Let_def
  by (auto simp: res_iff Migrate_def RunMigrations_def split: prod.splits sum.splits option.splits)

lemma failing_Inr [res_iff]: "failing what x p = (Inr u, p') \<longleftrightarrow> x = None \<and> p' = p"
  by (auto simp: failing_def res_iff)

lemma glueCodec_Inr [res_iff]:
  "glueCodec b cfg p = (Inr g, p') \<longleftrightarrow>
     p' = p \<and> (if cf_GlueRegistryName cfg = '''' then g = None
       else bt_LoadAWS b (cf_AWSRegion cfg) = None
         \<and> (\<exists>gc. NewGlueCodec (bt_glue b) (cf_GlueRegistryName cfg) (bt_definitions b) publishedEvents = Inr gc \<and> g = Some gc))"
  by (auto simp: glueCodec_def res_iff)

lemma catalogClient_Inr [res_iff]:
  "catalogClient cfg p = (Inr c, p') \<longleftrightarrow>
     p' = p \<and> (if cf_CatalogAdminBaseURL cfg = '''' then c = None
       else (\<exists>h. catalogadmin_NewHTTPClient (cf_CatalogAdminBaseURL cfg) (nanosToDuration (cf_CatalogAdminTimeout cfg)) = Inr h \<and> c = Some h))"
  by (auto simp: catalogClient_def res_iff)

lemma cascade_queue: "sq_QueueURL (cascadeSQSEnv base url n region endpoint) = url"
  by (simp add: cascadeSQSEnv_def Let_def)

lemma compiled_Inr [res_iff]:
  "NewValidatingCodec b = Inr s \<longleftrightarrow> compileEntries (bt_Compile b) (map fst ByEventType) = None \<and> s = compiled (bt_formats b) ByEventType"
  "NewConsumedValidator b = Inr s \<longleftrightarrow> compileEntries (bt_Compile b) (map fst Consumed) = None \<and> s = compiled (bt_formats b) Consumed"
  by (auto simp: NewValidatingCodec_def NewConsumedValidator_def split: option.splits)

lemma server_started:
  assumes "server_start b env newProc = (Inr sv, p)"
  shows "loadConfig (bt_pd b) env = Inr (sv_config sv)" "pr_trace p = startTrace b env (sv_config sv)"
    "sv_published sv = compiled (bt_formats b) ByEventType" "sv_consumed sv = compiled (bt_formats b) Consumed"
    "glueCodec b (sv_config sv) p = (Inr (sv_glue sv), p)" "catalogClient (sv_config sv) p = (Inr (sv_catalogAdmin sv), p)"
    "sq_QueueURL (sv_sqs sv) = cf_CascadeQueueURL (sv_config sv)"
proof -
  from assms obtain cfg p1 p2 where
    "loadConfig (bt_pd b) env = Inr cfg" "\<exists>m. telemetry b (cf_Environment cfg) newProc = (Inr m, p1)" "\<exists>u. storage b env p1 = (Inr u, p2)"
    "glueCodec b cfg p2 = (Inr (sv_glue sv), p2)" "catalogClient cfg p2 = (Inr (sv_catalogAdmin sv), p2)"
    "p = deferring [ValkeyClosed] (emit (ValkeyOpened (cf_ValkeyAddr cfg)) p2)" "sv_config sv = cfg"
    "sv_published sv = compiled (bt_formats b) ByEventType" "sv_consumed sv = compiled (bt_formats b) Consumed"
    "sq_QueueURL (sv_sqs sv) = cf_CascadeQueueURL cfg"
    unfolding server_start_def publishing_def outboundClients_def consuming_def Let_def case_prod_beta res_iff by (auto simp: cascade_queue)
  then show "loadConfig (bt_pd b) env = Inr (sv_config sv)" "pr_trace p = startTrace b env (sv_config sv)"
    "sv_published sv = compiled (bt_formats b) ByEventType" "sv_consumed sv = compiled (bt_formats b) Consumed"
    "glueCodec b (sv_config sv) p = (Inr (sv_glue sv), p)" "catalogClient (sv_config sv) p = (Inr (sv_catalogAdmin sv), p)"
    "sq_QueueURL (sv_sqs sv) = cf_CascadeQueueURL (sv_config sv)"
    by (auto simp: res_iff startTrace_def dest!: storage_trace)
qed

text \<open>Every event the service publishes is of a type the publisher's codec resolved at start-up.\<close>

lemma published_types: "eventType d \<in> set publishedEvents"
  by (cases d) (simp_all add: publishedEvents_def)

lemma published_compiled: "compiled fmt ByEventType (eventType d) \<noteq> None"
  by (cases d) (simp_all add: compiled_def ByEventType_def)

lemma readConfig_names:
  assumes "readConfig pd env = Inr cfg"
  shows "cf_CascadeQueueURL cfg = env ''CASCADE_QUEUE_URL'' \<and> cf_CatalogAdminBaseURL cfg = env ''CATALOG_ADMIN_BASE_URL''
    \<and> cf_GlueRegistryName cfg = env ''GLUE_REGISTRY_NAME''"
  using assms unfolding readConfig_def res_iff by (elim exE conjE) (drule sym, simp)

lemma loadConfig_names:
  assumes "loadConfig pd env = Inr cfg"
  shows "cf_CascadeQueueURL cfg = env ''CASCADE_QUEUE_URL''" "env ''CASCADE_QUEUE_URL'' \<noteq> ''''"
    "cf_CatalogAdminBaseURL cfg = env ''CATALOG_ADMIN_BASE_URL''" "cf_GlueRegistryName cfg = env ''GLUE_REGISTRY_NAME''"
proof -
  from assms have read: "readConfig pd env = Inr cfg" and queue: "cf_CascadeQueueURL cfg \<noteq> ''''"
    unfolding loadConfig_def res_iff by auto
  from readConfig_names [OF read] queue
  show "cf_CascadeQueueURL cfg = env ''CASCADE_QUEUE_URL''" "env ''CASCADE_QUEUE_URL'' \<noteq> ''''"
    "cf_CatalogAdminBaseURL cfg = env ''CATALOG_ADMIN_BASE_URL''" "cf_GlueRegistryName cfg = env ''GLUE_REGISTRY_NAME''" by auto
qed

section \<open>Whole runs\<close>

lemma server_run_life:
  assumes "server_run b env exit tr" "\<And>cfg. loadConfig (bt_pd b) env = Inr cfg \<Longrightarrow> 0 < sint (cf_OutboxPruneInterval cfg)"
  obtains n start served where "tr = start @ served @ undo start" "map stage start = [0..<n]" "n \<le> 8"
    "served = [] \<and> exit \<noteq> Finished None
     \<or> n = 8 \<and> filter (\<lambda>x. x \<in> set closings) served = closings \<and> (\<forall>k. \<exists>r. WorkerReturned k r \<in> set served)
       \<and> exit = Finished (firstError served)"
  using assms(1)
proof cases
  case (not_started err p)
  with server_start_started [of b env] obtain n where "n \<le> 8" "reached n p" by (auto simp: started_def)
  with not_started that [of "pr_trace p" "[]" n] show ?thesis by (auto simp: reached_def)
next
  case (served sv p g)
  with server_start_started [of b env] have p: "reached 8 p" by (auto simp: started_def)
  have "group_inv g" by (rule group_steps_inv [OF served(4)])
  with served(5) have "filter (\<lambda>x. x \<in> set closings) (gr_log g) = closings" "\<forall>k. \<exists>r. WorkerReturned k r \<in> set (gr_log g)"
    "gr_err g = firstError (gr_log g)"
    by (auto simp: group_inv_def allReturned_def)
  with served p that [of "pr_trace p" "gr_log g" 8] show ?thesis by (auto simp: reached_def)
next
  case (pruner_panics sv p g)
  have "loadConfig (bt_pd b) env = Inr (sv_config sv)" by (rule server_started(1) [OF pruner_panics(3)])
  with assms(2) pruner_panics(6) show ?thesis by fastforce
qed

section \<open>Whole runs of the reconciler\<close>

definition balanced :: "Proc \<Rightarrow> bool" where
  "balanced p \<longleftrightarrow> mset (released (pr_trace p @ unwound p)) = mset (acquired (pr_trace p @ unwound p))"

lemma balanced_pure:
  assumes "balanced p" "snd q = p" "\<And>a. balanced (snd (k a p))"
  shows "balanced (snd (bind_res q k))"
  by (rule post_pure [OF assms(2), where P = "\<lambda>q. balanced (snd q)"]) (use assms in auto)

lemma balanced_does:
  assumes "balanced p"
  shows "balanced (deferring [SpanEnded] (emit SpanStarted p))"
    "balanced (deferring [PoolDrained k] (emit (PoolOpened k dsn) p))"
    "pr_defers p \<noteq> [] \<Longrightarrow> balanced (alsoDeferred [PoolDrained k] (emit (PoolOpened k dsn) p))"
  using assms by (auto simp: balanced_def emit_def deferring_def alsoDeferred_def unwound_def neq_Nil_conv)

lemma telemetry_balanced: "balanced (snd (telemetry b environment newProc))"
  by (auto simp: telemetry_def Let_def balanced_def split: option.split)

lemma reconciler_balanced: "balanced (snd (reconciler_start b env job newProc))"
proof (cases "job = ''''")
  case True
  then show ?thesis by (simp add: reconciler_start_def balanced_def)
next
  case False
  obtain r p where tel: "telemetry b (resolveAppEnv env) newProc = (r, p)" by (rule prod.exhaust)
  with telemetry_balanced [of b "resolveAppEnv env"] have p: "balanced p" by simp
  let ?dsn = "DSNFromEnv (bt_pd b) (bt_pgDSN b) env"
  let ?sys = "pc_DSN (SystemPoolConfig (bt_pd b) env (SystemDSNFromEnv (bt_pd b) (bt_pgDSN b) env))"
  let ?p1 = "deferring [SpanEnded] (emit SpanStarted p)"
  let ?p2 = "deferring [PoolDrained AppPool] (emit (PoolOpened AppPool ?dsn) ?p1)"
  let ?p3 = "alsoDeferred [PoolDrained SysPool] (emit (PoolOpened SysPool ?sys) ?p2)"
  have p1: "balanced ?p1" by (rule balanced_does(1) [OF p])
  have p2: "balanced ?p2" by (rule balanced_does(2) [OF p1])
  have p3: "balanced ?p3" by (rule balanced_does(3) [OF p2]) (simp add: deferring_def)
  have rest: "balanced (snd (if c then (Inl err, ?p2) else q))" if "balanced (snd q)" for c err and q :: "(StartError, HTTPClient \<times> JobContext, Proc) outcome"
    using that p2 by simp
  have "balanced (snd (reconciler_start b env job newProc))" if "r = Inr m" for m
    unfolding reconciler_start_def Let_def if_not_P [OF False] tel that bind_res_simps
    by (intro balanced_pure [OF p1] balanced_pure [OF p2] balanced_pure [OF p3] rest pure_checks) (simp_all add: p3)
  moreover have "balanced (snd (reconciler_start b env job newProc))" if "r = Inl err" for err
    using False tel that p by (simp add: reconciler_start_def)
  ultimately show ?thesis by (cases r) auto
qed

text \<open>What a process run answers, told apart as in the run without its start-up effects.\<close>

lemma reconciler_process_run:
  assumes "fst (Register (bt_register b) (resolveAppEnv env) (bt_gin b) (None, bt_registry b)) \<noteq> None"
    and "compileEntries (bt_Compile b) (map fst ByEventType) = None"
    and "poolUp = (\<lambda>k. k = ''app'' \<and> bt_NewPool b AppPool (DSNFromEnv (bt_pd b) (bt_pgDSN b) env) = None
      \<or> k = ''system'' \<and> bt_NewPool b SysPool (pc_DSN (SystemPoolConfig (bt_pd b) env (SystemDSNFromEnv (bt_pd b) (bt_pgDSN b) env))) = None)"
  shows "snd (fst (reconciler_process b net env job e w)) = snd (reconciler_run (bt_formats b) net poolUp env job e w)"
    "fst (fst (reconciler_process b net env job e w)) = Inr res \<longleftrightarrow> fst (reconciler_run (bt_formats b) net poolUp env job e w) = Inr res"
proof -
  obtain m p where tel: "telemetry b (resolveAppEnv env) newProc = (Inr m, p)"
    using assms(1) by (auto simp: telemetry_def Let_def split: option.splits)
  have codec: "NewValidatingCodec b = Inr (compiled (bt_formats b) ByEventType)" using assms(2) by (simp add: NewValidatingCodec_def)
  have "(\<exists>err p' err'. reconciler_start b env job newProc = (Inl err, p') \<and> reconciler_setup poolUp env job = Inl err')
    \<or> (\<exists>x p'. reconciler_start b env job newProc = (Inr x, p') \<and> reconciler_setup poolUp env job = Inr x)"
    unfolding reconciler_start_def reconciler_setup_def assms(3)
    by (auto simp: tel codec failing_def check_res_def from_sum_def Let_def split: sum.splits option.splits)
  then show "snd (fst (reconciler_process b net env job e w)) = snd (reconciler_run (bt_formats b) net poolUp env job e w)"
    "fst (fst (reconciler_process b net env job e w)) = Inr res \<longleftrightarrow> fst (reconciler_run (bt_formats b) net poolUp env job e w) = Inr res"
    by (auto simp: reconciler_process_def reconciler_run_def split: option.splits prod.splits sum.splits)
qed

section \<open>A process that starts and stops\<close>

text \<open>From any state the group can be brought to its end: a signal, then the workers one by one.\<close>

lemma group_can_stop:
  assumes "group_inv g" "gr_cancelled g"
  shows "\<exists>g'. group_steps g g' \<and> allReturned g'"
  using assms
proof (induction "left g" arbitrary: g rule: less_induct)
  case less
  show ?case
  proof (cases "allReturned g")
    case False
    with group_progress [OF less.prems] obtain g1 where s: "group_step g g1" by blast
    moreover from s less.prems have "group_inv g1" "gr_cancelled g1"
      by (simp_all add: group_step_inv cancelled_stays [of g g1] r_into_rtranclp)
    ultimately obtain g' where "group_steps g1 g'" "allReturned g'" using less.hyps [OF left_decreases [OF s]] by blast
    with s show ?thesis by (meson converse_rtranclp_into_rtranclp)
  qed auto
qed

definition demo_vars :: procenv where
  "demo_vars key =
     (if key \<in> {''USER_PROFILE_BASE_URL'', ''ORG_MEMBERSHIP_BASE_URL''} then ''http://peer''
      else if key = ''GLUE_REGISTRY_NAME'' then ''iam''
      else appEnvOnly key)"

definition demo_boot :: "string list Boot" where
  "demo_boot = \<lparr>bt_pd = (\<lambda>_. None), bt_pgDSN = (\<lambda>env. env ''DATABASE_URL''),
     bt_register = (\<lambda>f r. (if op_Name (fa_Opts f) \<in> set r then Some (plainError ''duplicate'') else None, op_Name (fa_Opts f) # r)),
     bt_gin = [], bt_registry = [], bt_ApplySchema = (\<lambda>_. None), bt_Up = (\<lambda>_. None), bt_NewPool = (\<lambda>_ _. None),
     bt_formats = (\<lambda>_ _. True), bt_Compile = (\<lambda>_. None), bt_LoadAWS = (\<lambda>_. None),
     bt_glue = \<lparr>rg_wellFormed = (\<lambda>_. True),
       rg_GetSchemaByDefinition = (\<lambda>_ _ name _. Inr \<lparr>gr_SchemaVersionId = Some name, gr_Status = ''AVAILABLE''\<rparr>)\<rparr>,
     bt_definitions = (\<lambda>name. if name \<in> set publishedEvents then Some ''{}'' else None),
     bt_LoadSNS = (\<lambda>env. \<lparr>sn_TopicARN = env ''SNS_TOPIC_ARN'', sn_Region = '''', sn_EndpointURL = ''''\<rparr>),
     bt_NewSNSPublisher = (\<lambda>_. None), bt_NewRunner = (\<lambda>_. None),
     bt_LoadSQS = (\<lambda>env. \<lparr>sq_QueueURL = '''', sq_Concurrency = 1, sq_Region = '''', sq_EndpointURL = ''''\<rparr>),
     bt_NewSQSConsumer = (\<lambda>_. None)\<rparr>"

lemma compileEntries_ok: "(\<And>name. compile name = None) \<Longrightarrow> compileEntries compile names = None"
  by (induction names) simp_all

lemma demo_registers: "fst (Register (bt_register demo_boot) environment (bt_gin demo_boot) (None, bt_registry demo_boot)) = Some initialMetrics"
proof -
  obtain reg' where "registerAll (bt_register demo_boot) (families environment (bt_gin demo_boot)) (bt_registry demo_boot) = (None, reg')"
    using registerAll_ok [of set "bt_register demo_boot", OF _ family_names_distinct, of environment "bt_gin demo_boot" "bt_registry demo_boot"]
    by (auto simp: demo_boot_def)
  then show ?thesis by (simp add: Register_def Let_def registerOn_eq)
qed

lemma demo_config:
  obtains cfg where "loadConfig (bt_pd demo_boot) demo_vars = Inr cfg" "cf_OutboxPruneInterval cfg = 86400000000000"
    "cf_GlueRegistryName cfg = ''iam''" "cf_CatalogAdminBaseURL cfg = ''''" "cf_UserProfileBaseURL cfg = ''http://peer''"
    "cf_OrgMembershipBaseURL cfg = ''http://peer''"
proof -
  have "\<exists>cfg. readConfig (bt_pd demo_boot) demo_vars = Inr cfg \<and> cf_OutboxPruneInterval cfg = 86400000000000
      \<and> cf_GlueRegistryName cfg = ''iam'' \<and> cf_CatalogAdminBaseURL cfg = '''' \<and> cf_UserProfileBaseURL cfg = ''http://peer''
      \<and> cf_OrgMembershipBaseURL cfg = ''http://peer'' \<and> cf_Environment cfg = ''development'' \<and> cf_SNSTopicARN cfg = ''x'' \<and> cf_CascadeQueueURL cfg = ''x''"
    by (simp add: readConfig_def getEnvDuration_def getEnvDurationSeconds_def getEnvDurationStr_def getEnvBool_def
        getEnvInt_def getParsed_def getEnv_def demo_vars_def appEnvOnly_def demo_boot_def)
  then show ?thesis
    using that by (auto simp: loadConfig_def refuse_if_def demo_vars_def appEnvOnly_def)
qed

lemma demo_glue: "\<exists>gc. NewGlueCodec (bt_glue demo_boot) ''iam'' (bt_definitions demo_boot) publishedEvents = Inr gc"
  by (simp add: NewGlueCodec_def publishedEvents_def fetchVersionID_def registeredDefinition_def demo_boot_def)

lemma demo_url: "TrimSpace ''http://peer'' \<noteq> []"
proof -
  have "runes ''http://peer'' = map (\<lambda>c. (of_char c, [c])) ''http://peer''" by (rule runes_ascii) simp
  then show ?thesis by (simp add: TrimSpace_def Let_def IsSpace_def)
qed

lemma demo_starts:
  obtains sv p where "server_start demo_boot demo_vars newProc = (Inr sv, p)" "cf_OutboxPruneInterval (sv_config sv) = 86400000000000"
    "cf_GlueRegistryName (sv_config sv) = ''iam''" "sv_catalogAdmin sv = None"
proof -
  obtain cfg where cfg: "loadConfig (bt_pd demo_boot) demo_vars = Inr cfg" "cf_OutboxPruneInterval cfg = 86400000000000"
    "cf_GlueRegistryName cfg = ''iam''" "cf_CatalogAdminBaseURL cfg = ''''" "cf_UserProfileBaseURL cfg = ''http://peer''"
    "cf_OrgMembershipBaseURL cfg = ''http://peer''" by (rule demo_config)
  obtain gc where gc: "NewGlueCodec (bt_glue demo_boot) ''iam'' (bt_definitions demo_boot) publishedEvents = Inr gc" using demo_glue by blast
  have tel: "fst (telemetry demo_boot environment p) = Inr initialMetrics" for environment p
    by (simp add: telemetry_def Let_def demo_registers)
  have stor: "fst (storage demo_boot demo_vars p) = Inr ()" for p
    by (simp add: storage_def Let_def Migrate_def RunMigrations_def openPool_def failing_def demo_boot_def)
  have cl: "\<exists>h. userprofile_NewHTTPClient ''http://peer'' t = Inr h" "\<exists>h. orgmembership_NewHTTPChecker ''http://peer'' t = Inr h" for t
    using demo_url by (simp_all add: userprofile_NewHTTPClient_def orgmembership_NewHTTPChecker_def newHTTPClient_def Let_def)
  have co: "NewValidatingCodec demo_boot = Inr (compiled (bt_formats demo_boot) ByEventType)"
    "NewConsumedValidator demo_boot = Inr (compiled (bt_formats demo_boot) Consumed)"
    by (simp_all add: NewValidatingCodec_def NewConsumedValidator_def compileEntries_ok demo_boot_def)
  have ans: "buildSNSPublisher demo_boot env r u = None" "bt_NewRunner demo_boot env = None" "bt_LoadAWS demo_boot r = None"
    "bt_NewSQSConsumer demo_boot s = None" for env r u s
    by (simp_all add: buildSNSPublisher_def Let_def demo_boot_def)
  have "\<exists>sv p. server_start demo_boot demo_vars newProc = (Inr sv, p) \<and> sv_config sv = cfg \<and> sv_catalogAdmin sv = None"
  proof -
    obtain p1 where p1: "telemetry demo_boot (cf_Environment cfg) newProc = (Inr initialMetrics, p1)" using tel by (metis prod.collapse)
    obtain p2 where p2: "storage demo_boot demo_vars p1 = (Inr (), p2)" using stor by (metis prod.collapse)
    obtain h h' where h: "userprofile_NewHTTPClient ''http://peer'' (nanosToDuration (cf_UserProfileTimeout cfg)) = Inr h"
      "orgmembership_NewHTTPChecker ''http://peer'' (nanosToDuration (cf_OrgMembershipTimeout cfg)) = Inr h'" using cl by blast
    show ?thesis
      unfolding server_start_def publishing_def outboundClients_def consuming_def Let_def
      by (simp add: cfg p1 p2 h co ans gc glueCodec_def catalogClient_def from_sum_def failing_def)
  qed
  with cfg that show ?thesis by auto
qed

lemma demo_runs:
  obtains exit tr where "server_run demo_boot demo_vars exit tr"
proof -
  obtain sv p where s: "server_start demo_boot demo_vars newProc = (Inr sv, p)" "cf_OutboxPruneInterval (sv_config sv) = 86400000000000"
    by (rule demo_starts)
  let ?g = "newGroup\<lparr>gr_cancelled := True\<rparr>"
  have step: "group_step newGroup ?g" by (rule signalled) (simp add: newGroup_def)
  then have "group_inv ?g" by (intro group_steps_inv r_into_rtranclp)
  then obtain g' where "group_steps ?g g'" "allReturned g'" using group_can_stop [of ?g] by auto
  with step have "group_steps newGroup g'" by (meson converse_rtranclp_into_rtranclp)
  from served [OF s(1) this \<open>allReturned g'\<close>] s(2) that show ?thesis by simp
qed

end
