(* ===== verification/Docs.thy ===== *)
theory Docs
  imports Codec Http "HOL-Library.AList" "HOL-Library.Multiset" "HOL-Library.List_Lexorder" "HOL-Library.Char_ord"
begin

text \<open>
  The page of the event catalogue (\<^verbatim>\<open>src/internal/adapter/inbound/http/asyncapi.go\<close>). The YAML library is outside: a
  decoded specification and raw nodes come in as values. A page is a list of pieces, so that what was
  escaped can be told from what was not; the long static parts (styles, scripts) are parameters. A Go map is an association list, its
  first entry of a key counts. Sorting a table's keys in place changes the cached specification, so rendering
  answers the components as well.
\<close>

section \<open>Text\<close>

definition escapeHTMLChar :: "char \<Rightarrow> string" where
  "escapeHTMLChar c =
     (if c = CHR ''&'' then ''&amp;'' else if c = CHR 0x27 then ''&#39;'' else if c = CHR ''<'' then ''&lt;''
      else if c = CHR ''>'' then ''&gt;'' else if c = CHR 0x22 then ''&#34;'' else [c])"

definition EscapeString :: "string \<Rightarrow> string" where
  "EscapeString s = concat (map escapeHTMLChar s)"

definition TrimPrefix :: "string \<Rightarrow> string \<Rightarrow> string" where
  "TrimPrefix s pre = (if take (length pre) s = pre then drop (length pre) s else s)"

text \<open>Letter case: ASCII letters here, the Unicode tables of every other rune are \<open>up\<close> and \<open>low\<close>.\<close>

definition ToUpper :: "(nat \<Rightarrow> string) \<Rightarrow> string \<Rightarrow> string" where
  "ToUpper up s = concat (map (\<lambda>(r, _). if r < 0x80 then [if 97 \<le> r \<and> r \<le> 122 then char_of (r - 32) else char_of r] else up r) (runes s))"

definition ToLower :: "(nat \<Rightarrow> string) \<Rightarrow> string \<Rightarrow> string" where
  "ToLower low s = concat (map (\<lambda>(r, _). if r < 0x80 then [if 65 \<le> r \<and> r \<le> 90 then char_of (r + 32) else char_of r] else low r) (runes s))"

definition ellipsis :: string where "ellipsis = [CHR 0xE2, CHR 0x80, CHR 0xA6]"

definition nl :: string where "nl = [CHR 0x0A]"

section \<open>The specification\<close>

datatype YKind = NoKind | DocumentNode | SequenceNode | MappingNode | ScalarNode | AliasNode

datatype YNode = YNode (yn_Kind: YKind) (yn_Value: string) (yn_Content: "YNode list")

text \<open>An example is any value; a number comes with its JSON text.\<close>

datatype Example = ENull | EBool bool | ENum string | EStr string | EArr "Example list" | EObj "(string \<times> Example) list"

datatype asyncProp = AsyncProp
  (ap_Type: string) (ap_Format: string) (ap_Desc: string) (ap_Example: "Example option") (ap_Enum: "string list")
  (ap_Ref: string) (ap_Items: "asyncProp option")

datatype asyncSchema = AsyncSchema
  (as_Type: string) (as_Required: "string list") (as_Properties: "(string \<times> asyncProp) list") (as_PropertyOrder: "string list")
  (as_AllOf: "asyncSchema list") (as_Ref: string)

record asyncMessage =
  am_Title :: string
  am_Summary :: string
  am_Tags :: "string list"   \<comment> \<open>their references\<close>
  am_Payload :: string
  am_Bindings :: YNode

record asyncComponents =
  co_Messages :: "(string \<times> asyncMessage) list"
  co_Schemas :: "(string \<times> asyncSchema) list"

record asyncSpec =
  sp_AsyncAPI :: string
  sp_Title :: string
  sp_Version :: string
  sp_Desc :: string
  sp_Servers :: YNode
  sp_Comps :: asyncComponents

definition isConsumed :: "asyncMessage \<Rightarrow> bool" where
  "isConsumed m \<longleftrightarrow> (\<exists>ref \<in> set (am_Tags m). strHasSuffix ref ''/consumed'')"

text \<open>The pairs of a mapping node.\<close>

fun pairsOf :: "'a list \<Rightarrow> ('a \<times> 'a) list" where
  "pairsOf (k # v # rest) = (k, v) # pairsOf rest"
| "pairsOf _ = []"

text \<open>The declared order of the properties, taken from the node after the plain decode.\<close>

definition UnmarshalYAML :: "YNode \<Rightarrow> asyncSchema \<Rightarrow> asyncSchema" where
  "UnmarshalYAML value s =
     (case find (\<lambda>(k, _). yn_Value k = ''properties'') (pairsOf (yn_Content value)) of
        None \<Rightarrow> s
      | Some (_, props) \<Rightarrow>
          if yn_Kind props = MappingNode
          then AsyncSchema (as_Type s) (as_Required s) (as_Properties s) (map (yn_Value \<circ> fst) (pairsOf (yn_Content props))) (as_AllOf s) (as_Ref s)
          else s)"

definition sortedKeys :: "(string \<times> 'a) list \<Rightarrow> string list" where
  "sortedKeys m = sort (remdups (map fst m))"

definition splitMessagesByDirection :: "(string \<times> asyncMessage) list \<Rightarrow> string list \<times> string list" where
  "splitMessagesByDirection messages =
     (let consumed = (\<lambda>name. isConsumed (the (map_of messages name)))
      in (filter (Not \<circ> consumed) (sortedKeys messages), filter consumed (sortedKeys messages)))"

section \<open>Resolving schemas\<close>

definition schemasPrefix :: string where "schemasPrefix = ''#/components/schemas/''"

definition mergeOrder :: "string list \<Rightarrow> string list \<Rightarrow> string list" where
  "mergeOrder = fold (\<lambda>k order. if k \<in> set order then order else order @ [k])"

text \<open>One more sub-schema: its properties replace those of the same name.\<close>

definition mergeInto :: "asyncSchema \<Rightarrow> asyncSchema \<Rightarrow> asyncSchema" where
  "mergeInto resolved merged =
     AsyncSchema '''' (as_Required merged @ as_Required resolved) (as_Properties resolved @ as_Properties merged)
       (mergeOrder (as_PropertyOrder resolved) (as_PropertyOrder merged)) [] ''''"

definition noSchema :: asyncSchema where "noSchema = AsyncSchema '''' [] [] [] [] ''''"

text \<open>
  The fuel bounds the depth of the recursion, which a cycle of references never ends. With the schema comes the component whose
  slices it shares, if any: a merged schema has slices of its own.
\<close>

fun resolveSchema :: "nat \<Rightarrow> (string \<times> asyncSchema) list \<Rightarrow> string option \<Rightarrow> asyncSchema \<Rightarrow> (asyncSchema \<times> string option) option" where
  "resolveSchema 0 schemas here sc = None"
| "resolveSchema (Suc n) schemas here sc =
     (if as_AllOf sc = []
      then let name = TrimPrefix (as_Ref sc) schemasPrefix
           in case (if as_Ref sc \<noteq> '''' then map_of schemas name else None) of
                Some sub \<Rightarrow> resolveSchema n schemas (Some name) sub
              | None \<Rightarrow> Some (sc, here)
      else case those (map (resolveSchema n schemas None) (as_AllOf sc)) of
             None \<Rightarrow> None
           | Some subs \<Rightarrow> Some (fold mergeInto (map fst subs) noSchema, None))"

section \<open>Pieces of a page\<close>

datatype Piece = Markup string | Escaped string | Verbatim string

fun pieceText :: "Piece \<Rightarrow> string" where
  "pieceText (Markup s) = s" | "pieceText (Escaped s) = EscapeString s" | "pieceText (Verbatim s) = s"

definition propType :: "asyncProp \<Rightarrow> string" where
  "propType p =
     (if ap_Ref p \<noteq> '''' then TrimPrefix (ap_Ref p) schemasPrefix
      else let t = ap_Type p;
               t = (if ap_Format p \<noteq> '''' then t @ ''('' @ ap_Format p @ '')'' else t)
           in case ap_Items p of
                None \<Rightarrow> t
              | Some items \<Rightarrow>
                  if ap_Type p \<noteq> ''array'' then t
                  else if ap_Type items \<noteq> '''' then ''array<'' @ ap_Type items @ ''>''
                  else if ap_Ref items \<noteq> '''' then ''array<'' @ TrimPrefix (ap_Ref items) schemasPrefix @ ''>''
                  else t)"

definition schemaLink :: "string \<Rightarrow> Piece list" where
  "schemaLink name =
     [Markup ''<a href=\"#schema-'', Escaped name, Markup ''\" class=\"prop-type schema-link\">'', Escaped name, Markup ''</a>'']"

definition typeHTML :: "asyncProp \<Rightarrow> Piece list" where
  "typeHTML p =
     (if ap_Ref p \<noteq> '''' then schemaLink (TrimPrefix (ap_Ref p) schemasPrefix)
      else case ap_Items p of
             Some items \<Rightarrow>
               if ap_Type p = ''array'' \<and> ap_Ref items \<noteq> ''''
               then [Markup ''<span class=\"prop-type\">array&lt;''] @ schemaLink (TrimPrefix (ap_Ref items) schemasPrefix) @ [Markup ''&gt;</span>'']
               else [Markup ''<span class=\"prop-type\">'', Escaped (propType p), Markup ''</span>'']
           | None \<Rightarrow> [Markup ''<span class=\"prop-type\">'', Escaped (propType p), Markup ''</span>''])"

fun walkYAML :: "YNode \<Rightarrow> string list \<Rightarrow> string" where
  "walkYAML node [] = ''''"
| "walkYAML node (target # rest) =
     (let n = (if yn_Kind node = DocumentNode \<and> yn_Content node \<noteq> [] then hd (yn_Content node) else node)
      in if yn_Kind n = MappingNode
         then case find (\<lambda>(k, _). yn_Value k = target) (pairsOf (yn_Content n)) of
                None \<Rightarrow> ''''
              | Some (_, v) \<Rightarrow> if rest = [] then yn_Value v else walkYAML v rest
         else '''')"

definition snsEventType :: "YNode \<Rightarrow> string" where
  "snsEventType node =
     (if yn_Kind node = NoKind then ''''
      else let v = walkYAML node [''sns'', ''messageAttributes'', ''EventType'', ''value'']
           in if v \<noteq> '''' then v else walkYAML node [''sns'', ''messageAttributes'', ''event_type'', ''value''])"

section \<open>Examples as JSON\<close>

text \<open>Strings as \<open>encoding/json\<close> writes them; a byte that is not UTF-8 becomes the replacement character.\<close>

definition jsonRune :: "nat \<times> string \<Rightarrow> string" where
  "jsonRune x =
     (let (r, bytes) = x
      in if r = 0x22 \<or> r = 0x5C then CHR 0x5C # bytes
         else if r = 0x08 then [CHR 0x5C, CHR ''b''] else if r = 0x0C then [CHR 0x5C, CHR ''f'']
         else if r = 0x0A then [CHR 0x5C, CHR ''n''] else if r = 0x0D then [CHR 0x5C, CHR ''r'']
         else if r = 0x09 then [CHR 0x5C, CHR ''t'']
         else if r < 0x20 \<or> r \<in> {0x26, 0x3C, 0x3E, 0x2028, 0x2029} \<or> r = RuneError \<and> length bytes = 1
         then [CHR 0x5C, CHR ''u''] @ hex4 r
         else bytes)"

definition jsonText :: "string \<Rightarrow> string" where
  "jsonText s = [CHR 0x22] @ concat (map jsonRune (runes s)) @ [CHR 0x22]"

definition indent :: "nat \<Rightarrow> string" where "indent n = nl @ concat (replicate n ''  '')"

fun joined :: "string \<Rightarrow> string list \<Rightarrow> string" where
  "joined sep [] = ''''" | "joined sep [x] = x" | "joined sep (x # xs) = x @ sep @ joined sep xs"

fun MarshalIndent :: "nat \<Rightarrow> Example \<Rightarrow> string" where
  "MarshalIndent n ENull = ''null''"
| "MarshalIndent n (EBool b) = (if b then ''true'' else ''false'')"
| "MarshalIndent n (ENum t) = t"
| "MarshalIndent n (EStr s) = jsonText s"
| "MarshalIndent n (EArr xs) =
     (if xs = [] then ''[]''
      else ''['' @ indent (Suc n) @ joined ('','' @ indent (Suc n)) (map (MarshalIndent (Suc n)) xs) @ indent n @ '']'')"
| "MarshalIndent n (EObj ms) =
     (if ms = [] then ''{}''
      else ''{'' @ indent (Suc n)
        @ joined ('','' @ indent (Suc n)) (map snd (sort_key fst (map (\<lambda>(k, v). (k, jsonText k @ '': '' @ MarshalIndent (Suc n) v)) ms)))
        @ indent n @ ''}'')"

section \<open>Tables of properties\<close>

definition cutAt :: "nat \<Rightarrow> string \<Rightarrow> string \<Rightarrow> string" where
  "cutAt n dots s = (if length s > n then take n s @ dots else s)"

definition declaredKeys :: "asyncSchema \<Rightarrow> string list" where
  "declaredKeys sc =
     (let keys = (if as_PropertyOrder sc = [] then sortedKeys (as_Properties sc) else as_PropertyOrder sc)
      in keys @ filter (\<lambda>k. k \<notin> set keys) (sortedKeys (as_Properties sc)))"

definition requiredFirst :: "string list \<Rightarrow> string list \<Rightarrow> string list" where
  "requiredFirst required keys = sort_key (\<lambda>k. if k \<in> set required then 0 else (1 :: nat)) keys"

definition rowKeys :: "asyncSchema \<Rightarrow> string list" where
  "rowKeys sc = requiredFirst (as_Required sc) (declaredKeys sc)"

definition zeroProp :: asyncProp where "zeroProp = AsyncProp '''' '''' '''' None [] '''' None"

definition enumPieces :: "string \<Rightarrow> string list \<Rightarrow> Piece list" where
  "enumPieces start vals =
     (if vals = [] then []
      else [Markup start] @ concat (map (\<lambda>v. [Markup ''<span class=\"enum-val\">'', Escaped v, Markup ''</span>'']) vals) @ [Markup ''</div>''])"

definition propRow :: "string \<Rightarrow> asyncSchema \<Rightarrow> string \<Rightarrow> Piece list" where
  "propRow schemaID sc k =
     (let v = (case map_of (as_Properties sc) k of Some v \<Rightarrow> v | None \<Rightarrow> zeroProp);
          rowID = (if schemaID = '''' then []
                   else [Markup '' id=\"field--'', Escaped schemaID, Markup ''--'', Escaped k, Markup ''\"'']);
          req = (if k \<in> set (as_Required sc) then [Markup ''<span class=\"prop-req\">required</span>''] else []);
          itemEnum = (case ap_Items v of None \<Rightarrow> []
                      | Some items \<Rightarrow> enumPieces (''<div style=\"margin-top:4px;font-size:.72rem;color:var(--muted)\">values:</div><div class=\"enum-list\">'') (ap_Enum items));
          example = (case ap_Example v of None \<Rightarrow> []
                     | Some x \<Rightarrow> [Markup (''<pre style=\"background:#0d0d0d;border:1px solid rgba(132,38,176,.25);padding:6px 8px;border-radius:6px;''
                                     @ ''font-size:.72rem;margin-top:6px;color:#e879f9;overflow-x:auto;white-space:pre-wrap\">''),
                                  Escaped (MarshalIndent 0 x), Markup ''</pre>''])
      in [Markup ''<tr''] @ rowID @ [Markup (''>'' @ nl @ ''<td onclick=\"copyText('' @ [CHR 0x27]), Escaped k,
            Markup ([CHR 0x27] @ '')\" title=\"Click to copy\" style=\"cursor:pointer\"><span class=\"prop-name\">''), Escaped k,
            Markup (''</span></td>'' @ nl @ ''<td>'')] @ typeHTML v
         @ [Markup (''</td>'' @ nl @ ''<td>'')] @ req @ [Markup (''</td>'' @ nl @ ''<td><span class=\"prop-desc\">''),
            Escaped (cutAt 200 ellipsis (TrimSpace (ap_Desc v))), Markup ''</span>'']
         @ enumPieces ''<div class=\"enum-list\">'' (ap_Enum v) @ itemEnum @ example
         @ [Markup (''</td>'' @ nl @ ''</tr>'')])"

definition renderPropsTable :: "asyncSchema \<Rightarrow> string \<Rightarrow> Piece list" where
  "renderPropsTable sc schemaID =
     (if as_Properties sc = [] then [Markup ''<p style=\"color:var(--muted);font-size:.8rem\">No properties.</p>'']
      else [Markup (''<table class=\"prop-table\"><thead><tr>'' @ nl @ ''<th>Field</th><th>Type</th><th>Required</th><th>Description</th>''
              @ nl @ ''</tr></thead><tbody>'')]
         @ concat (map (propRow schemaID sc) (rowKeys sc)) @ [Markup ''</tbody></table>''])"

text \<open>
  \<open>sort.SliceStable\<close> sorts the declared order in place, unless it was empty or had to grow; for a schema
  that is a component's own, the array is the component's.
\<close>

definition ordered :: "string list \<Rightarrow> asyncSchema \<Rightarrow> asyncSchema" where
  "ordered keys sc = AsyncSchema (as_Type sc) (as_Required sc) (as_Properties sc) keys (as_AllOf sc) (as_Ref sc)"

definition sortedInPlace :: "asyncSchema \<Rightarrow> bool" where
  "sortedInPlace sc \<longleftrightarrow> as_Properties sc \<noteq> [] \<and> as_PropertyOrder sc \<noteq> [] \<and> declaredKeys sc = as_PropertyOrder sc"

fun tableSorts :: "asyncSchema \<times> string option \<Rightarrow> (string \<times> asyncSchema) list \<Rightarrow> (string \<times> asyncSchema) list" where
  "tableSorts (sc, None) schemas = schemas"
| "tableSorts (sc, Some own) schemas =
     (if sortedInPlace sc then AList.update own (ordered (rowKeys sc) sc) schemas else schemas)"

section \<open>Sections of the page\<close>

fun serverField :: "string \<times> string \<times> string \<Rightarrow> YNode \<times> YNode \<Rightarrow> string \<times> string \<times> string" where
  "serverField (host, proto, desc) (k, v) =
     (if yn_Value k = ''host'' then (yn_Value v, proto, desc)
      else if yn_Value k = ''protocol'' then (host, yn_Value v, desc)
      else if yn_Value k = ''description'' then (host, proto, cutAt 200 ellipsis (yn_Value v))
      else (host, proto, desc))"

definition serverItem :: "(nat \<Rightarrow> string) \<Rightarrow> YNode \<times> YNode \<Rightarrow> Piece list" where
  "serverItem up x =
     (let (name, val) = x;
          (host, proto, desc) = foldl serverField ('''', '''', '''') (pairsOf (yn_Content val))
      in [Markup (''<div class=\"server-item\">'' @ nl @ ''  <div><span class=\"server-name\">''), Escaped (yn_Value name),
          Markup (''</span></div>'' @ nl @ ''  <div><span class=\"server-proto\">''), Escaped (ToUpper up proto),
          Markup ''</span> <span class=\"server-host\">'', Escaped host,
          Markup (''</span></div>'' @ nl @ ''  <div class=\"server-desc\">''), Escaped (TrimSpace desc), Markup (''</div>'' @ nl @ ''</div>'')])"

definition renderServers :: "(nat \<Rightarrow> string) \<Rightarrow> YNode \<Rightarrow> Piece list" where
  "renderServers up node =
     (if yn_Kind node = NoKind then []
      else [Markup ''<div class=\"section\" id=\"servers\"><div class=\"section-title\">Servers</div>'', Markup ''<div class=\"card\">'']
         @ (if yn_Kind node = MappingNode then concat (map (serverItem up) (pairsOf (yn_Content node))) else [])
         @ [Markup ''</div></div>''])"

text \<open>The arrow of a card's button.\<close>

definition toggleButton :: string where
  "toggleButton = ''<button class=\"toggle-btn\" type=\"button\" tabindex=\"-1\" aria-hidden=\"true\">'' @ [CHR 0xE2, CHR 0x96, CHR 0xB8] @ ''</button>''"

definition messageHead :: "string \<Rightarrow> asyncMessage \<Rightarrow> Piece list" where
  "messageHead name msg =
     (let title = (if am_Title msg = '''' then name else am_Title msg);
          summary = TrimSpace (am_Summary msg);
          evt = snsEventType (am_Bindings msg);
          (badgeClass, badgeLabel) = (if isConsumed msg then (''m-recv'', ''RECEIVE'') else (''m-send'', ''SEND''))
      in [Markup ''<div class=\"card\" id=\"msg-'', Verbatim name,
          Markup (''\">'' @ nl @ ''<div class=\"card-header\">'' @ nl @ ''  <span class=\"badge '' @ badgeClass @ ''\">'' @ badgeLabel @ ''</span>''
            @ nl @ ''  <span class=\"card-title\">''), Escaped title, Markup (''</span>'' @ nl @ ''  '')]
         @ (if evt = '''' then [] else [Markup ''<span class=\"sns-attr\">event_type: '', Escaped evt, Markup ''</span>''])
         @ [Markup (nl @ ''  '' @ toggleButton @ nl @ ''</div>'' @ nl @ ''<div class=\"card-body\" style=\"display:none\">'' @ nl)]
         @ (if summary = '''' then []
            else [Markup ''<p class=\"card-summary\" style=\"margin-bottom:.75rem\">'', Escaped summary, Markup ''</p>'']))"

definition renderMessage :: "nat \<Rightarrow> string \<Rightarrow> asyncMessage \<Rightarrow> (string \<times> asyncSchema) list \<Rightarrow> (Piece list \<times> (string \<times> asyncSchema) list) option" where
  "renderMessage n name msg schemas =
     (let payloadRef = TrimPrefix (am_Payload msg) schemasPrefix
      in case (if payloadRef = '''' then None else map_of schemas payloadRef) of
           None \<Rightarrow> Some (messageHead name msg @ [Markup ''</div></div>''], schemas)
         | Some sc \<Rightarrow>
             (case resolveSchema n schemas (Some payloadRef) sc of
                None \<Rightarrow> None
              | Some (r, own) \<Rightarrow>
                  Some (messageHead name msg
                        @ [Markup ''<div style=\"font-size:.78rem;color:var(--muted);margin-bottom:.5rem\">Payload: <span style=\"color:var(--code);font-family:monospace\">'',
                           Escaped payloadRef, Markup ''</span></div>'']
                        @ renderPropsTable r payloadRef @ [Markup ''</div></div>''],
                        tableSorts (r, own) schemas)))"

definition renderSchema :: "nat \<Rightarrow> string \<Rightarrow> asyncSchema \<Rightarrow> (string \<times> asyncSchema) list \<Rightarrow> (Piece list \<times> (string \<times> asyncSchema) list) option" where
  "renderSchema n name sc schemas =
     (case resolveSchema n schemas (Some name) sc of
        None \<Rightarrow> None
      | Some (r, own) \<Rightarrow>
          Some ([Markup ''<div class=\"card\" id=\"schema-'', Verbatim name,
                 Markup (''\">'' @ nl @ ''<div class=\"card-header\"><span class=\"card-title\" style=\"font-family:monospace\">''), Escaped name,
                 Markup (''</span>'' @ toggleButton @ ''</div>'' @ nl @ ''<div class=\"card-body\" style=\"display:none\">'')]
                @ renderPropsTable r name @ [Markup ''</div></div>''],
                tableSorts (r, own) schemas))"

fun renderEach :: "('a \<Rightarrow> 's \<Rightarrow> (Piece list \<times> 's) option) \<Rightarrow> 'a list \<Rightarrow> 's \<Rightarrow> (Piece list \<times> 's) option" where
  "renderEach f [] s = Some ([], s)"
| "renderEach f (x # xs) s =
     (case f x s of
        None \<Rightarrow> None
      | Some (out, s) \<Rightarrow> map_option (\<lambda>(rest, s). (out @ rest, s)) (renderEach f xs s))"

section \<open>The page\<close>

record Static =
  st_Head :: string   \<comment> \<open>from the doctype to the title\<close>
  st_Style :: string   \<comment> \<open>from the title to the body\<close>
  st_Search :: string
  st_Script :: string   \<comment> \<open>from the end of the layout\<close>
  st_Upper :: "nat \<Rightarrow> string"
  st_Lower :: "nat \<Rightarrow> string"

definition envColor :: "Static \<Rightarrow> string \<Rightarrow> string" where
  "envColor st env =
     (let l = ToLower (st_Lower st) env
      in if l \<in> {''prod'', ''production''} then ''#ec4b3c'' else if l \<in> {''staging'', ''stage''} then ''#f59e0b'' else ''#22c55e'')"

definition envLabel :: "Static \<Rightarrow> string \<Rightarrow> string" where
  "envLabel st env = (let l = ToUpper (st_Upper st) env in if l = '''' then ''DEV'' else l)"

definition pageHeader :: "Static \<Rightarrow> asyncSpec \<Rightarrow> string \<Rightarrow> Piece list" where
  "pageHeader st s env =
     [Markup (''<div class=\"header\">'' @ nl @ ''  <div>'' @ nl @ ''    <h1>''), Escaped (sp_Title s),
      Markup (''</h1>'' @ nl @ ''    <p>Events on iam.delegation.events + the delegation-cascade-q consumer contract</p>'' @ nl @ ''  </div>'' @ nl
        @ ''  <span class=\"badge badge-version\">v''), Escaped (sp_Version s),
      Markup (''</span>'' @ nl @ ''  <span class=\"badge\" style=\"background:linear-gradient(to right,#bd0283,#ec4b3c);color:#fff\">AsyncAPI ''),
      Escaped (sp_AsyncAPI s),
      Markup (''</span>'' @ nl @ ''  <span class=\"badge\" style=\"background:'' @ envColor st env @ '';color:#fff;margin-left:auto\">''),
      Escaped (envLabel st env),
      Markup (''</span>'' @ nl @ ''  <button id=\"theme-btn\" class=\"theme-toggle\" onclick=\"toggleTheme()\" title=\"Toggle light/dark mode\">''
        @ [CHR 0xF0, CHR 0x9F, CHR 0x8C, CHR 0x99] @ ''</button>'' @ nl @ ''</div>'' @ nl)]"

definition sidebarLinks :: "string \<Rightarrow> string \<Rightarrow> string list \<Rightarrow> Piece list" where
  "sidebarLinks anchor label names =
     [Markup (''<div class=\"sidebar-group\"><div class=\"sidebar-label\">'' @ label @ ''</div>'')]
     @ concat (map (\<lambda>name. [Markup (''<a href=\"#'' @ anchor @ ''-''), Verbatim name, Markup ''\">'', Escaped name, Markup ''</a>'']) names)"

definition sidebar :: "Static \<Rightarrow> asyncComponents \<Rightarrow> Piece list" where
  "sidebar st comps =
     (let (published, consumed) = splitMessagesByDirection (co_Messages comps)
      in [Markup ''<div class=\"layout\"><nav class=\"sidebar\">'', Markup (st_Search st),
          Markup ''<div class=\"sidebar-group\"><div class=\"sidebar-label\">Overview</div>'',
          Markup ''<a href=\"#info\">Info</a><a href=\"#servers\">Servers</a></div>'']
         @ (if published = [] then [] else sidebarLinks ''msg'' ''Published Messages'' published @ [Markup ''</div>''])
         @ (if consumed = [] then [] else sidebarLinks ''msg'' ''Consumed Messages'' consumed @ [Markup ''</div>''])
         @ sidebarLinks ''schema'' ''Schemas'' (sortedKeys (co_Schemas comps)) @ [Markup ''</div></nav>''])"

definition truncatedNote :: string where
  "truncatedNote = nl @ nl @ ''[truncated '' @ [CHR 0xE2, CHR 0x80, CHR 0x94] @ '' see api/asyncapi.yaml for full description]''"

definition infoSection :: "asyncSpec \<Rightarrow> Piece list" where
  "infoSection s =
     [Markup ''<main class=\"content\">'', Markup ''<div class=\"section\" id=\"info\">'', Markup ''<div class=\"section-title\">Info</div>'']
     @ (if sp_Desc s = '''' then [] else [Markup ''<div class=\"info-desc\">'', Escaped (cutAt 800 truncatedNote (sp_Desc s)), Markup ''</div>''])
     @ [Markup ''</div>'']"

definition messagesSection :: "nat \<Rightarrow> string \<Rightarrow> string \<Rightarrow> (string \<times> asyncMessage) list \<Rightarrow> string list \<Rightarrow> (string \<times> asyncSchema) list
    \<Rightarrow> (Piece list \<times> (string \<times> asyncSchema) list) option" where
  "messagesSection n anchor label messages names schemas =
     (if names = [] then Some ([], schemas)
      else map_option (\<lambda>(out, schemas).
             ([Markup (''<div class=\"section\" id=\"messages-'' @ anchor @ ''\"><div class=\"section-title\">'' @ label @ ''</div>'')]
                @ out @ [Markup ''</div>''], schemas))
           (renderEach (\<lambda>name. renderMessage n name (the (map_of messages name))) names schemas))"

definition schemasSection :: "nat \<Rightarrow> (string \<times> asyncSchema) list \<Rightarrow> (Piece list \<times> (string \<times> asyncSchema) list) option" where
  "schemasSection n schemas =
     map_option (\<lambda>(out, schemas).
        ([Markup ''<div class=\"section\" id=\"schemas\"><div class=\"section-title\">Schemas</div>''] @ out @ [Markup ''</div>''], schemas))
     (renderEach (\<lambda>name schemas. renderSchema n name (the (map_of schemas name)) schemas) (sortedKeys schemas) schemas)"

text \<open>None when the resolution of some schema does not return within the fuel.\<close>

definition renderPage :: "nat \<Rightarrow> Static \<Rightarrow> asyncSpec \<Rightarrow> string \<Rightarrow> (Piece list \<times> asyncSpec) option" where
  "renderPage n st s env =
     (let messages = co_Messages (sp_Comps s);
          (published, consumed) = splitMessagesByDirection messages
      in case messagesSection n ''published'' ''Published Messages'' messages published (co_Schemas (sp_Comps s)) of
           None \<Rightarrow> None
         | Some (out1, schemas) \<Rightarrow>
             (case messagesSection n ''consumed'' ''Consumed Messages'' messages consumed schemas of
                None \<Rightarrow> None
              | Some (out2, schemas) \<Rightarrow>
                  (case schemasSection n schemas of
                     None \<Rightarrow> None
                   | Some (out3, schemas) \<Rightarrow>
                       Some ([Markup (st_Head st), Escaped (sp_Title s), Markup (st_Style st)] @ pageHeader st s env @ sidebar st (sp_Comps s)
                             @ infoSection s @ renderServers (st_Upper st) (sp_Servers s) @ out1 @ out2 @ out3 @ [Markup (st_Script st)],
                             s\<lparr>sp_Comps := (sp_Comps s)\<lparr>co_Schemas := schemas\<rparr>\<rparr>))))"

section \<open>The handler\<close>

text \<open>
  The specification is parsed once; what it parsed to, or its failure, is kept (and, through the tables, reordered). \<open>None\<close>: the request
  does not return.
\<close>

datatype DocsReply = DocsFailed int | DocsPageHTML string

type_synonym specCache = "(RawError + asyncSpec) option"

definition loadAsyncSpec :: "(RawError + asyncSpec) \<Rightarrow> specCache \<Rightarrow> RawError + asyncSpec" where
  "loadAsyncSpec parsed cache = (case cache of None \<Rightarrow> parsed | Some x \<Rightarrow> x)"

definition AsyncAPIHandler :: "nat \<Rightarrow> Static \<Rightarrow> (RawError + asyncSpec) \<Rightarrow> string \<Rightarrow> specCache \<Rightarrow> (DocsReply \<times> specCache) option" where
  "AsyncAPIHandler n st parsed env cache =
     (case loadAsyncSpec parsed cache of
        Inl err \<Rightarrow> Some (DocsFailed 500, Some (Inl err))
      | Inr s \<Rightarrow> map_option (\<lambda>(out, s). (DocsPageHTML (concat (map pieceText out)), Some (Inr s))) (renderPage n st s env))"

fun handlePages :: "nat \<Rightarrow> Static \<Rightarrow> (RawError + asyncSpec) \<Rightarrow> string list \<Rightarrow> specCache \<Rightarrow> (DocsReply list \<times> specCache) option" where
  "handlePages n st parsed [] cache = Some ([], cache)"
| "handlePages n st parsed (env # envs) cache =
     (case AsyncAPIHandler n st parsed env cache of
        None \<Rightarrow> None
      | Some (r, cache) \<Rightarrow> map_option (\<lambda>(rs, cache). (r # rs, cache)) (handlePages n st parsed envs cache))"

section \<open>When resolution returns\<close>

text \<open>One call of \<open>resolveSchema\<close> makes the next.\<close>

inductive refersTo :: "(string \<times> asyncSchema) list \<Rightarrow> asyncSchema \<Rightarrow> asyncSchema \<Rightarrow> bool" for schemas where
  element: "sub \<in> set (as_AllOf sc) \<Longrightarrow> refersTo schemas sub sc"
| reference: "as_AllOf sc = [] \<Longrightarrow> as_Ref sc \<noteq> '''' \<Longrightarrow> map_of schemas (TrimPrefix (as_Ref sc) schemasPrefix) = Some sub
    \<Longrightarrow> refersTo schemas sub sc"

lemma those_Some: "those xs = Some ys \<longleftrightarrow> xs = map Some ys"
proof (induction xs arbitrary: ys)
  case (Cons x xs)
  then show ?case by (cases x; cases ys) (auto split: option.splits)
qed auto

lemma those_in:
  assumes "map f xs = map Some ys" "x \<in> set xs"
  obtains y where "f x = Some y"
proof -
  from assms(2) have "f x \<in> set (map f xs)" by simp
  with assms(1) that show ?thesis by auto
qed

lemma resolve_mono: "resolveSchema n schemas here sc = Some x \<Longrightarrow> n \<le> m \<Longrightarrow> resolveSchema m schemas here sc = Some x"
proof (induction n schemas here sc arbitrary: m x rule: resolveSchema.induct)
  case (2 n schemas here sc)
  from 2(4) obtain k where m: "m = Suc k" "n \<le> k" by (cases m) auto
  show ?case
  proof (cases "as_AllOf sc = []")
    case True
    show ?thesis
    proof (cases "if as_Ref sc \<noteq> [] then map_of schemas (TrimPrefix (as_Ref sc) schemasPrefix) else None")
      case None
      with True 2(3) m show ?thesis by simp
    next
      case (Some sub)
      with True 2(3) have "resolveSchema n schemas (Some (TrimPrefix (as_Ref sc) schemasPrefix)) sub = Some x" by (simp add: Let_def)
      from 2(1) [OF True refl Some this m(2)] True Some m(1) show ?thesis by (simp add: Let_def)
    qed
  next
    case False
    with 2(3) obtain subs where subs: "map (resolveSchema n schemas None) (as_AllOf sc) = map Some subs"
      and x: "x = (fold mergeInto (map fst subs) noSchema, None)" by (auto simp: those_Some split: option.splits)
    have "resolveSchema k schemas None sub = resolveSchema n schemas None sub" if "sub \<in> set (as_AllOf sc)" for sub
    proof -
      obtain y where y: "resolveSchema n schemas None sub = Some y" using those_in [OF subs \<open>sub \<in> set (as_AllOf sc)\<close>] by blast
      from 2(2) [OF False that y m(2)] y show ?thesis by simp
    qed
    then have "map (resolveSchema k schemas None) (as_AllOf sc) = map Some subs" unfolding subs [symmetric] by (intro map_cong) simp_all
    with False m x show ?thesis by (simp add: those_Some [THEN iffD2])
  qed
qed simp

lemma resolve_returns_acc: "resolveSchema n schemas here sc = Some x \<Longrightarrow> Wellfounded.accp (refersTo schemas) sc"
proof (induction n schemas here sc arbitrary: x rule: resolveSchema.induct)
  case (2 n schemas here sc)
  show ?case
  proof (rule accp.accI)
    fix sub assume "refersTo schemas sub sc"
    then show "Wellfounded.accp (refersTo schemas) sub"
    proof cases
      case element
      then have "as_AllOf sc \<noteq> []" by auto
      with 2(3) obtain subs where "map (resolveSchema n schemas None) (as_AllOf sc) = map Some subs"
        by (auto simp: those_Some split: option.splits)
      from those_in [OF this element] obtain y where "resolveSchema n schemas None sub = Some y" by blast
      with 2(2) [OF \<open>as_AllOf sc \<noteq> []\<close> element] show ?thesis by blast
    next
      case reference
      with 2(3) have "resolveSchema n schemas (Some (TrimPrefix (as_Ref sc) schemasPrefix)) sub = Some x" by (simp add: Let_def)
      with 2(1) [OF reference(1) refl _ this] reference show ?thesis by simp
    qed
  qed
qed simp

lemma acc_resolve_returns:
  assumes "Wellfounded.accp (refersTo schemas) sc"
  shows "\<exists>n x. resolveSchema n schemas here sc = Some x"
  using assms
proof (induction sc arbitrary: here rule: accp_induct_rule)
  case (1 sc)
  show ?case
  proof (cases "as_AllOf sc = []")
    case True
    show ?thesis
    proof (cases "if as_Ref sc \<noteq> '''' then map_of schemas (TrimPrefix (as_Ref sc) schemasPrefix) else None")
      case None
      with True have "resolveSchema (Suc 0) schemas here sc = Some (sc, here)" by simp
      then show ?thesis by blast
    next
      case (Some sub)
      then have "refersTo schemas sub sc" using True by (intro reference) (auto split: if_splits)
      then obtain n x where "resolveSchema n schemas (Some (TrimPrefix (as_Ref sc) schemasPrefix)) sub = Some x" using 1(2) by blast
      with True Some have "resolveSchema (Suc n) schemas here sc = Some x" by (simp add: Let_def)
      then show ?thesis by blast
    qed
  next
    case False
    have "\<exists>n. \<forall>sub \<in> set subs. resolveSchema n schemas None sub \<noteq> None" if "set subs \<subseteq> set (as_AllOf sc)" for subs
      using that
    proof (induction subs)
      case (Cons sub subs)
      then obtain n where n: "\<forall>sub \<in> set subs. resolveSchema n schemas None sub \<noteq> None" by auto
      from Cons.prems 1(2) [OF element] obtain m x where m: "resolveSchema m schemas None sub = Some x" by fastforce
      have "\<forall>s \<in> set (sub # subs). resolveSchema (max n m) schemas None s \<noteq> None"
        using n m resolve_mono [of n schemas None _ _ "max n m"] resolve_mono [OF m, of "max n m"] by (auto simp del: resolveSchema.simps)
      then show ?case by blast
    qed simp
    then obtain n where n: "\<forall>sub \<in> set (as_AllOf sc). resolveSchema n schemas None sub \<noteq> None" by blast
    then have "map (resolveSchema n schemas None) (as_AllOf sc) = map Some (map (the \<circ> resolveSchema n schemas None) (as_AllOf sc))" by auto
    then have "those (map (resolveSchema n schemas None) (as_AllOf sc)) = Some (map (the \<circ> resolveSchema n schemas None) (as_AllOf sc))"
      by (simp only: those_Some)
    with False have "resolveSchema (Suc n) schemas here sc
        = Some (fold mergeInto (map fst (map (the \<circ> resolveSchema n schemas None) (as_AllOf sc))) noSchema, None)" by simp
    then show ?thesis by blast
  qed
qed

text \<open>A schema that refers to itself.\<close>

definition selfRef :: asyncSchema where "selfRef = AsyncSchema '''' [] [] [] [] ''#/components/schemas/A''"

lemma selfRef_never_returns: "resolveSchema n [(''A'', selfRef)] here selfRef = None"
proof (induction n arbitrary: here)
  case (Suc n)
  then show ?case by (simp add: selfRef_def TrimPrefix_def schemasPrefix_def)
qed simp

section \<open>What sorting in place changes\<close>

text \<open>The same components but for the declared orders, and the components whose order is the one of their rows.\<close>

definition sameShape :: "(string \<times> asyncSchema) list \<Rightarrow> (string \<times> asyncSchema) list \<Rightarrow> bool" where
  "sameShape c c' \<longleftrightarrow> map fst c = map fst c' \<and> (\<forall>k. map_option (ordered []) (map_of c k) = map_option (ordered []) (map_of c' k))"

definition settledAt :: "(string \<times> asyncSchema) list \<Rightarrow> string \<Rightarrow> bool" where
  "settledAt c k \<longleftrightarrow> (\<forall>s. map_of c k = Some s \<longrightarrow> sortedInPlace s \<longrightarrow> rowKeys s = as_PropertyOrder s)"

lemma sameShape_refl: "sameShape c c"
  by (simp add: sameShape_def)

lemma sameShape_trans: "sameShape a b \<Longrightarrow> sameShape b c \<Longrightarrow> sameShape a c"
  by (simp add: sameShape_def)

lemma sameShape_sym: "sameShape a b \<Longrightarrow> sameShape b a"
  by (simp add: sameShape_def)

lemma sameShape_at:
  assumes "sameShape c c'" "map_of c k = Some s"
  obtains s' where "map_of c' k = Some s'" "ordered [] s = ordered [] s'"
proof -
  from assms have "map_option (ordered []) (map_of c' k) = Some (ordered [] s)" unfolding sameShape_def by (metis option.simps(9))
  with that show ?thesis by auto
qed

lemma ordered_eq: "ordered [] s = ordered [] s' \<longleftrightarrow> as_Type s = as_Type s' \<and> as_Required s = as_Required s'
    \<and> as_Properties s = as_Properties s' \<and> as_AllOf s = as_AllOf s' \<and> as_Ref s = as_Ref s'"
  by (simp add: ordered_def)

lemma merged_shape:
  assumes "map (ordered []) xs = map (ordered []) ys" "ordered [] a = ordered [] b"
  shows "ordered [] (fold mergeInto xs a) = ordered [] (fold mergeInto ys b)"
  using assms
proof (induction xs arbitrary: ys a b)
  case (Cons x xs)
  then obtain y ys' where "ys = y # ys'" "ordered [] x = ordered [] y" "map (ordered []) xs = map (ordered []) ys'" by auto
  moreover from this(2) Cons.prems(2) have "ordered [] (mergeInto x a) = ordered [] (mergeInto y b)"
    unfolding ordered_eq by (simp add: mergeInto_def)
  ultimately show ?case using Cons.IH by simp
qed simp

lemma resolve_shape:
  assumes "sameShape c c'"
  shows "ordered [] sc = ordered [] sc' \<Longrightarrow> resolveSchema n c here sc = Some (r, own)
    \<Longrightarrow> \<exists>r'. resolveSchema n c' here sc' = Some (r', own) \<and> ordered [] r' = ordered [] r"
proof (induction n arbitrary: here sc sc' r own)
  case (Suc n)
  from Suc.prems(1) have same: "as_AllOf sc' = as_AllOf sc" "as_Ref sc' = as_Ref sc" by (simp_all add: ordered_eq)
  show ?case
  proof (cases "as_AllOf sc = []")
    case True
    let ?name = "TrimPrefix (as_Ref sc) schemasPrefix"
    show ?thesis
    proof (cases "if as_Ref sc \<noteq> '''' then map_of c ?name else None")
      case None
      moreover have "(if as_Ref sc \<noteq> '''' then map_of c' ?name else None) = None"
        using None assms by (auto simp: sameShape_def split: if_splits) (metis option.map_disc_iff)
      ultimately show ?thesis using True Suc.prems same by (auto simp: Let_def split: if_splits)
    next
      case (Some sub)
      then have ref: "as_Ref sc \<noteq> ''''" "map_of c ?name = Some sub" by (auto split: if_splits)
      obtain sub' where sub': "map_of c' ?name = Some sub'" "ordered [] sub = ordered [] sub'"
        by (rule sameShape_at [OF assms ref(2)])
      from True ref Suc.prems(2) have "resolveSchema n c (Some ?name) sub = Some (r, own)" by (simp add: Let_def)
      from Suc.IH [OF sub'(2) this] True ref sub'(1) same show ?thesis by (simp add: Let_def)
    qed
  next
    case False
    with Suc.prems(2) obtain subs where subs: "map (resolveSchema n c None) (as_AllOf sc) = map Some subs"
      and x: "r = fold mergeInto (map fst subs) noSchema" "own = None" by (auto simp: those_Some split: option.splits)
    have "\<exists>y. resolveSchema n c' None s = Some y \<and> ordered [] (fst y) = ordered [] (fst (the (resolveSchema n c None s)))"
      if "s \<in> set (as_AllOf sc)" for s
    proof -
      from those_in [OF subs that] obtain y where "resolveSchema n c None s = Some y" by blast
      with Suc.IH [OF refl, of None s "fst y" "snd y"] show ?thesis by force
    qed
    then obtain f where f: "\<And>s. s \<in> set (as_AllOf sc) \<Longrightarrow> resolveSchema n c' None s = Some (f s)"
      "\<And>s. s \<in> set (as_AllOf sc) \<Longrightarrow> ordered [] (fst (f s)) = ordered [] (fst (the (resolveSchema n c None s)))" by metis
    have "those (map (resolveSchema n c' None) (as_AllOf sc)) = Some (map f (as_AllOf sc))"
      unfolding those_Some using f(1) by simp
    then have "resolveSchema (Suc n) c' here sc' = Some (fold mergeInto (map fst (map f (as_AllOf sc))) noSchema, None)"
      using False same by simp
    moreover have "subs = map (the \<circ> resolveSchema n c None) (as_AllOf sc)"
      using arg_cong [OF subs, of "map the"] by (simp add: comp_def)
    then have "map (ordered []) (map fst (map f (as_AllOf sc))) = map (ordered []) (map fst subs)" using f(2) by simp
    ultimately show ?thesis using x merged_shape [OF _ refl] by blast
  qed
qed simp

lemma own_entry:
  "resolveSchema n c here sc = Some (r, Some k) \<Longrightarrow> (\<And>h. here = Some h \<Longrightarrow> map_of c h = Some sc) \<Longrightarrow> map_of c k = Some r"
proof (induction n arbitrary: here sc)
  case (Suc n)
  show ?case
  proof (cases "as_AllOf sc = []")
    case True
    let ?name = "TrimPrefix (as_Ref sc) schemasPrefix"
    show ?thesis
    proof (cases "if as_Ref sc \<noteq> '''' then map_of c ?name else None")
      case None
      with True Suc.prems show ?thesis by simp
    next
      case (Some sub)
      with True Suc.prems(1) have "resolveSchema n c (Some ?name) sub = Some (r, Some k)" by (simp add: Let_def)
      from Suc.IH [OF this] Some show ?thesis by (auto split: if_splits)
    qed
  next
    case False
    with Suc.prems(1) show ?thesis by (auto split: option.splits)
  qed
qed simp

lemma requiredFirst_idem: "requiredFirst req (requiredFirst req keys) = requiredFirst req keys"
  unfolding requiredFirst_def by (rule sort_key_id_if_sorted) simp

lemma set_requiredFirst [simp]: "set (requiredFirst req keys) = set keys"
  by (simp add: requiredFirst_def)

lemma sorted_rows:
  assumes "sortedInPlace s"
  shows "rowKeys (ordered (rowKeys s) s) = rowKeys s"
proof -
  from assms have d: "declaredKeys s = as_PropertyOrder s" "as_PropertyOrder s \<noteq> []" by (simp_all add: sortedInPlace_def)
  then have "filter (\<lambda>k. k \<notin> set (as_PropertyOrder s)) (sortedKeys (as_Properties s)) = []" by (simp add: declaredKeys_def Let_def)
  moreover have "set (rowKeys s) = set (as_PropertyOrder s)" by (simp add: rowKeys_def d)
  moreover from this d have "rowKeys s \<noteq> []" by force
  ultimately have "declaredKeys (ordered (rowKeys s) s) = rowKeys s"
    by (simp add: declaredKeys_def ordered_def Let_def)
  then show ?thesis by (simp add: rowKeys_def [of "ordered (rowKeys s) s"]) (simp add: ordered_def rowKeys_def requiredFirst_idem)
qed

lemma table_step:
  assumes "\<And>k. own = Some k \<Longrightarrow> map_of c k = Some r"
  shows "sameShape c (tableSorts (r, own) c)" "settledAt c x \<Longrightarrow> settledAt (tableSorts (r, own) c) x"
    "own = Some k \<Longrightarrow> settledAt (tableSorts (r, own) c) k"
    "(\<And>k. own = Some k \<Longrightarrow> settledAt c k) \<Longrightarrow> tableSorts (r, own) c = c"
proof -
  have "sameShape c (tableSorts (r, own) c) \<and> (settledAt c x \<longrightarrow> settledAt (tableSorts (r, own) c) x)
    \<and> (\<forall>k. own = Some k \<longrightarrow> settledAt (tableSorts (r, own) c) k)
    \<and> ((\<forall>k. own = Some k \<longrightarrow> settledAt c k) \<longrightarrow> tableSorts (r, own) c = c)"
  proof (cases "\<exists>k. own = Some k \<and> sortedInPlace r")
    case True
    then obtain k where k: "own = Some k" "sortedInPlace r" by blast
    with assms have r: "map_of c k = Some r" by simp
    let ?c = "AList.update k (ordered (rowKeys r) r) c"
    have t: "tableSorts (r, own) c = ?c" using k by simp
    have "k \<in> set (map fst c)" using r by (metis domI dom_map_of_conv_image_fst set_map)
    then have keys: "map fst ?c = map fst c" by (simp add: update_keys)
    have "sameShape c ?c" using r keys by (auto simp: sameShape_def update_conv' ordered_def)
    moreover have "settledAt ?c k" using sorted_rows [OF k(2)] by (simp add: settledAt_def update_conv') (simp add: ordered_def)
    moreover have "settledAt c x \<longrightarrow> settledAt ?c x" using \<open>settledAt ?c k\<close> by (auto simp: settledAt_def update_conv')
    moreover have "?c = c" if "settledAt c k"
    proof -
      from that r k(2) have "ordered (rowKeys r) r = r" by (simp add: settledAt_def ordered_def)
      with r show ?thesis by (simp add: update_triv)
    qed
    ultimately show ?thesis using k(1) unfolding t by simp
  next
    case False
    then have "tableSorts (r, own) c = c" by (cases own) auto
    with False assms show ?thesis by (auto simp: sameShape_refl settledAt_def)
  qed
  then show "sameShape c (tableSorts (r, own) c)" "settledAt c x \<Longrightarrow> settledAt (tableSorts (r, own) c) x"
    "own = Some k \<Longrightarrow> settledAt (tableSorts (r, own) c) k"
    "(\<And>k. own = Some k \<Longrightarrow> settledAt c k) \<Longrightarrow> tableSorts (r, own) c = c" by blast+
qed

section \<open>Later pages are alike\<close>

text \<open>The shape of a message and of a schema card: something plain, or the table of a component.\<close>

definition rendering :: "nat \<Rightarrow> string option \<Rightarrow> Piece list \<Rightarrow> (asyncSchema \<Rightarrow> Piece list) \<Rightarrow> (string \<times> asyncSchema) list
    \<Rightarrow> (Piece list \<times> (string \<times> asyncSchema) list) option" where
  "rendering n key plain table c =
     (case Option.bind key (map_of c) of
        None \<Rightarrow> Some (plain, c)
      | Some sc \<Rightarrow> map_option (\<lambda>(r, own). (table r, tableSorts (r, own) c)) (resolveSchema n c key sc))"

definition keyDone :: "nat \<Rightarrow> (string \<times> asyncSchema) list \<Rightarrow> string option \<Rightarrow> bool" where
  "keyDone n c key \<longleftrightarrow>
     (\<forall>sc r k. Option.bind key (map_of c) = Some sc \<and> resolveSchema n c key sc = Some (r, Some k) \<longrightarrow> settledAt c k)"

lemma bind_map_of:
  assumes "Option.bind key (map_of c) = Some sc" "resolveSchema n c key sc = Some (r, own)" "own = Some k"
  shows "map_of c k = Some r"
  using own_entry [of n c key sc r k] assms by (cases key) auto

lemma rendering_step:
  assumes "rendering n key plain table c = Some (out, c')"
  shows "sameShape c c'" "settledAt c x \<Longrightarrow> settledAt c' x" "keyDone n c' key"
proof -
  have "sameShape c c' \<and> (settledAt c x \<longrightarrow> settledAt c' x) \<and> keyDone n c' key"
  proof (cases "Option.bind key (map_of c)")
    case None
    with assms show ?thesis by (simp add: rendering_def sameShape_refl keyDone_def)
  next
    case (Some sc)
    with assms obtain r own where r: "resolveSchema n c key sc = Some (r, own)" and c': "c' = tableSorts (r, own) c"
      by (auto simp: rendering_def)
    note step = table_step [of own c r, OF bind_map_of [OF Some r]]
    have "keyDone n c' key" unfolding keyDone_def
    proof (intro allI impI)
      fix sc' r' k assume k: "Option.bind key (map_of c') = Some sc' \<and> resolveSchema n c' key sc' = Some (r', Some k)"
      have shape: "sameShape c c'" unfolding c' by (rule step(1))
      with k Some have "ordered [] sc = ordered [] sc'" by (cases key) (auto elim: sameShape_at)
      from resolve_shape [OF shape this r] k have "own = Some k" by simp
      then show "settledAt c' k" using step(3) [of k] c' by simp
    qed
    with step(1,2) c' show ?thesis by blast
  qed
  then show "sameShape c c'" "settledAt c x \<Longrightarrow> settledAt c' x" "keyDone n c' key" by blast+
qed

lemma keyDone_mono:
  assumes "keyDone n c key" "sameShape c c'" "\<And>x. settledAt c x \<Longrightarrow> settledAt c' x"
  shows "keyDone n c' key"
  unfolding keyDone_def
proof (intro allI impI)
  fix sc' r' k assume k: "Option.bind key (map_of c') = Some sc' \<and> resolveSchema n c' key sc' = Some (r', Some k)"
  then obtain name where name: "key = Some name" "map_of c' name = Some sc'" by (cases key) auto
  obtain sc where sc: "map_of c name = Some sc" "ordered [] sc' = ordered [] sc"
    by (rule sameShape_at [OF sameShape_sym [OF assms(2)] name(2)])
  from resolve_shape [OF sameShape_sym [OF assms(2)] sc(2)] k obtain r where "resolveSchema n c key sc = Some (r, Some k)" by blast
  with assms(1) sc(1) name(1) have "settledAt c k" by (auto simp: keyDone_def)
  then show "settledAt c' k" by (rule assms(3))
qed

lemma rendering_settled:
  assumes "rendering n key plain table c = Some y" "sameShape c c'" "keyDone n c' key"
  shows "\<exists>out. rendering n key plain table c' = Some (out, c')"
proof (cases "Option.bind key (map_of c')")
  case None
  then show ?thesis by (simp add: rendering_def)
next
  case (Some sc')
  then obtain name where name: "key = Some name" "map_of c' name = Some sc'" by (cases key) auto
  obtain sc where sc: "map_of c name = Some sc" "ordered [] sc' = ordered [] sc"
    by (rule sameShape_at [OF sameShape_sym [OF assms(2)] name(2)])
  with assms(1) name obtain r own where "resolveSchema n c key sc = Some (r, own)" by (auto simp: rendering_def)
  from resolve_shape [OF assms(2) sc(2) [symmetric] this] obtain r' where r': "resolveSchema n c' key sc' = Some (r', own)" by blast
  have "tableSorts (r', own) c' = c'"
    by (rule table_step(4)) (use bind_map_of [OF Some r'] assms(3) Some r' in \<open>auto simp: keyDone_def\<close>)
  with Some r' show ?thesis by (simp add: rendering_def)
qed

text \<open>Each of a list of cards, on components with given names.\<close>

definition cards :: "nat \<Rightarrow> string list \<Rightarrow> ('a \<Rightarrow> string option) \<Rightarrow> ('a \<Rightarrow> (string \<times> asyncSchema) list \<Rightarrow> (Piece list \<times> (string \<times> asyncSchema) list) option)
    \<Rightarrow> 'a list \<Rightarrow> bool" where
  "cards n names key f xs \<longleftrightarrow> (\<forall>x \<in> set xs. \<exists>plain table. \<forall>c. map fst c = names \<longrightarrow> f x c = rendering n (key x) plain table c)"

lemma each_step:
  assumes "cards n (map fst c) key f xs" "renderEach f xs c = Some (out, c')"
  shows "sameShape c c' \<and> (\<forall>x. settledAt c x \<longrightarrow> settledAt c' x) \<and> (\<forall>x \<in> set xs. keyDone n c' (key x))"
  using assms
proof (induction xs arbitrary: c out)
  case Nil
  then show ?case by (simp add: sameShape_refl)
next
  case (Cons x xs)
  from Cons.prems(2) obtain o1 c1 o2 where f: "f x c = Some (o1, c1)" and rest: "renderEach f xs c1 = Some (o2, c')"
    by (auto split: option.splits prod.splits)
  from Cons.prems(1) obtain plain table where r: "rendering n (key x) plain table c = Some (o1, c1)"
    using f unfolding cards_def by fastforce
  note step = rendering_step [OF r]
  from step(1) have names: "map fst c1 = map fst c" by (simp add: sameShape_def)
  with Cons.prems(1) have "cards n (map fst c1) key f xs" by (simp add: cards_def)
  from Cons.IH [OF this rest] have ih: "sameShape c1 c'" "\<And>x. settledAt c1 x \<Longrightarrow> settledAt c' x" "\<forall>x \<in> set xs. keyDone n c' (key x)" by blast+
  from keyDone_mono [OF step(3) ih(1,2)] have "keyDone n c' (key x)" .
  with ih step(1,2) show ?case by (auto intro: sameShape_trans)
qed

lemma each_settled:
  assumes "cards n (map fst c) key f xs" "renderEach f xs c = Some y" "sameShape c d" "\<forall>x \<in> set xs. keyDone n d (key x)"
  shows "\<exists>out. renderEach f xs d = Some (out, d)"
  using assms
proof (induction xs arbitrary: c y)
  case (Cons x xs)
  from Cons.prems(2) obtain o1 c1 y' where f: "f x c = Some (o1, c1)" and rest: "renderEach f xs c1 = Some y'"
    by (auto split: option.splits prod.splits)
  from Cons.prems(1) obtain plain table where t: "\<And>c'. map fst c' = map fst c \<Longrightarrow> f x c' = rendering n (key x) plain table c'"
    unfolding cards_def by (metis list.set_intros(1))
  from f t have r: "rendering n (key x) plain table c = Some (o1, c1)" by simp
  have names: "map fst c1 = map fst c" "map fst d = map fst c" using rendering_step(1) [OF r] Cons.prems(3) by (simp_all add: sameShape_def)
  from Cons.prems(1) names have "cards n (map fst c1) key f xs" by (simp add: cards_def)
  moreover have "sameShape c1 d" using rendering_step(1) [OF r] Cons.prems(3) by (blast intro: sameShape_trans sameShape_sym)
  ultimately obtain o2 where o2: "renderEach f xs d = Some (o2, d)" using Cons.IH rest Cons.prems(4) by fastforce
  from rendering_settled [OF r Cons.prems(3)] Cons.prems(4) obtain o3 where "f x d = Some (o3, d)" using t names by auto
  with o2 show ?case by simp
qed simp

lemma message_cards:
  "cards n names (\<lambda>name. let ref = TrimPrefix (am_Payload (msg name)) schemasPrefix in if ref = '''' then None else Some ref)
     (\<lambda>name. renderMessage n name (msg name)) xs"
  unfolding cards_def
proof
  fix name
  let ?ref = "TrimPrefix (am_Payload (msg name)) schemasPrefix"
  let ?key = "if ?ref = '''' then None else Some ?ref"
  have "renderMessage n name (msg name) c = rendering n ?key
      (messageHead name (msg name) @ [Markup ''</div></div>''])
      (\<lambda>r. messageHead name (msg name)
         @ [Markup ''<div style=\"font-size:.78rem;color:var(--muted);margin-bottom:.5rem\">Payload: <span style=\"color:var(--code);font-family:monospace\">'',
            Escaped ?ref, Markup ''</span></div>''] @ renderPropsTable r ?ref @ [Markup ''</div></div>'']) c" for c
    unfolding renderMessage_def rendering_def Let_def by (cases "?ref = ''''") (simp_all split: option.split)
  then show "\<exists>plain table. \<forall>c. map fst c = names \<longrightarrow> renderMessage n name (msg name) c
      = rendering n (let ref = ?ref in if ref = '''' then None else Some ref) plain table c"
    unfolding Let_def by blast
qed

lemma schema_cards:
  assumes "set xs \<subseteq> set names"
  shows "cards n names Some (\<lambda>name c. renderSchema n name (the (map_of c name)) c) xs"
  unfolding cards_def
proof
  fix name assume "name \<in> set xs"
  define table where "table r = [Markup ''<div class=\"card\" id=\"schema-'', Verbatim name,
        Markup (''\">'' @ nl @ ''<div class=\"card-header\"><span class=\"card-title\" style=\"font-family:monospace\">''), Escaped name,
        Markup (''</span>'' @ toggleButton @ ''</div>'' @ nl @ ''<div class=\"card-body\" style=\"display:none\">'')]
       @ renderPropsTable r name @ [Markup ''</div></div>'']" for r
  have "renderSchema n name (the (map_of c name)) c = rendering n (Some name) [] table c" if "map fst c = names" for c
  proof -
    have "name \<in> fst ` set c" using that assms \<open>name \<in> set xs\<close> by (metis list.set_map subsetD)
    then obtain s where "map_of c name = Some s" by (metis map_of_eq_None_iff not_Some_eq)
    then show ?thesis by (simp add: renderSchema_def rendering_def table_def split: option.split)
  qed
  then show "\<exists>plain table. \<forall>c. map fst c = names \<longrightarrow> renderSchema n name (the (map_of c name)) c = rendering n (Some name) plain table c" by blast
qed

text \<open>A page, then any later page: the components are left as the first one left them.\<close>

lemma page_settles:
  assumes "renderPage n st s env = Some (out, s')"
  shows "\<exists>out'. renderPage n st s' env' = Some (out', s')"
proof -
  let ?m = "co_Messages (sp_Comps s)"
  let ?msg = "\<lambda>name. the (map_of ?m name)"
  let ?key = "\<lambda>name. let ref = TrimPrefix (am_Payload (?msg name)) schemasPrefix in if ref = '''' then None else Some ref"
  let ?c0 = "co_Schemas (sp_Comps s)"
  let ?P = "fst (splitMessagesByDirection ?m)" and ?C = "snd (splitMessagesByDirection ?m)"
  let ?fm = "\<lambda>name. renderMessage n name (?msg name)" and ?fs = "\<lambda>name c. renderSchema n name (the (map_of c name)) c"
  obtain P C where split: "splitMessagesByDirection ?m = (P, C)" by (rule prod.exhaust)
  from assms split obtain o1 c1 o2 c2 o3 c3 where
    1: "messagesSection n ''published'' ''Published Messages'' ?m P ?c0 = Some (o1, c1)" and
    2: "messagesSection n ''consumed'' ''Consumed Messages'' ?m C c1 = Some (o2, c2)" and
    3: "schemasSection n c2 = Some (o3, c3)" and
    s': "s' = s\<lparr>sp_Comps := (sp_Comps s)\<lparr>co_Schemas := c3\<rparr>\<rparr>"
    by (auto simp: renderPage_def Let_def split: option.splits prod.splits)
  have each: "\<exists>o'. renderEach ?fm names c = Some (o', c')" if "messagesSection n a l ?m names c = Some (x, c')" for a l names c x c'
    using that by (auto simp: messagesSection_def split: if_splits)
  from each [OF 1] obtain e1 where e1: "renderEach ?fm P ?c0 = Some (e1, c1)" by blast
  from each [OF 2] obtain e2 where e2: "renderEach ?fm C c1 = Some (e2, c2)" by blast
  from 3 obtain e3 where e3: "renderEach ?fs (sortedKeys c2) c2 = Some (e3, c3)" by (auto simp: schemasSection_def)
  have sub: "set (sortedKeys c2) \<subseteq> set (map fst c2)" by (simp add: sortedKeys_def)
  note s1 = each_step [OF message_cards e1] and s2 = each_step [OF message_cards e2] and s3 = each_step [OF schema_cards [OF sub] e3]
  have sh: "sameShape ?c0 c3" "sameShape c1 c3" "sameShape c2 c3" using s1 s2 s3 by (meson sameShape_trans)+
  have d1: "\<forall>x \<in> set P. keyDone n c3 (?key x)" using s1 s2 s3 sh(2) by (meson keyDone_mono)
  have d2: "\<forall>x \<in> set C. keyDone n c3 (?key x)" using s2 s3 sh(3) by (meson keyDone_mono)
  from s3 have d3: "\<forall>x \<in> set (sortedKeys c2). keyDone n c3 (Some x)" by blast
  from each_settled [OF message_cards e1 sh(1) d1] obtain f1 where f1: "renderEach ?fm P c3 = Some (f1, c3)" by blast
  from each_settled [OF message_cards e2 sh(2) d2] obtain f2 where f2: "renderEach ?fm C c3 = Some (f2, c3)" by blast
  from each_settled [OF schema_cards [OF sub] e3 sh(3) d3] obtain f3 where f3: "renderEach ?fs (sortedKeys c2) c3 = Some (f3, c3)" by blast
  from sh(3) have names: "sortedKeys c3 = sortedKeys c2" by (simp add: sortedKeys_def sameShape_def)
  have "\<exists>x. messagesSection n ''published'' ''Published Messages'' ?m P c3 = Some (x, c3)"
    "\<exists>x. messagesSection n ''consumed'' ''Consumed Messages'' ?m C c3 = Some (x, c3)" "\<exists>x. schemasSection n c3 = Some (x, c3)"
    using f1 f2 f3 by (simp_all add: messagesSection_def schemasSection_def names)
  then obtain x1 x2 x3 where x: "messagesSection n ''published'' ''Published Messages'' ?m P c3 = Some (x1, c3)"
    "messagesSection n ''consumed'' ''Consumed Messages'' ?m C c3 = Some (x2, c3)" "schemasSection n c3 = Some (x3, c3)" by blast
  then show ?thesis unfolding s' by (simp add: renderPage_def split)
qed

section \<open>The requests of a process\<close>

lemma handler_settles:
  assumes "AsyncAPIHandler n st parsed env cache = Some (r, cache')"
  shows "\<exists>reply. \<forall>envs. handlePages n st parsed envs cache' = Some (map reply envs, cache')"
proof -
  have "\<exists>reply. \<forall>env'. AsyncAPIHandler n st parsed env' cache' = Some (reply env', cache')"
  proof (cases "loadAsyncSpec parsed cache")
    case (Inl err)
    with assms show ?thesis by (auto simp: AsyncAPIHandler_def loadAsyncSpec_def)
  next
    case (Inr s)
    with assms obtain out s' where s': "renderPage n st s env = Some (out, s')" "cache' = Some (Inr s')"
      by (auto simp: AsyncAPIHandler_def)
    from page_settles [OF s'(1)] obtain page where "\<And>env'. renderPage n st s' env' = Some (page env', s')" by metis
    with s'(2) have "AsyncAPIHandler n st parsed env' cache' = Some (DocsPageHTML (concat (map pieceText (page env'))), cache')" for env'
      by (simp add: AsyncAPIHandler_def loadAsyncSpec_def)
    then show ?thesis by (intro exI [of _ "\<lambda>env'. DocsPageHTML (concat (map pieceText (page env')))"]) simp
  qed
  then obtain reply where reply: "\<And>env'. AsyncAPIHandler n st parsed env' cache' = Some (reply env', cache')" by blast
  have "handlePages n st parsed envs cache' = Some (map reply envs, cache')" for envs
    by (induction envs) (simp_all add: reply)
  then show ?thesis by blast
qed

text \<open>The first page need not be like the later ones: \<open>Base\<close> is sorted only after \<open>A\<close>, which extends it, was shown.\<close>

definition driftBase :: asyncSchema where
  "driftBase = AsyncSchema ''object'' [''b''] [(''a'', zeroProp), (''b'', zeroProp)] [''a'', ''b''] [] ''''"

definition driftA :: asyncSchema where
  "driftA = AsyncSchema '''' [] [] []
     [AsyncSchema '''' [] [] [] [] ''#/components/schemas/Base'', AsyncSchema ''object'' [''a''] [] [] [] ''''] ''''"

definition driftSpec :: asyncSpec where
  "driftSpec = \<lparr>sp_AsyncAPI = ''3.0.0'', sp_Title = ''T'', sp_Version = ''1'', sp_Desc = '''', sp_Servers = YNode NoKind '''' [],
     sp_Comps = \<lparr>co_Messages = [], co_Schemas = [(''A'', driftA), (''Base'', driftBase)]\<rparr>\<rparr>"

definition rowsOf :: "string \<Rightarrow> asyncSpec \<Rightarrow> string list option" where
  "rowsOf name s =
     Option.bind (map_of (co_Schemas (sp_Comps s)) name) (\<lambda>sc.
       map_option (rowKeys \<circ> fst) (resolveSchema 9 (co_Schemas (sp_Comps s)) (Some name) sc))"

lemma drift_sections:
  "\<exists>out. schemasSection 9 (co_Schemas (sp_Comps driftSpec)) = Some (out, [(''A'', driftA), (''Base'', ordered [''b'', ''a''] driftBase)])"
proof -
  have keys: "sortedKeys [(''A'', driftA), (''Base'', driftBase)] = [''A'', ''Base'']" by code_simp
  have A: "\<exists>r. resolveSchema 9 [(''A'', driftA), (''Base'', driftBase)] (Some ''A'') driftA = Some (r, None)"
    by (simp add: driftA_def driftBase_def numeral_eq_Suc TrimPrefix_def schemasPrefix_def)
  have B: "resolveSchema 9 [(''A'', driftA), (''Base'', driftBase)] (Some ''Base'') driftBase = Some (driftBase, Some ''Base'')"
    by (simp add: driftBase_def numeral_eq_Suc)
  have "tableSorts (driftBase, Some ''Base'') [(''A'', driftA), (''Base'', driftBase)] = [(''A'', driftA), (''Base'', ordered [''b'', ''a''] driftBase)]"
    by code_simp
  with A B keys show ?thesis by (auto simp: schemasSection_def driftSpec_def renderSchema_def)
qed

lemma drift:
  "\<exists>out s'. renderPage 9 st driftSpec env = Some (out, s') \<and> rowsOf ''A'' driftSpec = Some [''a'', ''b''] \<and> rowsOf ''A'' s' = Some [''b'', ''a'']"
proof -
  have none: "splitMessagesByDirection [] = ([], [])" by (simp add: splitMessagesByDirection_def sortedKeys_def)
  obtain out where out: "schemasSection 9 (co_Schemas (sp_Comps driftSpec)) = Some (out, [(''A'', driftA), (''Base'', ordered [''b'', ''a''] driftBase)])"
    using drift_sections by blast
  then obtain p where "renderPage 9 st driftSpec env
      = Some (p, driftSpec\<lparr>sp_Comps := (sp_Comps driftSpec)\<lparr>co_Schemas := [(''A'', driftA), (''Base'', ordered [''b'', ''a''] driftBase)]\<rparr>\<rparr>)"
    by (auto simp: renderPage_def driftSpec_def none messagesSection_def)
  moreover have "rowsOf ''A'' driftSpec = Some [''a'', ''b'']" by code_simp
  moreover have "rowsOf ''A'' (driftSpec\<lparr>sp_Comps := (sp_Comps driftSpec)\<lparr>co_Schemas := [(''A'', driftA), (''Base'', ordered [''b'', ''a''] driftBase)]\<rparr>\<rparr>)
      = Some [''b'', ''a'']" by code_simp
  ultimately show ?thesis by blast
qed

section \<open>Rows and markup\<close>

text \<open>A declared order names each property once.\<close>

fun wfSchema :: "asyncSchema \<Rightarrow> bool" where
  "wfSchema (AsyncSchema t req props order allOf ref) \<longleftrightarrow>
     distinct order \<and> set order \<subseteq> fst ` set props \<and> list_all wfSchema allOf"

definition orderOK :: "asyncSchema \<Rightarrow> bool" where
  "orderOK s \<longleftrightarrow> distinct (as_PropertyOrder s) \<and> set (as_PropertyOrder s) \<subseteq> fst ` set (as_Properties s)"

lemma wf_order: "wfSchema s \<Longrightarrow> orderOK s" "wfSchema s \<Longrightarrow> sub \<in> set (as_AllOf s) \<Longrightarrow> wfSchema sub"
  by (cases s; auto simp: orderOK_def list_all_iff)+

lemma mergeOrder_set: "distinct order \<Longrightarrow> distinct (mergeOrder ks order) \<and> set (mergeOrder ks order) = set order \<union> set ks"
proof (induction ks arbitrary: order)
  case (Cons k ks)
  have "distinct (if k \<in> set order then order else order @ [k])" using Cons.prems by simp
  from Cons.IH [OF this] show ?case by (auto simp: mergeOrder_def split: if_splits)
qed (simp add: mergeOrder_def)

lemma merged_orderOK:
  "list_all orderOK subs \<Longrightarrow> orderOK s \<Longrightarrow> orderOK (fold mergeInto subs s)"
proof (induction subs arbitrary: s)
  case (Cons x subs)
  then have "orderOK (mergeInto x s)"
    using mergeOrder_set [of "as_PropertyOrder s" "as_PropertyOrder x"] by (auto simp: orderOK_def mergeInto_def)
  with Cons show ?case by simp
qed simp

lemma resolve_orderOK:
  assumes "\<forall>(k, s) \<in> set schemas. wfSchema s"
  shows "wfSchema sc \<Longrightarrow> resolveSchema n schemas here sc = Some (r, own) \<Longrightarrow> orderOK r"
proof (induction n arbitrary: here sc r own)
  case (Suc n)
  show ?case
  proof (cases "as_AllOf sc = []")
    case True
    let ?name = "TrimPrefix (as_Ref sc) schemasPrefix"
    show ?thesis
    proof (cases "if as_Ref sc \<noteq> '''' then map_of schemas ?name else None")
      case None
      with True Suc.prems wf_order(1) show ?thesis by simp
    next
      case (Some sub)
      then have "wfSchema sub" using assms by (auto split: if_splits dest: map_of_SomeD)
      with Some True Suc show ?thesis by (simp add: Let_def)
    qed
  next
    case False
    with Suc.prems(2) obtain subs where subs: "map (resolveSchema n schemas None) (as_AllOf sc) = map Some subs"
      and r: "r = fold mergeInto (map fst subs) noSchema" by (auto simp: those_Some split: option.splits)
    have "orderOK (fst y)" if "y \<in> set subs" for y
    proof -
      from that have "Some y \<in> set (map (resolveSchema n schemas None) (as_AllOf sc))" by (simp add: subs)
      then obtain s where "s \<in> set (as_AllOf sc)" "resolveSchema n schemas None s = Some (fst y, snd y)" by auto
      then show ?thesis using Suc.IH wf_order(2) [OF Suc.prems(1)] by blast
    qed
    then have "list_all orderOK (map fst subs)" by (simp add: list_all_iff)
    moreover have "orderOK noSchema" by (simp add: orderOK_def noSchema_def)
    ultimately show ?thesis unfolding r by (rule merged_orderOK)
  qed
qed simp

lemma insort_past: "\<forall>y \<in> set ys. f y < f x \<Longrightarrow> insort_key f x (ys @ zs) = ys @ insort_key f x zs"
  for f :: "'a \<Rightarrow> nat"
  by (induction ys) auto

lemma requiredFirst_filter:
  "requiredFirst req keys = filter (\<lambda>k. k \<in> set req) keys @ filter (\<lambda>k. k \<notin> set req) keys"
proof (induction keys)
  case (Cons k keys)
  let ?f = "\<lambda>k. if k \<in> set req then 0 else (1 :: nat)"
  have step: "requiredFirst req (k # keys) = insort_key ?f k (filter (\<lambda>k. k \<in> set req) keys @ filter (\<lambda>k. k \<notin> set req) keys)"
    using Cons by (simp add: requiredFirst_def)
  show ?case
  proof (cases "k \<in> set req")
    case True
    then show ?thesis unfolding step by (subst insort_is_Cons) auto
  next
    case False
    then have "insort_key ?f k (filter (\<lambda>k. k \<in> set req) keys @ filter (\<lambda>k. k \<notin> set req) keys)
        = filter (\<lambda>k. k \<in> set req) keys @ insort_key ?f k (filter (\<lambda>k. k \<notin> set req) keys)" by (intro insort_past) simp
    with False show ?thesis unfolding step by (subst (asm) insort_is_Cons) auto
  qed
qed (simp add: requiredFirst_def)

lemma rows_complete:
  assumes "orderOK s"
  shows "distinct (rowKeys s)" "set (rowKeys s) = fst ` set (as_Properties s)"
  using assms by (auto simp: rowKeys_def requiredFirst_filter declaredKeys_def Let_def sortedKeys_def orderOK_def)

text \<open>No markup comes out of escaped text.\<close>

lemma escaped_plain: "c \<in> set (EscapeString s) \<Longrightarrow> c \<notin> {CHR ''<'', CHR ''>'', CHR 0x22, CHR 0x27}"
  by (auto simp: EscapeString_def escapeHTMLChar_def split: if_splits)

end
