(* ===== verification/Spec2Isabelle.thy ===== *)
theory Spec2Isabelle
  imports HttpScenario Config Idempotency Metrics Process Docs
begin

text \<open>
  A verification development for the IAM Delegation Service (Go, under \<^verbatim>\<open>src/\<close>).

  The service lets a user (the delegator) name another user of the tenant (the delegate) to stand
  in, for all duties, for a department or for a tender, for a bounded or an open-ended time. It keeps the
  delegations in Postgres, tells the rest of the platform through an outbox of events, sets the
  delegator's out-of-office in User Profile, reacts to membership and user events from a queue, and runs
  cron jobs that start, end, review and purge delegations.

  \<^bold>\<open>Theories.\<close> Each opens with what it models.

  \<^item> \<open>Prelude\<close>: chains of fallible steps (\<open>bind_res\<close>), tables as lists of rows, the locale \<open>frame\<close>.
  \<^item> \<open>Domain\<close> (\<^verbatim>\<open>internal/core/domain\<close>, \<^verbatim>\<open>pkg/requestctx\<close>): entities, events, errors, identity.
  \<^item> \<open>World\<close> (\<^verbatim>\<open>internal/core/port\<close>): the record \<open>env\<close> of everything outside (clocks, id generation,
    faults of Postgres and Valkey, the peers' answers) and the record \<open>world\<close> of what the service
    changes (database, key-value store, calls made to User Profile, metrics recorded).
  \<^item> \<open>Postgres\<close>, \<open>Schema\<close> (\<^verbatim>\<open>postgres/db.go\<close>, \<^verbatim>\<open>migrations\<close>): transactions, retries, error
    classification, row-level security, constraints, the \<open>touch_row\<close> trigger; the database invariant \<open>db_inv\<close>,
    the row history \<open>row_evolves\<close> and tenant isolation \<open>other_tenants_kept\<close>. The locales \<open>tx_frame\<close> and
    \<open>db_frame\<close> carry a preorder on databases through every combinator; they are interpreted on
    these relations.
  \<^item> \<open>DelegationRepository\<close>, \<open>Repositories\<close> (\<^verbatim>\<open>postgres/*_repository.go\<close>, \<^verbatim>\<open>processed_events.go\<close>,
    \<^verbatim>\<open>settings_service.go\<close>): one definition per method, its SQL conditions as row predicates. \<open>ledger\<close> is the abstract view the
    guarded writes refine.
  \<^item> \<open>Valkey\<close>, \<open>Eventbus\<close>: list cache, idempotency store, the publisher that appends to the outbox.
  \<^item> \<open>DelegationService\<close>, \<open>CascadeService\<close> (\<^verbatim>\<open>internal/core/service\<close>): the use cases, guard by guard.
  \<^item> \<open>Consumer\<close> (\<^verbatim>\<open>inbound/consumer\<close>), \<open>Jobs\<close> (\<^verbatim>\<open>cmd/reconciler/jobs\<close>): deliveries and cron jobs.
  \<^item> \<open>Utf8\<close>, \<open>Json\<close>, \<open>Wire\<close>: what the code uses of Go's utf8, encoding/json, strconv, strings and time.
  \<^item> \<open>HttpBase\<close>, \<open>Http\<close> (\<^verbatim>\<open>inbound/http\<close>, \<^verbatim>\<open>cmd/server/adapters.go\<close>): decoding, error mapping, middleware,
    handlers, router.
  \<^item> \<open>Clients\<close> (\<^verbatim>\<open>outbound/userprofile\<close>, \<^verbatim>\<open>orgmembership\<close>, \<^verbatim>\<open>catalogadmin\<close>, \<^verbatim>\<open>tender\<close>): requests and replies.
  \<^item> \<open>Codec\<close>, \<open>EventSchema\<close> (\<^verbatim>\<open>outbound/eventbus\<close>, \<^verbatim>\<open>internal/eventschema\<close>): wire format, schemas, payloads.
  \<^item> \<open>Config\<close> (\<^verbatim>\<open>cmd/server/config.go\<close>, \<^verbatim>\<open>cmd/reconciler\<close>, DSN helpers): the environment of both processes, and the run of one cron job.
  \<^item> \<open>Process\<close> (\<^verbatim>\<open>cmd/server/main.go\<close>, \<^verbatim>\<open>wiring.go\<close>, \<^verbatim>\<open>cmd/reconciler/main.go\<close>, \<^verbatim>\<open>postgres/migrate.go\<close>): what a process starts and
    undoes, as a trace of effects and a stack of defers; the worker group as a step relation.
  \<^item> \<open>System\<close>: requests, deliveries and cron runs as a step relation, runs, and what holds along them.
  \<^item> \<open>Lifecycle\<close>: the phases of a delegation, what the outbox announces of them, and who may add a delegation.
  \<^item> \<open>Concurrency\<close>: the transactions of the service, with any arguments, as a step relation on the database (\<open>txn\<close>); every
    interleaving of requests, deliveries and sweeps is a sequence of them. A cancellation and a sweep among others.
  \<^item> \<open>Idempotency\<close>: which entries of the idempotency store an operation may write; a reservation among others.
  \<^item> \<open>Metrics\<close> (\<^verbatim>\<open>outbound/metrics\<close>, \<^verbatim>\<open>cmd/server/exporters.go\<close>): instruments, registration, recorders, metered
    client calls, the exporter of the active gauge; the counters against the metric log of \<open>world\<close>.
  \<^item> \<open>Docs\<close> (\<^verbatim>\<open>inbound/http/asyncapi.go\<close>): the page of the event catalogue and what rendering it does to the cached specification.
  \<^item> \<open>Scenario\<close>, \<open>HttpScenario\<close>: a concrete environment on which the witnesses evaluate the model.

  \<^bold>\<open>How the parts fit.\<close> A request passes \<open>NewRouter\<close>, a handler, a use case, repositories and
  clients; \<open>with_clients\<close> and \<open>with_schemas\<close> put the HTTP clients and the validator behind the ports of
  \<open>env\<close>. What every operation respects is stated once, as a chain of locales over a preorder on databases:
  \<open>service_frame\<close>, \<open>cascade_frame\<close> and \<open>sweeper_frame\<close> take the bodies of the transactions and carry the
  preorder through use cases, deliveries, jobs, routes and system steps; \<open>repo_frame\<close> and \<open>job_frame\<close> take the
  repository operations instead and are sublocales of them. Their interpretations give the invariant and
  row history, tenant isolation, the lifecycle of the events, who grants what, and that everything but the purge is a sequence of \<open>txn\<close>.

  \<^bold>\<open>What is shown.\<close> Effects of every use case, exactly, on success and on failure; policy bounds;
  idempotent creation; optimistic locking as a refinement of an abstract ledger; once-only, atomic event
  handling; exact effects of the four jobs and that a backlog drains; ownership and tenant isolation of the HTTP
  surface; error mapping; round trips of the policy and of the Glue header; that the
  service's own events satisfy its schemas; the invariant and the history of every row along
  any sequence of steps; the order and truth of the announced starts and ends under every interleaving;
  that no one becomes a delegate but by the delegator (or an admin's reassignment); that a reserved key, a version
  and an ownership check hold among concurrent work; that the metrics count what happened and the gauge is the table; what a loaded configuration
  guarantees and what a started server has checked; that a server releases what it acquired in the opposite order, and that its shutdown ends;
  that the catalogue's tables are complete, its later pages alike, and when resolving its schemas returns.

  \<^bold>\<open>Choices.\<close>
  \<^item> Times are integers in microseconds (the resolution of \<open>timestamptz\<close>), record versions unbounded
    integers; configured durations are 64-bit words in nanoseconds, since they are multiplied.
  \<^item> \<open>tick\<close> counts interactions with the outside; clocks, ids and faults are functions of it, so a
    theorem over all \<open>env\<close> covers any clock and any pattern of faults. Every loop of the service is over a list, or is
    the retry with its three attempts; only \<open>resolveSchema\<close> takes fuel, and is shown to need a finite one exactly when the
    references have no infinite chain.
  \<^item> Ids are 128-bit words; parsing and printing them are parameters, as are gin, gincommon, pgcommon, the
    network, the Glue registry, the schema library's format checks and \<open>time.ParseDuration\<close>.
  \<^item> \<open>ORDER BY\<close> breaks ties in table order, and a \<open>LIMIT\<close> without order takes rows in table order.
  \<^item> A transaction is atomic and sees the state before it. In \<open>System\<close> a step runs to its end; \<open>Concurrency\<close> lets
    arbitrary transactions run between the reads and the transaction of a request, and between the targets of a sweep.
    The purge (\<open>Cleanup\<close>) removes rows and is a step of \<open>System\<close> only.
  \<^item> A failed job reports its error and not the partial counters, which the callers drop.
  \<^item> JSON field names are folded for ASCII letters only. Appending to the outbox is the effect of
    platform-events' enqueue; its dispatch to SNS is outside.
  \<^item> The system pool bypasses row-level security, as it does for the role the configuration requires
    outside development.

  \<^bold>\<open>Not modelled.\<close> Buckets, help texts and exposition of the metrics, log lines and tracing, the swagger
  pages and generated code, YAML decoding and the styles and scripts of the catalogue page, and the inside of what the libraries build (migrations, pools, the outbox and
  SQS runners, listeners): the model has whether their constructors and calls fail and when they are made. The time limits of a
  shutdown are left out.
\<close>

section \<open>Creating a delegation\<close>

text \<open>
  C1: a successful Create either replays an earlier one (an idempotency key was
  given; the database and User Profile are untouched and the answer is a live row of the tenant),
  or grants exactly what was asked: the request passed every check (\<open>plan_ok\<close>), one row with a
  fresh id is appended, one DelegationStarted is published in the same transaction and User
  Profile acknowledged the delegator's out-of-office; a grant that starts in the future is stored
  as scheduled and does neither.
\<close>

theorem create_effects:
  assumes "c_tx c = None" "sane_clock e" "db_inv (db w)"
    and "DelegationService_Create e c T u key req w = (Inr d, w')"
  shows "(key \<noteq> '''' \<and> db w' = db w \<and> pointerCalls w' = pointerCalls w
       \<and> d \<in> set (delegations (db w)) \<and> liveRow T (d_ID d) d)
     \<or> (\<exists>p. plan_ok T u req p \<and> granted T u req p d \<and> delegationRowOK d
          \<and> d_ID d \<notin> d_ID ` set (delegations (db w))
          \<and> appended (db w) d
              (if pl_isScheduled p \<or> \<not> (hasPublisher e \<or> c_publisher c) then [] else [startedPayload T d u]) (db w')
          \<and> pointerCalls w' = pointerCalls w @ (if pl_isScheduled p then [] else [UPSet (createOOO T u req p) True]))"
  by (rule Create_cases [OF assms]) blast+

theorem create_effects_witness:
  "\<exists>d w'. DelegationService_Create demo_env demo_ctx 10 1 ''k'' demo_req demo_world = (Inr d, w')
     \<and> (\<exists>p. granted 10 1 demo_req p d)"
proof -
  obtain d w' where run: "DelegationService_Create demo_env demo_ctx 10 1 ''k'' demo_req demo_world = (Inr d, w')"
    using demo_create by (rule not_isl_run)
  from create_effects [OF demo_ctx_simps(1) demo_env_simps(3) demo_inv(1) run] run show ?thesis
    by (auto simp: demo_world_def demo_db_def)
qed

text \<open>
  C9: a Create that returns an error has written nothing to the
  database, and of the delegator's pointer it leaves either no call, one call that User Profile
  refused, or an acknowledged call followed by the compensating clear.
\<close>

theorem create_failure_compensated:
  assumes "c_tx c = None" "DelegationService_Create e c T u key req w = (Inl err, w')"
  shows "db w' = db w \<and> (\<exists>cs. pointerCalls w' = pointerCalls w @ cs \<and> compensated T u cs)"
  by (rule Create_error [OF assms])

theorem create_failure_compensated_witness:
  "\<exists>err w'. DelegationService_Create demo_env demo_ctx 10 2 '''' demo_req demo_world = (Inl err, w') \<and> db w' = db demo_world"
proof -
  have "isl (fst (DelegationService_Create demo_env demo_ctx 10 2 '''' demo_req demo_world))" by code_simp
  then obtain err w' where run: "DelegationService_Create demo_env demo_ctx 10 2 '''' demo_req demo_world = (Inl err, w')"
    by (rule isl_run)
  from create_failure_compensated [OF demo_ctx_simps(1) run] run show ?thesis by blast
qed



text \<open>
  C24: a retry with the same idempotency key, within the key's lifetime and whatever its
  body, answers the delegation the first call created and changes neither the database nor
  User Profile (no fault of Postgres or Valkey in the retry).
\<close>

theorem create_replays:
  assumes "no_faults e" "kv_fault e = (\<lambda>_. None)" "hasIdempotency e" "key \<noteq> ''''" "\<forall>n. t0 \<le> clock e n"
    and "idem_holds (clock e (tick w)) (kv w) T key = None"
    and "DelegationService_Create e c T u key req w = (Inr d, w')"
    and "kv w2 = kv w'" "clock e (tick w2) < t0 + idempotencyTTL" "request_ctx T c2" "db_inv (db w2)"
    and "ledger T (db w2) (d_ID d) = Some d2"
  shows "\<exists>w3. DelegationService_Create e c2 T u2 key req2 w2 = (Inr d2, w3) \<and> quiet w2 w3"
proof -
  have "idem_holds (clock e (tick w2)) (kv w2) T key = Some (createdRecord (d_ID d))"
    unfolding assms(8) by (rule Create_saves [OF assms(2-5,9,6,7)])
  from Create_replays [OF assms(1-3,10,11,4) this assms(12)] show ?thesis .
qed

theorem create_replays_witness:
  "\<exists>d w' d2 w3. DelegationService_Create demo_env demo_ctx 10 1 ''k'' demo_req demo_world = (Inr d, w')
     \<and> DelegationService_Create demo_env demo_ctx 10 1 ''k'' demo_req w' = (Inr d2, w3) \<and> quiet w' w3 \<and> d_ID d2 = d_ID d"
proof -
  obtain d w' where run: "DelegationService_Create demo_env demo_ctx 10 1 ''k'' demo_req demo_world = (Inr d, w')"
    using demo_create by (rule not_isl_run)
  then have w': "w' = snd (DelegationService_Create demo_env demo_ctx 10 1 ''k'' demo_req demo_world)"
    "d = projr (fst (DelegationService_Create demo_env demo_ctx 10 1 ''k'' demo_req demo_world))" by simp_all
  have "ledger 10 (db w') (d_ID d) \<noteq> None" unfolding w' by code_simp
  then obtain d2 where d2: "ledger 10 (db w') (d_ID d) = Some d2" by blast
  have inv: "db_inv (db w')"
    using rstep.frame_Create [where c = demo_ctx and w = demo_world and e = demo_env and T = 10 and u = 1 and key = "''k''" and req = demo_req]
      demo_inv(1) run by (simp add: db_step_def)
  have free: "idem_holds (clock demo_env (tick demo_world)) (kv demo_world) 10 ''k'' = None"
    by (simp add: idem_holds_def kv_lookup_def demo_world_def)
  have early: "clock demo_env (tick w') < demo_now + idempotencyTTL" by (simp add: idempotencyTTL_def second_def)
  have "d_ID d2 = d_ID d" using ledger_SomeD [OF d2] by (simp add: liveRow_def)
  moreover have "\<exists>w3. DelegationService_Create demo_env demo_ctx 10 1 ''k'' demo_req w' = (Inr d2, w3) \<and> quiet w' w3"
    using create_replays [OF demo_env_simps(1,2,4) _ _ free run refl early demo_ctx_simps(2) inv d2] by simp
  ultimately show ?thesis using run by blast
qed

text \<open>
  C8: from the moment a request has reserved its \<open>Idempotency-Key\<close>, and whatever other requests,
  deliveries and jobs run before it is done, every further create with that key in the tenant is refused with
  \<open>idempotency_key_in_flight\<close> and does nothing, as long as less than the reservation's lifetime passes. Nothing but the
  request that holds a reservation can release or replace it.
\<close>

theorem create_exclusive:
  assumes "Create_gate (dp_env D) c T key w = (GateProceed True, w1)" "sys_run D as w1 w2"
    and "kv_fault (dp_env D) = (\<lambda>_. None)" "\<And>n m. clock (dp_env D) n < clock (dp_env D) m + idempotencyTTL"
  shows "DelegationService_Create (dp_env D) c' T u' key req' w2 = (Inl inFlight, bump w2)"
proof -
  have key: "hasIdempotency (dp_env D)" "key \<noteq> ''''" using assms(1) by (auto simp: Create_gate_def split: if_splits)
  obtain m where "kv w1 (KeyIdem T key) = Some (KVIdem pendingRecord, clock (dp_env D) m + idempotencyTTL)"
    by (rule gate_reserves [OF assms(1)])
  with assms(4) have "reserved (dp_env D) T key (clock (dp_env D) m + idempotencyTTL) w1" by (simp add: reserved_def)
  with assms(2) have "reserved (dp_env D) T key (clock (dp_env D) m + idempotencyTTL) w2"
    by (rule sys_run_reserved [OF assms(3) key])
  then show ?thesis by (rule Create_refused [OF assms(3) key])
qed

theorem create_exclusive_witness:
  "\<exists>w1 w2. Create_gate demo_env demo_ctx 10 ''k'' demo_world = (GateProceed True, w1)
     \<and> sys_step demo_deployment AExpiry w1 w2
     \<and> DelegationService_Create demo_env demo_ctx 10 1 ''k'' demo_req w2 = (Inl inFlight, bump w2)"
proof -
  have "fst (Create_gate demo_env demo_ctx 10 ''k'' demo_world) = GateProceed True" by code_simp
  then obtain w1 where g: "Create_gate demo_env demo_ctx 10 ''k'' demo_world = (GateProceed True, w1)"
    by (metis prod.collapse)
  obtain w2 where s: "sys_step demo_deployment AExpiry w1 w2" using sys_step_total by blast
  then have "sys_run demo_deployment [AExpiry] w1 w2" by (auto intro: sys_run.intros)
  from create_exclusive [of demo_deployment, OF _ this] g s show ?thesis
    by (auto simp: idempotencyTTL_def second_def)
qed

section \<open>Cancelling, extending and reassigning\<close>

text \<open>
  C10: a successful Cancel ends exactly the delegation it names: a live row of the
  tenant, active or scheduled, whose version is the expected one, becomes cancelled with the next
  version; one DelegationEnded (cancelled) is published in the same transaction and User Profile is told
  to clear the delegator's pointer. No other row changes.
\<close>

theorem cancel_effects:
  assumes "c_tx c = None" "db_inv (db w)" "DelegationService_Cancel e c T i v w = (Inr out, w')"
  shows "\<exists>d now ok. d \<in> set (delegations (db w)) \<and> liveRow T i d \<and> d_RecordVersion d = v \<and> openStatus (d_Status d)
     \<and> out = stamped now (d\<lparr>d_Status := DelegationCancelled\<rparr>)
     \<and> changed (db w) (replace_row out (delegations (db w)))
         (if hasPublisher e \<or> c_publisher c then [endedPayload T d EndReasonCancelled (cancelActor e c d)] else []) (db w')
     \<and> pointerCalls w' = pointerCalls w @ [UPClear T (d_DelegatorID d) ok]"
  by (rule cancelInternal_ok [OF assms(1,2) assms(3)[unfolded DelegationService_Cancel_def]]) blast

theorem cancel_effects_witness:
  "\<exists>out w'. DelegationService_Cancel demo_env demo_ctx 10 77 3 (demo_rows [demo_row]) = (Inr out, w')
     \<and> d_Status out = DelegationCancelled \<and> d_RecordVersion out = 4"
proof -
  have "\<not> isl (fst (DelegationService_Cancel demo_env demo_ctx 10 77 3 (demo_rows [demo_row])))" by code_simp
  then obtain out w' where run: "DelegationService_Cancel demo_env demo_ctx 10 77 3 (demo_rows [demo_row]) = (Inr out, w')"
    by (rule not_isl_run)
  from cancel_effects [OF demo_ctx_simps(1) demo_inv(2) run] run show ?thesis by (auto simp: stamped_def)
qed

text \<open>
  C23: the clear is sent before the version is checked. A Cancel with a
  stale version fails and changes no row, yet User Profile has been told to clear the pointer of a
  delegator whose delegation is still active.
\<close>

theorem failed_cancel_clears_pointer:
  assumes "no_faults e" "request_ctx T c" "db_inv (db w)" "ledger T (db w) i = Some d" "d_Status d = DelegationActive"
    "d_RecordVersion d \<noteq> v" "\<forall>n. clearDelegatePointer e n T (d_DelegatorID d) = None"
  shows "\<exists>w'. DelegationService_Cancel e c T i v w = (Inl (versionConflict (d_RecordVersion d)), w')
     \<and> db w' = db w \<and> ledger T (db w') i = Some d \<and> last_pointer (up_log w') T (d_DelegatorID d) = Some None"
  unfolding DelegationService_Cancel_def by (rule cancel_conflict_clears [OF assms])

theorem failed_cancel_clears_pointer_witness:
  "\<exists>w'. DelegationService_Cancel demo_env demo_ctx 10 77 2 (demo_rows [demo_row]) = (Inl (versionConflict 3), w')
     \<and> last_pointer (up_log w') 10 1 = Some None \<and> ledger 10 (db w') 77 = Some demo_row"
  using failed_cancel_clears_pointer [OF demo_env_simps(1) demo_ctx_simps(2) demo_inv(2) demo_ledger, of 2] demo_up
  by (auto simp: all_up_def)



text \<open>
  C22: a successful Reassign cancels the active delegation of the expected version
  and grants a new one from the same delegator with the overridden fields, starting now; the outbox gains
  DelegationEnded (reassigned) and then DelegationStarted, in this order.
\<close>

theorem reassign_effects:
  assumes "c_tx c = None" "sane_clock e" "db_inv (db w)" "DelegationService_Reassign e c T i v req w = (Inr new, w')"
  shows "\<exists>d now p. d \<in> set (delegations (db w)) \<and> liveRow T i d \<and> d_Status d = DelegationActive \<and> d_RecordVersion d = v
     \<and> plan_ok T (d_DelegatorID d) (reassignCreate d req) p \<and> granted T (d_DelegatorID d) (reassignCreate d req) p new
     \<and> \<not> pl_isScheduled p
     \<and> changed (db w) (replace_row (stamped now (d\<lparr>d_Status := DelegationCancelled\<rparr>)) (delegations (db w)) @ [new])
         (if hasPublisher e \<or> c_publisher c
          then [endedPayload T d EndReasonReassigned (cancelActor e c d), startedPayload T new (d_DelegatorID d)] else []) (db w')"
  by (rule Reassign_ok [OF assms]) blast

theorem reassign_effects_witness:
  "\<exists>new w'. DelegationService_Reassign demo_env demo_ctx 10 77 3 demo_reassign (demo_rows [demo_row]) = (Inr new, w')
     \<and> d_DelegateID new = 3 \<and> d_Status new = DelegationActive"
proof -
  have "\<not> isl (fst (DelegationService_Reassign demo_env demo_ctx 10 77 3 demo_reassign (demo_rows [demo_row])))" by code_simp
  then obtain new w' where run: "DelegationService_Reassign demo_env demo_ctx 10 77 3 demo_reassign (demo_rows [demo_row]) = (Inr new, w')"
    by (rule not_isl_run)
  from reassign_effects [OF demo_ctx_simps(1) demo_env_simps(3) demo_inv(2) run] run show ?thesis
    by (auto simp: granted_def reassignCreate_def demo_reassign_def)
qed

section \<open>Optimistic locking\<close>

text \<open>
  C14: \<open>End\<close> refines an operation on the ledgers (the live rows by tenant and id). What it
  answers is a function of the entry: an unknown or closed delegation is not found, a stale version is
  a conflict that reports the current version, and otherwise the entry with the new status, the
  next version and the transaction's time. What it does is that answer stored: the entry
  becomes the row it answered, every other entry of this and of the other tenants is what it was, and nothing else of
  the database changes; with an error nothing changes at all.
\<close>

theorem end_refines_ledger:
  assumes "no_faults e" "request_ctx T c" "db_inv (db w)" "\<not> openStatus st" "st \<noteq> StatusZero"
    and "DelegationRepository_End e AppPool c T i st v w = (res, w')"
  shows "res = (case ledger T (db w) i of
        None \<Rightarrow> Inl notFound
      | Some r \<Rightarrow>
          if \<not> openStatus (d_Status r) then Inl notFound
          else if d_RecordVersion r \<noteq> v then Inl (versionConflict (d_RecordVersion r))
          else Inr (r\<lparr>d_Status := st, d_UpdatedAt := pg_clock e (tick w), d_RecordVersion := d_RecordVersion r + 1\<rparr>))
    \<and> (\<forall>T' j. ledger T' (db w') j =
        (case res of Inl err \<Rightarrow> ledger T' (db w) j | Inr d \<Rightarrow> if T' = T \<and> j = i then Some d else ledger T' (db w) j))
    \<and> db w' = (case res of Inl err \<Rightarrow> db w
        | Inr d \<Rightarrow> (db w)\<lparr>delegations := map (\<lambda>x. if d_ID x = i then d else x) (delegations (db w))\<rparr>)"
proof (intro conjI allI)
  from DelegationRepository.End_outcome [OF assms(1-5), of i v] assms(6)
  show "res = (case ledger T (db w) i of
        None \<Rightarrow> Inl notFound
      | Some r \<Rightarrow>
          if \<not> openStatus (d_Status r) then Inl notFound
          else if d_RecordVersion r \<noteq> v then Inl (versionConflict (d_RecordVersion r))
          else Inr (r\<lparr>d_Status := st, d_UpdatedAt := pg_clock e (tick w), d_RecordVersion := d_RecordVersion r + 1\<rparr>))"
    by (simp add: End_outcome_def stamped_def split: option.split)
qed (rule End_state [OF assms(2-4,6)])+

theorem end_refines_ledger_witness:
  "\<exists>d w'. DelegationRepository_End demo_env AppPool demo_ctx 10 77 DelegationEnded 3 (demo_rows [demo_row]) = (Inr d, w')
     \<and> ledger 10 (db w') 77 = Some d \<and> d_Status d = DelegationEnded \<and> d_RecordVersion d = 4"
proof -
  obtain res w' where run: "DelegationRepository_End demo_env AppPool demo_ctx 10 77 DelegationEnded 3 (demo_rows [demo_row]) = (res, w')"
    by force
  from end_refines_ledger [OF demo_env_simps(1) demo_ctx_simps(2) demo_inv(2) _ _ run] run show ?thesis
    by (auto simp: demo_ledger)
qed

section \<open>The cascade\<close>

text \<open>
  C18: the first delivery of a MembershipRevoked event ends and soft-deletes
  every open delegation of the tenant that involves the user, as delegator or as delegate, and publishes one
  DelegationEnded (delegate removed) for each one whose delegate the user was, in table order;
  afterwards no open delegation involves the user.
\<close>

theorem revoked_ends_everything:
  assumes "c_tx c = None" "CascadeConsumer_Handle e v c evp w = (Inr x, w')" "ee_Type evp = ''MembershipRevoked''"
    and "uuid_Parse e (ee_ID evp) = Some i" "i \<noteq> 0" "unmarshalMembershipRevoked e (ee_Payload evp) = Inr p"
    and "\<not> event_seen consumerCascade (uuid_String e i) (db w)"
  shows "(\<exists>now. delegations (db w') = update_rows (involves (mr_TenantID p) (mr_UserID p)) (removedRow now) (delegations (db w)))
     \<and> outboxData (db w') = outboxData (db w) @ published (hasPublisher e \<or> c_publisher c)
         (map (\<lambda>r. endedPayload (mr_TenantID p) r EndReasonDelegateRemoved SystemActorID)
            (rows_matching (\<lambda>r. involves (mr_TenantID p) (mr_UserID p) r \<and> d_DelegateID r = mr_UserID p) (delegations (db w))))
     \<and> rows_matching (involves (mr_TenantID p) (mr_UserID p)) (delegations (db w')) = []"
  by (rule Handle_first_revoked [OF assms]) (auto simp: involves_none)

theorem revoked_ends_everything_witness:
  "\<exists>w'. CascadeConsumer_Handle demo_env None demo_ctx demo_revoked (demo_rows [demo_row]) = (Inr (), w')
     \<and> rows_matching (involves 10 2) (delegations (db w')) = []"
proof -
  have "\<not> isl (fst (CascadeConsumer_Handle demo_env None demo_ctx demo_revoked (demo_rows [demo_row])))" by code_simp
  then obtain x w' where run: "CascadeConsumer_Handle demo_env None demo_ctx demo_revoked (demo_rows [demo_row]) = (Inr x, w')"
    by (rule not_isl_run)
  have "unmarshalMembershipRevoked demo_env (ee_Payload demo_revoked) = Inr \<lparr>mr_TenantID = 10, mr_UserID = 2, mr_ActorID = 0\<rparr>" by code_simp
  moreover have "uuid_Parse demo_env (ee_ID demo_revoked) = Some 500" by code_simp
  moreover have "\<not> event_seen consumerCascade (uuid_String demo_env 500) (db (demo_rows [demo_row]))"
    by (simp add: event_seen_def demo_rows_def demo_db_def)
  ultimately show ?thesis
    using revoked_ends_everything [OF demo_ctx_simps(1) run, of 500 "\<lparr>mr_TenantID = 10, mr_UserID = 2, mr_ActorID = 0\<rparr>"] run
    by (simp add: demo_revoked_def)
qed

text \<open>
  C19: one delivery is all or nothing in the database, and its cascade takes effect once. A failed delivery has changed no
  row, event or ledger entry, so its redelivery starts afresh; a successful delivery of a consumed
  event has recorded the event under its bucket, and delivering the event again (with the dependencies up and
  a payload that still validates) is acknowledged and changes neither the database nor User Profile.
\<close>

theorem delivery_once:
  assumes "c_tx c = None" "CascadeConsumer_Handle e v c evp w = (r, w')"
  shows "case r of
      Inl err \<Rightarrow> db w' = db w
    | Inr _ \<Rightarrow> \<forall>i k. uuid_Parse e (ee_ID evp) = Some i \<and> i \<noteq> 0 \<and> bucketOf (ee_Type evp) = Some k
        \<longrightarrow> event_seen k (uuid_String e i) (db w')
          \<and> (no_faults e \<and> (\<forall>f. v = Some f \<longrightarrow> f (ee_Type evp) (ee_Payload evp) = None)
               \<and> (ee_Type evp = ''UserUpdated'' \<longrightarrow> \<not> isl (unmarshalUserUpdated e (ee_Payload evp)))
             \<longrightarrow> (\<exists>w''. CascadeConsumer_Handle e v c evp w' = (Inr (), w'') \<and> quiet w' w''))"
proof (cases r)
  case (Inl err)
  with assms show ?thesis by (auto intro: Handle_error)
next
  case (Inr x)
  have "event_seen k (uuid_String e i) (db w')
      \<and> (no_faults e \<and> (\<forall>f. v = Some f \<longrightarrow> f (ee_Type evp) (ee_Payload evp) = None)
           \<and> (ee_Type evp = ''UserUpdated'' \<longrightarrow> \<not> isl (unmarshalUserUpdated e (ee_Payload evp)))
         \<longrightarrow> (\<exists>w''. CascadeConsumer_Handle e v c evp w' = (Inr (), w'') \<and> quiet w' w''))"
    if ids: "uuid_Parse e (ee_ID evp) = Some i" "i \<noteq> 0" "bucketOf (ee_Type evp) = Some k" for i k
  proof -
    have seen: "event_seen k (uuid_String e i) (db w')" by (rule Handle_marks [OF assms(2) [unfolded Inr] ids])
    have "\<exists>w''. CascadeConsumer_Handle e v c evp w' = (Inr (), w'') \<and> quiet w' w''"
      if "no_faults e" "\<forall>f. v = Some f \<longrightarrow> f (ee_Type evp) (ee_Payload evp) = None"
        "ee_Type evp = ''UserUpdated'' \<longrightarrow> \<not> isl (unmarshalUserUpdated e (ee_Payload evp))"
      by (rule Handle_duplicate [OF that(1) assms(1) ids seen, where p = "projr (unmarshalUserUpdated e (ee_Payload evp))"])
        (use that in \<open>auto simp: sum.expand\<close>)
    with seen show ?thesis by blast
  qed
  with Inr show ?thesis by auto
qed

theorem delivery_once_witness:
  "\<exists>w' w''. CascadeConsumer_Handle demo_env None demo_ctx demo_revoked (demo_rows [demo_row]) = (Inr (), w')
     \<and> event_seen consumerCascade (uuid_String demo_env 500) (db w')
     \<and> CascadeConsumer_Handle demo_env None demo_ctx demo_revoked w' = (Inr (), w'') \<and> quiet w' w''"
proof -
  have "\<not> isl (fst (CascadeConsumer_Handle demo_env None demo_ctx demo_revoked (demo_rows [demo_row])))" by code_simp
  then obtain x w' where run: "CascadeConsumer_Handle demo_env None demo_ctx demo_revoked (demo_rows [demo_row]) = (Inr x, w')"
    by (rule not_isl_run)
  have "uuid_Parse demo_env (ee_ID demo_revoked) = Some 500" by code_simp
  moreover have "ee_Type demo_revoked \<noteq> ''UserUpdated''" "bucketOf (ee_Type demo_revoked) = Some consumerCascade"
    by (simp_all add: demo_revoked_def bucketOf_def)
  ultimately show ?thesis
    using delivery_once [OF demo_ctx_simps(1) run] run demo_env_simps(1) by auto
qed

text \<open>
  C26: disabling a user ends every open delegation of the tenant that names
  the user as delegate (and keeps it visible: it is not soft-deleted), and publishes for each one a
  DelegationEnded followed by the escalation request; User Profile is not called.
\<close>

theorem disabled_delegate_escalates:
  assumes "bound_ctx T c" "CascadeService_EndForDisabledDelegate e c T u w = (Inr x, w')"
  shows "(\<exists>now. changed (db w) (update_rows (delegateOpen T u) (endedRow now) (delegations (db w)))
       (published (hasPublisher e \<or> c_publisher c)
          (concat (map (\<lambda>r. [endedPayload T r EndReasonDelegateDisabled SystemActorID, escalationPayload T r])
             (rows_matching (delegateOpen T u) (delegations (db w)))))) (db w'))
     \<and> pointerCalls w' = pointerCalls w \<and> rows_matching (delegateOpen T u) (delegations (db w')) = []"
  by (rule Cascade_EndForDisabledDelegate_ok [OF assms]) (auto simp: changed_def delegateOpen_none)

theorem disabled_delegate_escalates_witness:
  "\<exists>w'. CascadeService_EndForDisabledDelegate demo_env demo_ctx 10 2 (demo_rows [demo_row]) = (Inr (), w')
     \<and> rows_matching (delegateOpen 10 2) (delegations (db w')) = []"
proof -
  have "\<not> isl (fst (CascadeService_EndForDisabledDelegate demo_env demo_ctx 10 2 (demo_rows [demo_row])))" by code_simp
  then obtain x w' where run: "CascadeService_EndForDisabledDelegate demo_env demo_ctx 10 2 (demo_rows [demo_row]) = (Inr x, w')"
    by (rule not_isl_run)
  from disabled_delegate_escalates [OF request_bound [OF demo_ctx_simps(2)] run] run show ?thesis by simp
qed

section \<open>The cron jobs\<close>

text \<open>
  C27: an expiry run ends a selection, in order, of the batch it read: the live active delegations
  whose end has passed, earliest first and at most the batch limit. Each one ended becomes ended
  with the next version and publishes one DelegationEnded (expired), after User Profile acknowledged
  the clear of its delegator's pointer; nothing else changes. When nothing outside fails, the whole batch is ended.
\<close>

theorem expiry_effects:
  assumes "c_tx c = None" "db_inv (db w)" "Expiry e jc c w = (Inr res, w')"
  shows "\<exists>hit calls. subseq hit (expiryBatch jc (clock e (tick w)) (db w))
     \<and> swept endedRow (expiredPayload EndReasonExpired) (hasPublisher e \<or> c_publisher c) hit (db w) (db w')
     \<and> res_Succeeded res = int (length hit) \<and> res_Attempted res = int (length (expiryBatch jc (clock e (tick w)) (db w)))
     \<and> res_Succeeded res + res_Failed res + res_Deferred res \<le> res_Attempted res
     \<and> up_log w' = up_log w @ calls \<and> (\<forall>r \<in> set hit. UPClear (d_TenantID r) (d_DelegatorID r) True \<in> set calls)
     \<and> (all_up e \<longrightarrow> hit = expiryBatch jc (clock e (tick w)) (db w))"
  by (rule Expiry_ok [OF assms], intro exI conjI) (assumption | simp add: raced_def)+

theorem expiry_effects_witness:
  "\<exists>res w'. Expiry demo_env demo_jobs demo_ctx (demo_rows [demo_expired]) = (Inr res, w') \<and> res_Succeeded res = 1"
proof -
  have "\<not> isl (fst (Expiry demo_env demo_jobs demo_ctx (demo_rows [demo_expired])))" by code_simp
  then obtain res w' where run: "Expiry demo_env demo_jobs demo_ctx (demo_rows [demo_expired]) = (Inr res, w')"
    by (rule not_isl_run)
  have "length (expiryBatch demo_jobs demo_now (db (demo_rows [demo_expired]))) = 1" by code_simp
  with expiry_effects [OF demo_ctx_simps(1) demo_inv(3) run] run show ?thesis by auto
qed

text \<open>
  C28: an activation run makes active a selection, in order, of the scheduled delegations whose
  start has come (earliest first, at most the batch limit), publishes one DelegationStarted for each and
  had User Profile acknowledge the out-of-office of each delegator first; when nothing outside
  fails it activates the whole batch.
\<close>

theorem activation_effects:
  assumes "c_tx c = None" "db_inv (db w)" "Activation e jc c w = (Inr res, w')"
  shows "\<exists>hit calls. subseq hit (activationBatch jc (clock e (tick w)) (db w))
     \<and> swept activatedRow activatedPayload (hasPublisher e \<or> c_publisher c) hit (db w) (db w')
     \<and> res_Succeeded res = int (length hit) \<and> res_Attempted res = int (length (activationBatch jc (clock e (tick w)) (db w)))
     \<and> res_Succeeded res + res_Failed res + res_Deferred res \<le> res_Attempted res
     \<and> up_log w' = up_log w @ calls \<and> (\<forall>r \<in> set hit. set (oooCall r) \<subseteq> set calls)
     \<and> (all_up e \<longrightarrow> hit = activationBatch jc (clock e (tick w)) (db w))"
  by (rule Activation_ok [OF assms], intro exI conjI) (assumption | simp add: raced_def)+

theorem activation_effects_witness:
  "\<exists>res w'. Activation demo_env demo_jobs demo_ctx (demo_rows [demo_scheduled]) = (Inr res, w') \<and> res_Succeeded res = 1"
proof -
  have "\<not> isl (fst (Activation demo_env demo_jobs demo_ctx (demo_rows [demo_scheduled])))" by code_simp
  then obtain res w' where run: "Activation demo_env demo_jobs demo_ctx (demo_rows [demo_scheduled]) = (Inr res, w')"
    by (rule not_isl_run)
  have "length (activationBatch demo_jobs demo_now (db (demo_rows [demo_scheduled]))) = 1" by code_simp
  with activation_effects [OF demo_ctx_simps(1) demo_inv(4) run] run show ?thesis by auto
qed

text \<open>
  C29: a review sweep first warns a selection of the open-ended delegations due for review within three
  days that were not yet warned for that day (marking the day and publishing one review request each), then ends a
  selection of those whose review date has passed, after clearing their pointers; it counts both, and
  when nothing outside fails it does so for both whole batches.
\<close>

theorem review_sweep_effects:
  assumes "c_tx c = None" "db_inv (db w)" "ReviewSweep e jc c w = (Inr res, w')"
  shows "\<exists>warned mid ended calls. subseq warned (warnBatch jc (clock e (tick w)) (db w))
     \<and> swept (warnUpd (clock e (tick w))) (warnPay (clock e (tick w))) (hasPublisher e \<or> c_publisher c) warned (db w) mid
     \<and> subseq ended (autoEndBatch jc (clock e (tick w)) mid)
     \<and> swept endedRow (expiredPayload EndReasonReviewExpired) (hasPublisher e \<or> c_publisher c) ended mid (db w')
     \<and> res_Warned3d res + res_Warned2d res + res_Warned1d res = int (length warned) \<and> res_Expired res = int (length ended)
     \<and> up_log w' = up_log w @ calls \<and> (\<forall>r \<in> set ended. UPClear (d_TenantID r) (d_DelegatorID r) True \<in> set calls)
     \<and> (all_up e \<longrightarrow> warned = warnBatch jc (clock e (tick w)) (db w) \<and> ended = autoEndBatch jc (clock e (tick w)) mid)"
  by (rule ReviewSweep_ok [OF assms], intro exI conjI) (assumption | simp add: warnedCount_def)+

theorem review_sweep_effects_witness:
  "\<exists>res w'. ReviewSweep demo_env demo_jobs demo_ctx (demo_rows [demo_due]) = (Inr res, w')
     \<and> res_Warned3d res + res_Warned2d res + res_Warned1d res = 1"
proof -
  have "\<not> isl (fst (ReviewSweep demo_env demo_jobs demo_ctx (demo_rows [demo_due])))" by code_simp
  then obtain res w' where run: "ReviewSweep demo_env demo_jobs demo_ctx (demo_rows [demo_due]) = (Inr res, w')"
    by (rule not_isl_run)
  have "length (warnBatch demo_jobs demo_now (db (demo_rows [demo_due]))) = 1" by code_simp
  with review_sweep_effects [OF demo_ctx_simps(1) demo_inv(5) run] run show ?thesis by auto
qed

text \<open>
  C30: a cleanup run removes exactly its batch, rows soft-deleted longer ago than the retention,
  oldest first and at most the batch limit; every other row, the outbox and the settings stay, and the
  reported number is the number of rows removed.
\<close>

theorem cleanup_purges_only_old:
  assumes "c_tx c = None" "db_inv (db w)" "Cleanup e jc c w = (Inr res, w')"
  shows "only_ledger ((db w)\<lparr>delegations := filter (\<lambda>r. r \<notin> set (purgeBatch jc (clock e (tick w)) (db w))) (delegations (db w))\<rparr>) (db w')
     \<and> res_Purged res = int (length (purgeBatch jc (clock e (tick w)) (db w)))
     \<and> (\<forall>r \<in> set (purgeBatch jc (clock e (tick w)) (db w)). \<exists>t. d_DeletedAt r = Some t \<and> t + retentionDays jc * day < clock e (tick w))"
  using Cleanup_ok [OF assms] by (auto elim: purgeBatch_old)

theorem cleanup_purges_only_old_witness:
  "\<exists>res w'. Cleanup demo_env demo_jobs demo_ctx (demo_rows [demo_row]) = (Inr res, w') \<and> res_Purged res = 0 \<and> delegations (db w') = [demo_row]"
proof -
  have "\<not> isl (fst (Cleanup demo_env demo_jobs demo_ctx (demo_rows [demo_row])))" by code_simp
  then obtain res w' where run: "Cleanup demo_env demo_jobs demo_ctx (demo_rows [demo_row]) = (Inr res, w')"
    by (rule not_isl_run)
  have "purgeBatch demo_jobs demo_now (db (demo_rows [demo_row])) = []" by code_simp
  with cleanup_purges_only_old [OF demo_ctx_simps(1) demo_inv(2) run] run show ?thesis by (auto simp: only_ledger_def)
qed

section \<open>The HTTP surface\<close>

text \<open>
  C3: whatever the environment does, a Cancel, Extend or Reassign request that
  changes the database or calls User Profile comes from a caller the gateway authenticated, names a
  live delegation of the caller's tenant, and the caller is its delegator or an admin of the tenant.
\<close>

theorem http_owner_only:
  assumes "route \<in> {R_Cancel, R_Extend, R_Reassign}" "NewRouter e g route rq w = (r, w')" "\<not> quiet w w'"
  shows "\<exists>p T did d. g_Protected g rq = Inr (Some p) \<and> uuid_Parse e (pid_TenantID p) = Some T
    \<and> uuid_Parse e (valueOf ''id'' (rq_Params rq)) = Some did
    \<and> d \<in> set (delegations (db w)) \<and> liveRow T did d
    \<and> (uuid_String e (d_DelegatorID d) = pid_UserID p \<or> ''tenant_admin'' \<in> set (pid_Roles p) \<or> ''tenant_owner'' \<in> set (pid_Roles p))"
  using owner_routes [OF assms(1,2)] assms(3) by blast

theorem http_owner_only_witness:
  "\<exists>w'. snd (NewRouter demo_env (demo_gin ''1'' []) R_Cancel demo_cancel (demo_rows [demo_row])) = w'
     \<and> \<not> quiet (demo_rows [demo_row]) w' \<and> uuid_String demo_env (d_DelegatorID demo_row) = ''1''"
proof -
  obtain resp w' where run: "NewRouter demo_env (demo_gin ''1'' []) R_Cancel demo_cancel (demo_rows [demo_row]) = (Inr resp, w')"
    and st: "map d_Status (delegations (db w')) = [DelegationCancelled]"
    by (rule demo_cancel_run)
  from st have "\<not> quiet (demo_rows [demo_row]) w'" by (auto simp: quiet_def)
  with http_owner_only [OF _ run] have "uuid_String demo_env (d_DelegatorID demo_row) = ''1''" by (auto simp: demo_gin_def)
  with run \<open>\<not> quiet (demo_rows [demo_row]) w'\<close> show ?thesis by simp
qed

text \<open>
  C7: a public request acts for the tenant of its caller alone. Without an
  authenticated caller whose tenant parses, the world does not change at all; with one, the
  delegations and the policy of every other tenant stay what they were, whatever the route, the
  request and the outcome.
\<close>

theorem http_tenant_isolation:
  assumes "route \<in> publicRoutes"
  shows "case callerTenant e g rq of
      None \<Rightarrow> snd (NewRouter e g route rq w) = w
    | Some T \<Rightarrow> other_tenants_kept T (db w) (db (snd (NewRouter e g route rq w)))"
  using no_tenant_no_effect [OF assms] public_isolated [OF assms] by (simp split: option.split)

theorem http_tenant_isolation_witness:
  "demo_foreign \<in> set (delegations (db (snd (NewRouter demo_env (demo_gin ''1'' []) R_Cancel demo_cancel (demo_rows [demo_row, demo_foreign])))))"
proof -
  let ?w = "snd (NewRouter demo_env (demo_gin ''1'' []) R_Cancel demo_cancel (demo_rows [demo_row, demo_foreign]))"
  have "R_Cancel \<in> publicRoutes" by (simp add: publicRoutes_def)
  from http_tenant_isolation [OF this, of demo_env "demo_gin ''1'' []" demo_cancel "demo_rows [demo_row, demo_foreign]"]
  have "filter (\<lambda>r. d_TenantID r \<noteq> 10) (delegations (db ?w)) = [demo_foreign]"
    by (simp add: other_tenants_kept_def demo_foreign_def)
  then have "demo_foreign \<in> set (filter (\<lambda>r. d_TenantID r \<noteq> 10) (delegations (db ?w)))" by simp
  then show ?thesis by (simp only: set_filter mem_Collect_eq)
qed

text \<open>
  C33: a request to set the tenant's policy that changes anything comes from an authenticated
  caller with the role tenant_admin or tenant_owner. After it succeeded, a successful read by any caller of
  the same tenant answers exactly what the write answered, and both hold the two numbers of the request's
  body, each between 1 and 180.
\<close>

theorem settings_put_get:
  assumes "NewRouter e g R_SettingsSet rq w = (r, w')"
  shows "(w' \<noteq> w \<longrightarrow> (\<exists>p. g_Protected g rq = Inr (Some p)
      \<and> (''tenant_admin'' \<in> set (pid_Roles p) \<or> ''tenant_owner'' \<in> set (pid_Roles p))))
    \<and> (\<forall>resp e2 g2 rq2 resp2 w2. r = Inr resp \<and> NewRouter e2 g2 R_SettingsGet rq2 w' = (Inr resp2, w2)
        \<and> callerTenant e2 g2 rq2 = callerTenant e g rq
      \<longrightarrow> resp2 = resp \<and> (\<exists>req v. bindSettings (firstValue rq) = Some req
        \<and> sq_MaxDurationDays req \<in> {1..180} \<and> sq_ReviewWindowDays req \<in> {1..180}
        \<and> resp = JSON 200 (BodySettings \<lparr>se_MaxDurationDays = sq_MaxDurationDays req,
            se_ReviewWindowDays = sq_ReviewWindowDays req, se_RecordVersion = v\<rparr>)))"
proof (intro conjI allI impI)
  show "\<exists>p. g_Protected g rq = Inr (Some p) \<and> (''tenant_admin'' \<in> set (pid_Roles p) \<or> ''tenant_owner'' \<in> set (pid_Roles p))"
    if "w' \<noteq> w" by (rule settings_set_admin [OF assms that])
next
  fix resp e2 g2 rq2 resp2 w2
  assume "r = Inr resp \<and> NewRouter e2 g2 R_SettingsGet rq2 w' = (Inr resp2, w2) \<and> callerTenant e2 g2 rq2 = callerTenant e g rq"
  with assms have "NewRouter e g R_SettingsSet rq w = (Inr resp, w')" "NewRouter e2 g2 R_SettingsGet rq2 w' = (Inr resp2, w2)"
    "callerTenant e2 g2 rq2 = callerTenant e g rq" by simp_all
  note rb = settings_read_back [OF this]
  from rb(1) show "resp2 = resp" .
  from rb(2) show "\<exists>req v. bindSettings (firstValue rq) = Some req
      \<and> sq_MaxDurationDays req \<in> {1..180} \<and> sq_ReviewWindowDays req \<in> {1..180}
      \<and> resp = JSON 200 (BodySettings \<lparr>se_MaxDurationDays = sq_MaxDurationDays req,
          se_ReviewWindowDays = sq_ReviewWindowDays req, se_RecordVersion = v\<rparr>)" .
qed

theorem settings_put_get_witness:
  "\<exists>resp w' w2 v. NewRouter demo_env (demo_gin ''1'' [''tenant_admin'']) R_SettingsSet demo_put demo_world = (Inr resp, w')
     \<and> NewRouter demo_env (demo_gin ''2'' []) R_SettingsGet demo_request w' = (Inr resp, w2)
     \<and> resp = JSON 200 (BodySettings \<lparr>se_MaxDurationDays = 30, se_ReviewWindowDays = 60, se_RecordVersion = v\<rparr>)"
proof -
  let ?put = "NewRouter demo_env (demo_gin ''1'' [''tenant_admin'']) R_SettingsSet demo_put demo_world"
  have "\<not> isl (fst ?put)" by code_simp
  then obtain resp w' where put: "?put = (Inr resp, w')" by (rule not_isl_run)
  have "\<not> isl (fst (NewRouter demo_env (demo_gin ''2'' []) R_SettingsGet demo_request (snd ?put)))" by code_simp
  with put have "\<not> isl (fst (NewRouter demo_env (demo_gin ''2'' []) R_SettingsGet demo_request w'))" by simp
  then obtain resp2 w2 where "get": "NewRouter demo_env (demo_gin ''2'' []) R_SettingsGet demo_request w' = (Inr resp2, w2)"
    by (rule not_isl_run)
  have "bindSettings (firstValue demo_put) = Some \<lparr>sq_MaxDurationDays = 30, sq_ReviewWindowDays = 60\<rparr>" by code_simp
  with settings_put_get [OF put, THEN conjunct2, rule_format, of resp demo_env "demo_gin ''2'' []" demo_request resp2 w2] put "get"
  show ?thesis by auto
qed



section \<open>The services it calls\<close>

text \<open>
  C21: with the real Org Membership client behind the port, a Create that
  changed the database had asked that service about both members before. The transaction that wrote the row
  began on the database the call had found, at a moment (\<open>tick w3\<close>) after two replies received
  during this call, one for the delegator and one for the delegate, in no order the claim fixes; each is a 200 whose JSON body says
  active (\<open>saidActive\<close> spells it out), and the row carries the two membership ids of those
  replies. So an outage, another status or a body that does not decode never lets a delegation through.
\<close>

theorem create_asks_org_membership:
  assumes "c_tx c = None" "sane_clock e"
    and "DelegationService_Create (with_clients net up om cat e) c T u key req w = (Inr d, w')" "db w' \<noteq> db w"
  shows "\<exists>p w3 w4 n m. Create_commit (with_clients net up om cat e) c T u req p w3 = (Inr d, w4) \<and> db w3 = db w
    \<and> w' = Create_finish (with_clients net up om cat e) T u key d w4
    \<and> tick w \<le> n \<and> n < tick w3 \<and> saidActive e net om n T u (d_DelegatorMembershipID d)
    \<and> tick w \<le> m \<and> m < tick w3 \<and> saidActive e net om m T (ci_DelegateID req) (d_DelegateMembershipID d)"
proof -
  have "sane_clock (with_clients net up om cat e)" using assms(2) by (simp add: sane_clock_def)
  from fresh_memberships [OF assms(1) this assms(3,4)] show ?thesis
    unfolding with_clients_simps by (metis exists_fails_closed)
qed

theorem create_asks_org_membership_witness:
  "\<exists>d w'. DelegationService_Create (with_clients demo_net demo_client demo_client None demo_env) demo_ctx 10 1 ''k'' demo_req demo_world = (Inr d, w')
     \<and> (\<exists>n. tick demo_world \<le> n \<and> n < tick w' \<and> saidActive demo_env demo_net demo_client n 10 1 (d_DelegatorMembershipID d))"
proof -
  let ?e = "with_clients demo_net demo_client demo_client None demo_env"
  let ?run = "DelegationService_Create ?e demo_ctx 10 1 ''k'' demo_req demo_world"
  have "\<not> isl (fst ?run)" by code_simp
  then obtain d w' where run: "?run = (Inr d, w')" by (rule not_isl_run)
  have "length (delegations (db (snd ?run))) = 1" by code_simp
  with run have "db w' \<noteq> db demo_world" by (auto simp: demo_world_def demo_db_def)
  from create_asks_org_membership [OF demo_ctx_simps(1) demo_env_simps(3) run this]
  obtain p w3 w4 n where k: "Create_commit ?e demo_ctx 10 1 demo_req p w3 = (Inr d, w4)" "w' = Create_finish ?e 10 1 ''k'' d w4"
    and n: "tick demo_world \<le> n" "n < tick w3" "saidActive demo_env demo_net demo_client n 10 1 (d_DelegatorMembershipID d)"
    by blast
  have "tick w3 \<le> tick w'"
    using Create_later(7) [of w3 ?e demo_ctx 10 1 demo_req p] Create_later(8) [of w4 ?e 10 1 "''k''" d] k by simp
  with run n show ?thesis by fastforce
qed

section \<open>Events on the wire\<close>

text \<open>
  C35: what the Glue codec encodes, either decoder reads back: the payload unchanged,
  behind a header of 18 bytes that holds the 16 bytes of the schema version the encoder reports.
\<close>

theorem glue_roundtrip:
  assumes "GlueCodec_Encode e rg etype payload g = (Inr (out, vid), g')"
  shows "GlueCodec_Decode out = Inr payload \<and> GlueDecodeCodec_Decode out = Inr payload
    \<and> length out = glueHeaderSize + length payload \<and> uuid_Parse e vid = Some (uuid_of_bytes (take 16 (drop 2 out)))"
  using header_round_trip [OF Encode_ok(1) [OF assms]] by (simp add: GlueCodec_Decode_def GlueDecodeCodec_Decode_def)

theorem glue_roundtrip_witness:
  "\<exists>out vid g'. GlueCodec_Encode demo_env demo_registry ''DelegationEnded'' ''{}''
       \<lparr>gl_registryName = ''r'', gl_definitions = (\<lambda>_. Some ''{ }''), gl_versionCache = (\<lambda>_. None), gl_calls = 0\<rparr> = (Inr (out, vid), g')
     \<and> GlueCodec_Decode out = Inr ''{}''"
proof -
  let ?run = "GlueCodec_Encode demo_env demo_registry ''DelegationEnded'' ''{}''
       \<lparr>gl_registryName = ''r'', gl_definitions = (\<lambda>_. Some ''{ }''), gl_versionCache = (\<lambda>_. None), gl_calls = 0\<rparr>"
  have "\<not> isl (fst ?run)" by code_simp
  then obtain out vid g' where run: "?run = (Inr (out, vid), g')" by (rule not_isl_run) (metis surj_pair)
  with glue_roundtrip [OF run] show ?thesis by blast
qed

text \<open>
  C34: the payload of every event the service builds from a row that satisfies the table's
  constraints passes the embedded schema of its event type, so the check on enqueue never refuses
  one of the service's own events: DelegationStarted, DelegationEnded with any reason, the review request with 1 to 3 days
  remaining, and the escalation request.
\<close>

theorem own_events_valid:
  assumes "formatsOK fmt e" "delegationRowOK r" "wireTimes r" "n \<in> {1, 2, 3}"
  shows "enqueueValid fmt e (startedPayload T r a) \<and> enqueueValid fmt e (endedPayload T r reason a)
    \<and> enqueueValid fmt e (reviewPayload r n) \<and> enqueueValid fmt e (escalationPayload T r)"
  using started_valid [OF assms(1-3)] ended_valid [OF assms(1,2)] review_valid [OF assms(1,2,4)] escalation_valid [OF assms(1,2)]
  by blast

theorem own_events_valid_witness:
  "enqueueValid (\<lambda>_ _. True) demo_env (startedPayload 10 demo_row 1) \<and> enqueueValid (\<lambda>_ _. True) demo_env (reviewPayload demo_row 2)"
proof -
  have f: "formatsOK (\<lambda>_ _. True) demo_env" by (simp add: formatsOK_def)
  have r: "delegationRowOK demo_row" by (simp add: delegationRowOK_def chk_scope_id_def demo_row_def)
  have "wireTimes demo_row" by (simp add: wireTimes_def demo_row_def)
  from own_events_valid [OF f r this, of 2] show ?thesis by blast
qed

section \<open>The service as a whole\<close>

text \<open>
  C2: along any sequence of requests, deliveries and cron runs, with whatever
  faults, callers and payloads, the database keeps its invariant (unique ids, every row within the table's
  constraints, policies within 1 to 180, one ledger entry per event and consumer); no event
  leaves the outbox; and every row of the delegations table at the start is in the table at the end with
  the parties, scope and window it had, a version that has not gone down, unchanged if the version is the
  same, and with its status if it had ended or been cancelled. The only exception is a row that one of the
  cleanups of the run took out: that cleanup found it in the table, evolved from the row at the start
  in the same way, soft-deleted longer ago than the retention.
\<close>

theorem service_keeps_history:
  assumes "sys_run D as w w'" "db_inv (db w)"
  defines "still \<equiv> \<lambda>r r'. same_grant r r' \<and> d_RecordVersion r \<le> d_RecordVersion r'
    \<and> (d_RecordVersion r' = d_RecordVersion r \<longrightarrow> r' = r) \<and> (\<not> openStatus (d_Status r) \<longrightarrow> d_Status r' = d_Status r)"
  shows "db_inv (db w') \<and> (\<exists>evs. outbox (db w') = outbox (db w) @ evs)
    \<and> (\<forall>r \<in> set (delegations (db w)).
         (\<exists>r' \<in> set (delegations (db w')). still r r')
         \<or> (\<exists>as1 as2 v v2 t. as = as1 @ ACleanup # as2
              \<and> sys_run D as1 w v \<and> sys_step D ACleanup v v2 \<and> sys_run D as2 v2 w'
              \<and> (\<exists>r' \<in> set (delegations (db v)). still r r' \<and> r' \<notin> set (delegations (db v2))
                   \<and> d_DeletedAt r' = Some t \<and> t + retentionDays (dp_jobs D) * day < clock (dp_env D) (tick v))))"
proof (intro conjI ballI)
  from sys_run_history [OF assms(1)] assms(2) show "db_inv (db w')" "\<exists>evs. outbox (db w') = outbox (db w) @ evs"
    by (simp_all add: history_def)
  have still: "still r r'" if "row_evolves r r'" for r r'
    using that closed_evolves [OF that] by (auto simp: row_evolves_def still_def)
  fix r assume "r \<in> set (delegations (db w))"
  from sys_run_rows [OF assms(1,2) this] show "(\<exists>r' \<in> set (delegations (db w')). still r r')
         \<or> (\<exists>as1 as2 v v2 t. as = as1 @ ACleanup # as2
              \<and> sys_run D as1 w v \<and> sys_step D ACleanup v v2 \<and> sys_run D as2 v2 w'
              \<and> (\<exists>r' \<in> set (delegations (db v)). still r r' \<and> r' \<notin> set (delegations (db v2))
                   \<and> d_DeletedAt r' = Some t \<and> t + retentionDays (dp_jobs D) * day < clock (dp_env D) (tick v)))"
    unfolding purged_during_def using still by blast
qed

theorem service_keeps_history_witness:
  "\<exists>w'. sys_run demo_deployment [AExpiry, ARequest R_Cancel demo_cancel] (demo_rows [demo_row]) w' \<and> db_inv (db w')"
proof -
  obtain w1 w2 where "sys_step demo_deployment AExpiry (demo_rows [demo_row]) w1"
    "sys_step demo_deployment (ARequest R_Cancel demo_cancel) w1 w2"
    using sys_step_total by meson
  then have run: "sys_run demo_deployment [AExpiry, ARequest R_Cancel demo_cancel] (demo_rows [demo_row]) w2"
    by (auto intro: sys_run.intros)
  have "db_inv (db w2)" by (rule service_keeps_history [OF run demo_inv(2), THEN conjunct1])
  with run show ?thesis by blast
qed

text \<open>
  C13: of two cancellations that name the same version of a delegation at most one succeeds, whatever
  requests, deliveries and sweeps run in between (the purge of soft-deleted rows apart): the second is refused.
\<close>

theorem one_writer_per_version:
  assumes "c_tx c = None" "c_tx c2 = None" "db_inv (db w)"
    and "cancelInternal e c T i v reason w = (Inr d, w1)" "sys_run D as w1 w2" "ACleanup \<notin> set as"
  shows "isl (fst (cancelInternal e' c2 T i v reason2 w2))"
  by (rule second_cancel_loses [OF assms])

theorem one_writer_per_version_witness:
  "\<exists>d w1. cancelInternal demo_env demo_ctx 10 77 3 EndReasonCancelled (demo_rows [demo_row]) = (Inr d, w1)
     \<and> isl (fst (cancelInternal demo_env demo_ctx 10 77 3 EndReasonCancelled w1))"
proof -
  have "\<not> isl (fst (cancelInternal demo_env demo_ctx 10 77 3 EndReasonCancelled (demo_rows [demo_row])))" by code_simp
  then obtain d w1 where run: "cancelInternal demo_env demo_ctx 10 77 3 EndReasonCancelled (demo_rows [demo_row]) = (Inr d, w1)"
    by (rule not_isl_run)
  from one_writer_per_version [OF demo_ctx_simps(1) demo_ctx_simps(1) demo_inv(2) run sys_run.nil] run show ?thesis by simp
qed

text \<open>
  C15: with the dependencies up, a backlog of delegations past their end is
  worked off in batches whatever its size: once the batch limit times the number of runs reaches the backlog, no active delegation
  that was past its end at time \<open>t\<close> is left. (The batch takes the oldest first, so none starves.)
\<close>

theorem expiry_backlog_drains:
  assumes "all_up e" "c_tx c = None" "\<And>n. t \<le> clock e n" "db_inv (db w)"
    and "int (length (backlog t (db w))) \<le> int k * limitOrDefault (batchLimit jc)"
  shows "backlog t (db (expiryRuns e jc c k w)) = []"
  by (rule backlog_drains [OF assms])

theorem expiry_backlog_drains_witness:
  "backlog demo_now (db (demo_rows [demo_expired])) \<noteq> []
   \<and> backlog demo_now (db (expiryRuns demo_env demo_jobs demo_ctx 1 (demo_rows [demo_expired]))) = []"
proof
  show "backlog demo_now (db (demo_rows [demo_expired])) \<noteq> []"
    by (simp add: backlog_def rows_matching_def expiringRow_def demo_expired_def)
  show "backlog demo_now (db (expiryRuns demo_env demo_jobs demo_ctx 1 (demo_rows [demo_expired]))) = []"
  proof (rule expiry_backlog_drains)
    have "int (length (backlog demo_now (db (demo_rows [demo_expired])))) \<le> 1"
      by (simp add: backlog_def rows_matching_def)
    with limit_pos [of "batchLimit demo_jobs"] show "int (length (backlog demo_now (db (demo_rows [demo_expired])))) \<le> int 1 * limitOrDefault (batchLimit demo_jobs)"
      by simp
  qed simp_all
qed

section \<open>Start-up\<close>

text \<open>
  C38: a server whose configuration loads has a database to connect to, has a direct
  connection for migrations when it runs behind PgBouncer, has the privileged connection of the
  cross-tenant sweeps unless its environment is a development one, and under \<open>ENVIRONMENT=production\<close> serves a
  documentation page only to a request that carries the configured, non-empty bearer token.
\<close>

theorem config_guards:
  assumes "loadConfig pd env = Inr cfg"
  shows "(env ''DATABASE_URL'' \<noteq> '''' \<or> env ''PG_HOST'' \<noteq> '''' \<and> env ''PG_USER'' \<noteq> '''' \<and> env ''PG_PASSWORD'' \<noteq> '''')
    \<and> (env ''PG_BOUNCER_MODE'' = ''true'' \<longrightarrow> env ''MIGRATION_DATABASE_URL'' \<noteq> '''')
    \<and> (isDevLikeEnvironment (resolveAppEnv env) \<or> env ''SYSTEM_DATABASE_URL'' \<noteq> '''')
    \<and> (\<forall>rq page p w w'. cf_Environment cfg = ''production'' \<and> docsRoutes (serverDocs cfg) rq page w = (Inr p, w')
         \<longrightarrow> cf_DocsAuthToken cfg \<noteq> '''' \<and> valueOf ''Authorization'' (rq_Headers rq) = ''Bearer '' @ cf_DocsAuthToken cfg)"
  using loadConfig_guards(1-3) [OF assms] docs_locked [OF assms] by blast

theorem config_guards_witness:
  "\<exists>cfg. loadConfig (\<lambda>_. None) appEnvOnly = Inr cfg \<and> appEnvOnly ''SYSTEM_DATABASE_URL'' \<noteq> ''''"
proof -
  obtain cfg where cfg: "loadConfig (\<lambda>_. None) appEnvOnly = Inr cfg" by (rule appEnvOnly_loads)
  have "\<not> isDevLikeEnvironment (resolveAppEnv appEnvOnly)"
    by (simp add: docs_open_by_app_env [THEN conjunct1] isDevLikeEnvironment_def)
  with config_guards [OF cfg] cfg show ?thesis by blast
qed

section \<open>Everything at once\<close>

text \<open>
  C5: whatever sequence of transactions of the service runs, with whatever
  arguments, every delegation only moves forward (from not existing over scheduled and active to
  closed), and the events added to the outbox tell the same story: for each delegation a start is
  announced at most once, its end at most once and after its start, and each announcement is of a
  phase the delegation entered meanwhile.
\<close>

theorem events_tell_the_lifecycle:
  assumes "txns d d'" "db_inv d"
  shows "\<exists>evs. outboxData d' = outboxData d @ evs
    \<and> (\<forall>i. phase d i \<le> phase d' i \<and> sorted_wrt (<) (announced i evs) \<and> set (announced i evs) \<subseteq> {phase d i <.. phase d' i})"
  using txns_life [OF assms(1)] assms(2) by (auto simp: lifecycle_def news_def)

theorem events_tell_the_lifecycle_witness:
  "\<exists>resp w' evs. NewRouter demo_env (demo_gin ''1'' []) R_Cancel demo_cancel (demo_rows [demo_row]) = (Inr resp, w')
     \<and> outboxData (db w') = evs \<and> sorted_wrt (<) (announced 77 evs) \<and> phase (db (demo_rows [demo_row])) 77 \<le> phase (db w') 77"
proof -
  obtain resp w' where run: "NewRouter demo_env (demo_gin ''1'' []) R_Cancel demo_cancel (demo_rows [demo_row]) = (Inr resp, w')"
    by (rule demo_cancel_run)
  then have "sys_run demo_deployment [ARequest R_Cancel demo_cancel] (demo_rows [demo_row]) w'"
    by (auto intro!: sys_run.intros sys_step.intros)
  then have "txns (db (demo_rows [demo_row])) (db w')" by (rule sys_run_txns) simp
  from events_tell_the_lifecycle [OF this demo_inv(2)] run show ?thesis by (auto simp: outboxData_def)
qed

text \<open>
  C6: a delegation row that a step of the service adds comes from an authenticated request of
  a caller of its tenant: a POST by the delegator in person, or a reassignment, by the delegator or an admin, of a live
  delegation the same delegator had granted before. No event, no job and no other route ever makes anyone a delegate.
\<close>

theorem grants_by_delegator:
  assumes "sys_step D a w w'" "db_inv (db w)"
    and "r' \<in> set (delegations (db w'))" "d_ID r' \<notin> d_ID ` set (delegations (db w))"
  shows "\<exists>route rq p. a = ARequest route rq \<and> g_Protected (dp_gin D) rq = Inr (Some p)
    \<and> uuid_Parse (dp_env D) (pid_TenantID p) = Some (d_TenantID r')
    \<and> (route = R_Create \<and> uuid_Parse (dp_env D) (pid_UserID p) = Some (d_DelegatorID r')
       \<or> route = R_Reassign \<and> (\<exists>did r. uuid_Parse (dp_env D) (valueOf ''id'' (rq_Params rq)) = Some did
            \<and> r \<in> set (delegations (db w)) \<and> liveRow (d_TenantID r') did r \<and> d_DelegatorID r = d_DelegatorID r'
            \<and> (uuid_String (dp_env D) (d_DelegatorID r) = pid_UserID p
               \<or> ''tenant_admin'' \<in> set (pid_Roles p) \<or> ''tenant_owner'' \<in> set (pid_Roles p))))"
  by (rule grantor_of_new_row [OF assms]) blast

theorem grants_by_delegator_witness:
  "\<exists>w' r'. sys_step demo_deployment (ARequest R_Create demo_post) demo_world w' \<and> delegations (db w') = [r']
     \<and> (\<exists>p. g_Protected (demo_gin ''1'' []) demo_post = Inr (Some p) \<and> uuid_Parse demo_env (pid_UserID p) = Some (d_DelegatorID r'))"
proof -
  obtain resp w' r' where run: "NewRouter demo_env (demo_gin ''1'' []) R_Create demo_post demo_world = (Inr resp, w')"
    and r': "delegations (db w') = [r']" by (rule demo_post_run)
  have step: "sys_step demo_deployment (ARequest R_Create demo_post) demo_world w'" using run by (auto intro: sys_step.intros)
  from grants_by_delegator [OF step demo_inv(1), of r'] r' step show ?thesis
    by (auto simp: demo_world_def demo_db_def)
qed

text \<open>
  C11: a DELETE whose ownership check, read and transaction are each separated by arbitrary transactions
  of other requests, deliveries and jobs. If it answers success it still has cancelled exactly the row the path names, as it stood when
  its transaction began: at the version the caller asked for, not yet closed, of the caller's tenant, and one
  the caller may act on; with one event, and one call that clears the delegator's pointer.
\<close>

theorem cancel_among_others:
  assumes "cancel_race e g rq c v w w4 (Inr out) w'" "c_tx c = None" "db_inv (db w)"
  shows "\<exists>rc T i r now ok. c_rc c = Some rc \<and> uuid_Parse e (rc_TenantID rc) = Some T
    \<and> uuid_Parse e (valueOf ''id'' (rq_Params rq)) = Some i
    \<and> r \<in> set (delegations (db w4)) \<and> liveRow T i r \<and> selfOrAdmin e rc r \<and> d_RecordVersion r = v \<and> openStatus (d_Status r)
    \<and> out = stamped now (r\<lparr>d_Status := DelegationCancelled\<rparr>)
    \<and> changed (db w4) (replace_row out (delegations (db w4)))
        (if hasPublisher e \<or> c_publisher c then [endedPayload T r EndReasonCancelled (cancelActor e c r)] else []) (db w')
    \<and> pointerCalls w' = pointerCalls w4 @ [UPClear T (d_DelegatorID r) ok]"
  by (rule cancel_race_ok [OF assms]) blast

theorem cancel_among_others_witness:
  "\<exists>c w4 w' out. cancel_race demo_env (demo_gin ''1'' []) demo_cancel c 3 (demo_rows [demo_row]) w4 (Inr out) w'
     \<and> d_Status out = DelegationCancelled"
proof -
  let ?p = "\<lparr>pid_UserID = ''1'', pid_TenantID = ''10'', pid_Roles = [], pid_ClientIP = ''''\<rparr>"
  let ?c = "publicContext demo_env demo_cancel (Some ?p)"
  let ?run = "DelegationHandler_Cancel demo_env (demo_gin ''1'' []) demo_cancel ?c (demo_rows [demo_row])"
  have "\<not> isl (fst ?run)" by code_simp
  then obtain resp w' where run: "?run = (Inr resp, w')" by (rule not_isl_run)
  have "fst (ParseInt (valueOf ''record_version'' (rq_Query demo_cancel))) = 3" by code_simp
  with handler_cancel_race [OF run] obtain w4 out where
    race: "cancel_race demo_env (demo_gin ''1'' []) demo_cancel ?c 3 (demo_rows [demo_row]) w4 (Inr out) w'" by metis
  from cancel_among_others [OF race _ demo_inv(2)] race show ?thesis by (fastforce simp: stamped_def)
qed

text \<open>
  C12: a job lists its targets and then ends (or starts) them one by one, while anything else may run in
  between. For each target the step leaves the database alone, or the row is still exactly as it was listed and the step
  makes exactly the change meant for it, with its event. What someone else cancelled, ended or extended meanwhile is never overwritten.
\<close>

theorem sweep_among_others:
  assumes "c_tx c = None" "db_inv (db w0)" "d \<in> set (delegations (db w0))" "others w0 w"
  shows "swept_one endedRow (published (jobPub e c) [expiredPayload EndReasonExpired d]) d (db w) (db (snd (Expiry_step e c d (res, w))))
    \<and> swept_one activatedRow (published (jobPub e c) [activatedPayload d]) d (db w) (db (snd (Activation_step e c d (res, w))))"
  using Expiry_step_stale [OF assms(1,4,2,3) prod.collapse [symmetric]]
    Activation_step_stale [OF assms(1,4,2,3) prod.collapse [symmetric]] by blast

theorem sweep_among_others_witness:
  "\<exists>w. others (demo_rows [demo_expired]) w \<and> map d_Status (delegations (db w)) = [DelegationCancelled]
     \<and> db (snd (Expiry_step demo_env demo_ctx demo_expired (zeroResult, w))) = db w"
proof -
  let ?run = "NewRouter demo_env (demo_gin ''1'' []) R_Cancel demo_cancel (demo_rows [demo_expired])"
  obtain r w where run: "?run = (r, w)" by (rule prod.exhaust)
  have "map d_Status (delegations (db (snd ?run))) = [DelegationCancelled]" by code_simp
  with run have st: "map d_Status (delegations (db w)) = [DelegationCancelled]" by simp
  from run have "sys_run demo_deployment [ARequest R_Cancel demo_cancel] (demo_rows [demo_expired]) w"
    by (auto intro!: sys_run.intros sys_step.intros)
  then have o: "others (demo_rows [demo_expired]) w" by (rule others_run) simp
  have "demo_expired \<notin> set (delegations (db w))" using st by (auto simp: demo_expired_def)
  with sweep_among_others [OF demo_ctx_simps(1) demo_inv(3) _ o, of demo_expired demo_env zeroResult] o st
  show ?thesis by (auto simp: swept_one_def)
qed

section \<open>What the operators see\<close>

text \<open>
  C31: on a registerer that refuses nothing but a name it already has, and that has none of the service's names, registration
  succeeds without a panic. From then on no call of any of the nineteen recording methods panics, in any order and with any label values
  (UTF-8, which Prometheus requires; the gauges replaced from a map, so under distinct tenants); every counter is exactly the number of calls that stand for it, every
  histogram exactly the times observed in it, in order, and the gauge exactly the counts it was last replaced with. The pairs
  kept under an old and a new name always agree: processed and failed messages, errors and latencies of dependencies.
\<close>

theorem every_recorder_counts:
  assumes "\<And>f r. op_Name (fa_Opts f) \<notin> names r
      \<Longrightarrow> \<exists>r'. register f r = (None, r') \<and> names r' = insert (op_Name (fa_Opts f)) (names r)"
    and "\<forall>f \<in> set (families env gin). op_Name (fa_Opts f) \<notin> names reg"
    and "\<forall>counts. CallReplaceActiveGauges counts \<in> set calls \<longrightarrow> distinct (map fst counts)"
  shows "\<exists>m reg' m'. registerOn register env gin reg = (Registered m, reg') \<and> all_do (map perform calls) m = Some m'
    \<and> (\<forall>i vs. counted m' i vs = increments (concat (map acts calls)) i vs
         \<and> observed m' i vs = timesSeen (concat (map acts calls)) i vs)
    \<and> (\<forall>vs. m' activeGauge vs = (case vs of [t] \<Rightarrow> map_option Level (map_of (lastCounts calls) t) | _ \<Rightarrow> None))
    \<and> counted m' platformMessagesProcessedTotal [''delegation-cascade-q''] = counted m' cascadeProcessedTotal []
    \<and> counted m' platformMessagesFailedTotal [''delegation-cascade-q''] = counted m' cascadeDLQTotal []
    \<and> counted m' platformDependencyErrorsTotal = counted m' dependencyCallFailuresTotal
    \<and> observed m' platformDependencyRequestSeconds = observed m' dependencyCallDurationSeconds"
proof -
  obtain reg' where "registerAll register (families env gin) reg = (None, reg')"
    using registerAll_ok [of names register, OF assms(1) family_names_distinct assms(2)] by blast
  then have "registerOn register env gin reg = (Registered initialMetrics, reg')" by (simp add: registerOn_eq)
  moreover from recorders_ok [OF assms(3)] obtain m' where "all_do (map perform calls) initialMetrics = Some m'"
    "\<forall>i vs. counted m' i vs = increments (concat (map acts calls)) i vs
         \<and> observed m' i vs = timesSeen (concat (map acts calls)) i vs" "m' activeGauge = gaugeOf (lastCounts calls)"
    by blast
  ultimately show ?thesis
    by (intro exI [of _ initialMetrics] exI [of _ reg'] exI [of _ m'])
      (simp add: increments_concat timesSeen_concat dual_series gaugeOf_def fun_eq_iff)
qed

theorem every_recorder_counts_witness:
  "\<exists>m reg' m'. registerOn (\<lambda>f r. (if op_Name (fa_Opts f) \<in> set r then Some (plainError ''duplicate'') else None, op_Name (fa_Opts f) # r)) ''prod'' [] []
       = (Registered m, reg')
     \<and> all_do (map perform [CallCascadeProcessed, CallReplaceActiveGauges [(''t1'', 3)], CallDependencyError ''user_profile'' ''get_availability'' ''5xx'',
          CallMembershipCheckDuration 7, CallCascadeProcessed]) m = Some m'
     \<and> counted m' cascadeProcessedTotal [] = 2 \<and> observed m' membershipCheckDuration [] = [7] \<and> m' activeGauge [''t1''] = Some (Level 3)"
proof -
  let ?register = "\<lambda>f r. (if op_Name (fa_Opts f) \<in> set r then Some (plainError ''duplicate'') else None, op_Name (fa_Opts f) # r)"
  let ?calls = "[CallCascadeProcessed, CallReplaceActiveGauges [(''t1'', 3)], CallDependencyError ''user_profile'' ''get_availability'' ''5xx'',
          CallMembershipCheckDuration 7, CallCascadeProcessed]"
  have ok: "\<And>f r. op_Name (fa_Opts f) \<notin> set r
      \<Longrightarrow> \<exists>r'. ?register f r = (None, r') \<and> set r' = insert (op_Name (fa_Opts f)) (set r)" by simp
  obtain m reg' m' where "registerOn ?register ''prod'' [] [] = (Registered m, reg')" "all_do (map perform ?calls) m = Some m'"
    "\<forall>i vs. counted m' i vs = increments (concat (map acts ?calls)) i vs \<and> observed m' i vs = timesSeen (concat (map acts ?calls)) i vs"
    "\<forall>vs. m' activeGauge vs = (case vs of [t] \<Rightarrow> map_option Level (map_of (lastCounts ?calls) t) | _ \<Rightarrow> None)"
    using every_recorder_counts [where names = set and reg = "[]" and env = "''prod''" and gin = "[]" and calls = ?calls, OF ok] by auto
  then show ?thesis
    by (intro exI [of _ m] exI [of _ reg'] exI [of _ m']) (simp add: increments_def timesSeen_def lastCounts_def del: perform.simps)
qed

text \<open>
  C20: every delivery the consumer handles is counted as received exactly once and as at most one of processed, failed and
  duplicate; as processed only when it is acknowledged, as failed only when an error is returned, which makes the broker deliver it again.
\<close>

theorem delivery_counted:
  assumes "hasMetrics e" "CascadeConsumer_Handle e v c evp w = (r, w')" "kinded m"
  shows "\<exists>log m' processed failed duplicate. metric_log w' = metric_log w @ log \<and> replay log m = Some m'
    \<and> counted m' platformMessagesReceivedTotal [platformCascadeQueue] = Suc (counted m platformMessagesReceivedTotal [platformCascadeQueue])
    \<and> counted m' platformMessagesProcessedTotal [platformCascadeQueue] = counted m platformMessagesProcessedTotal [platformCascadeQueue] + processed
    \<and> counted m' platformMessagesFailedTotal [platformCascadeQueue] = counted m platformMessagesFailedTotal [platformCascadeQueue] + failed
    \<and> counted m' platformDuplicateMessagesTotal [platformCascadeQueue] = counted m platformDuplicateMessagesTotal [platformCascadeQueue] + duplicate
    \<and> processed + failed + duplicate \<le> 1 \<and> (processed + duplicate = 1 \<longrightarrow> r = Inr ()) \<and> (failed = 1 \<longrightarrow> isl r)"
proof -
  obtain xs where xs: "told r xs" "logged (MMessageReceived platformCascadeQueue # xs) w w'"
    by (rule Handle_telling [OF assms(1,2)])
  obtain log m' where "metric_log w' = metric_log w @ log" "replay log m = Some m'"
    "\<And>i vs. i \<in> trafficInstruments \<Longrightarrow> counted m' i vs = counted m i vs
       + length (filter (\<lambda>x. (i, vs) \<in> set (touches x)) (MMessageReceived platformCascadeQueue # xs))"
    by (rule traffic_counts [OF assms(3) xs(2)]) (rule that)
  with xs(1) show ?thesis
    by (intro exI [of _ log] exI [of _ m']) (auto simp: told_def trafficInstruments_def)
qed

theorem delivery_counted_witness:
  "\<exists>r w' log m'. CascadeConsumer_Handle demo_env None requestContext demo_revoked demo_world = (r, w')
     \<and> metric_log w' = log \<and> replay log initialMetrics = Some m' \<and> counted m' platformMessagesReceivedTotal [platformCascadeQueue] = 1"
proof -
  obtain r w' where run: "CascadeConsumer_Handle demo_env None requestContext demo_revoked demo_world = (r, w')" by (rule prod.exhaust)
  from delivery_counted [OF demo_env_simps(8) run initialMetrics_zero(1)] run show ?thesis
    by (auto simp: initialMetrics_zero(2) demo_world_def)
qed

text \<open>
  C32: after any number of ticks of the exporter, whatever happened between them, the active gauge has exactly one series
  per tenant with a live active delegation, at the number of those the table held at the last tick, and none for any
  other tenant; no other instrument was touched.
\<close>

theorem active_gauge_is_the_table:
  assumes "no_faults e" "\<And>c. distinct (order c) \<and> set (order c) = dom c" "inj (uuid_String e)"
  shows "\<exists>m' w'. runActiveGaugeExporter e order ticks w m = (Some m', w')
    \<and> (\<forall>T. m' activeGauge [uuid_String e T] = (if activeRows T (db w') = [] then None else Some (Level (int (length (activeRows T (db w')))))))
    \<and> (\<forall>vs. m' activeGauge vs \<noteq> None \<longrightarrow> (\<exists>T. vs = [uuid_String e T]))
    \<and> (\<forall>i. i \<noteq> activeGauge \<longrightarrow> m' i = m i)"
  using assms by (rule exporter_ok)

theorem active_gauge_is_the_table_witness:
  "\<exists>order m' w'. runActiveGaugeExporter demo_text_env order [\<lambda>_. demo_rows [demo_row]] demo_world initialMetrics = (Some m', w')
     \<and> m' activeGauge [uuid_String demo_text_env 10] = Some (Level 1)"
proof -
  define order :: "(uuid \<Rightarrow> nat option) \<Rightarrow> uuid list" where "order = (\<lambda>c. SOME xs. distinct xs \<and> set xs = dom c)"
  have law: "distinct (order c) \<and> set (order c) = dom c" for c
    unfolding order_def by (rule someI_ex) (metis finite_distinct_list finite)
  have "no_faults demo_text_env" by (simp add: demo_text_env_def no_faults_def demo_env_def)
  moreover have "inj (uuid_String demo_text_env)"
    by (auto simp: demo_text_env_def inj_def unsigned_word_eqI dest: arg_cong [of _ _ length])
  ultimately obtain m' w' where run: "runActiveGaugeExporter demo_text_env order [\<lambda>_. demo_rows [demo_row]] demo_world initialMetrics = (Some m', w')"
    and g: "\<forall>T. m' activeGauge [uuid_String demo_text_env T]
      = (if activeRows T (db w') = [] then None else Some (Level (int (length (activeRows T (db w'))))))"
    using active_gauge_is_the_table [of demo_text_env order, OF _ law] by metis
  from run have "db w' = db (demo_rows [demo_row])"
    by (auto split: prod.splits option.splits dest: emitActiveGauge_db)
  then have "activeRows 10 (db w') = [demo_row]" by (simp add: activeRows_def)
  with g have "m' activeGauge [uuid_String demo_text_env 10] = Some (Level 1)" by simp
  with run show ?thesis by blast
qed

section \<open>The life of the server process\<close>

text \<open>
  C16: a run of the server acquires its resources in one fixed order (signals, tracing, metrics, the
  outbox schema before the domain migration, both before the first pool, the app pool before the
  system pool, the cache last), and whatever stops it, it undoes exactly what it had done, the latest
  first: every resource acquired is released, in the opposite order. Either it stops on the way up, with an error and
  without serving; or it served, its servers, the outbox runner and the consumer were closed once each
  in their order, every worker returned before the first resource went, and it exits with the first
  error a worker returned. The hypothesis on the prune interval excludes a crash the code does not guard against.
\<close>

theorem server_lifecycle:
  assumes "server_run b env exit tr"
    and "\<And>cfg. loadConfig (bt_pd b) env = Inr cfg \<Longrightarrow> 0 < sint (cf_OutboxPruneInterval cfg)"
  shows "\<exists>n start served. tr = start @ served @ undo start \<and> n \<le> 8 \<and> map stage start = [0..<n]
    \<and> released (undo start) = rev (acquired start)
    \<and> (served = [] \<and> exit \<noteq> Finished None
       \<or> n = 8 \<and> filter (\<lambda>x. x \<in> set closings) served = closings \<and> (\<forall>k. \<exists>r. WorkerReturned k r \<in> set served)
         \<and> exit = Finished (firstError served))"
proof -
  obtain n start served where life: "tr = start @ served @ undo start" "map stage start = [0..<n]" "n \<le> 8"
    "served = [] \<and> exit \<noteq> Finished None
     \<or> n = 8 \<and> filter (\<lambda>x. x \<in> set closings) served = closings \<and> (\<forall>k. \<exists>r. WorkerReturned k r \<in> set served)
       \<and> exit = Finished (firstError served)"
    by (rule server_run_life [OF assms])
  from released_undo [OF life(2,3)] life show ?thesis by metis
qed

theorem server_lifecycle_witness:
  "\<exists>exit tr start served. server_run demo_boot demo_vars exit tr \<and> tr = start @ served @ undo start
     \<and> released (undo start) = rev (acquired start)"
proof -
  obtain exit tr where run: "server_run demo_boot demo_vars exit tr" by (rule demo_runs)
  obtain cfg where cfg: "loadConfig (bt_pd demo_boot) demo_vars = Inr cfg" "cf_OutboxPruneInterval cfg = 86400000000000"
    by (rule demo_config)
  have "0 < sint (cf_OutboxPruneInterval c)" if "loadConfig (bt_pd demo_boot) demo_vars = Inr c" for c
    using that cfg by simp
  from server_lifecycle [OF run this] run show ?thesis by metis
qed

text \<open>
  C17: the worker group cannot run forever, and once it is cancelled (by a signal or by the first
  worker that fails, in any state the group can reach) it is never stuck: every state in which no step is left is one where every worker has
  returned, the HTTP and metrics servers, the outbox runner and the consumer having been closed in this order.
\<close>

theorem shutdown_completes:
  assumes "group_steps newGroup g" "gr_cancelled g"
  shows "\<not> (\<exists>f. f 0 = g \<and> (\<forall>i. group_step (f i) (f (Suc i))))
    \<and> (\<forall>g'. group_steps g g' \<and> (\<forall>h. \<not> group_step g' h)
         \<longrightarrow> allReturned g' \<and> filter (\<lambda>x. x \<in> set closings) (gr_log g') = closings)"
proof (intro conjI allI impI)
  show "\<not> (\<exists>f. f 0 = g \<and> (\<forall>i. group_step (f i) (f (Suc i))))" using no_infinite_run by blast
next
  fix g' assume g': "group_steps g g' \<and> (\<forall>h. \<not> group_step g' h)"
  with assms(1) have inv: "group_inv g'" by (meson group_steps_inv rtranclp_trans)
  moreover from g' assms(2) have "gr_cancelled g'" by (blast intro: cancelled_stays)
  ultimately show all: "allReturned g'" using group_progress g' by blast
  from inv all show "filter (\<lambda>x. x \<in> set closings) (gr_log g') = closings" by (auto simp: group_inv_def allReturned_def)
qed

theorem shutdown_completes_witness:
  "\<exists>g. group_steps newGroup g \<and> gr_cancelled g \<and> gr_err g = Some (StartFailed ''http server'' (plainError ''address in use''))
     \<and> (\<forall>g'. group_steps g g' \<and> (\<forall>h. \<not> group_step g' h) \<longrightarrow> allReturned g')"
proof -
  let ?g = "returned HTTPListener (Some (StartFailed ''http server'' (plainError ''address in use''))) newGroup"
  have "group_step newGroup ?g"
    using listener_fails [of HTTPListener newGroup "plainError ''address in use''"] by (simp add: newGroup_def)
  then have g: "group_steps newGroup ?g" by simp
  have "gr_cancelled ?g" "gr_err ?g = Some (StartFailed ''http server'' (plainError ''address in use''))"
    by (simp_all add: newGroup_def)
  with shutdown_completes [OF g] g show ?thesis by blast
qed

text \<open>
  C37: a server that got to start its workers loaded its configuration; has applied the outbox
  schema, then the domain migration, both over the direct connection and before it opened a pool, the pools over their own
  connections; has a compiled schema for the type of every event the service can publish and consumes from
  the configured, non-empty cascade queue; checks departments against the catalogue exactly
  when its address is configured; and, when a schema registry is named, has pinned for every such event type a version
  the registry answered as available for the embedded definition, so that encoding an event asks the registry nothing more.
\<close>

theorem server_starts_ready:
  assumes "server_start b env newProc = (Inr sv, p)"
  shows "loadConfig (bt_pd b) env = Inr (sv_config sv) \<and> pr_trace p = startTrace b env (sv_config sv)
    \<and> (\<forall>d. sv_published sv (eventType d) \<noteq> None)
    \<and> sq_QueueURL (sv_sqs sv) = env ''CASCADE_QUEUE_URL'' \<and> env ''CASCADE_QUEUE_URL'' \<noteq> ''''
    \<and> (sv_catalogAdmin sv = None \<longleftrightarrow> env ''CATALOG_ADMIN_BASE_URL'' = '''')
    \<and> (env ''GLUE_REGISTRY_NAME'' \<noteq> '''' \<longrightarrow>
         (\<exists>gc. sv_glue sv = Some gc
            \<and> (\<forall>d. \<exists>vid. gl_versionCache gc (eventType d) = Some vid \<and> registered (bt_glue b) gc (eventType d) vid)
            \<and> (\<forall>e d payload r gc'. GlueCodec_Encode e (bt_glue b) (eventType d) payload gc = (r, gc') \<longrightarrow> gc' = gc)))"
proof -
  note s = server_started [OF assms]
  have names: "cf_CascadeQueueURL (sv_config sv) = env ''CASCADE_QUEUE_URL''" "env ''CASCADE_QUEUE_URL'' \<noteq> ''''"
    "cf_CatalogAdminBaseURL (sv_config sv) = env ''CATALOG_ADMIN_BASE_URL''" "cf_GlueRegistryName (sv_config sv) = env ''GLUE_REGISTRY_NAME''"
    by (rule loadConfig_names [OF s(1)])+
  have "sv_published sv (eventType d) \<noteq> None" for d unfolding s(3) by (rule published_compiled)
  moreover have "\<exists>gc. sv_glue sv = Some gc
      \<and> (\<forall>d. \<exists>vid. gl_versionCache gc (eventType d) = Some vid \<and> registered (bt_glue b) gc (eventType d) vid)
      \<and> (\<forall>e d payload r gc'. GlueCodec_Encode e (bt_glue b) (eventType d) payload gc = (r, gc') \<longrightarrow> gc' = gc)"
    if "env ''GLUE_REGISTRY_NAME'' \<noteq> ''''"
  proof -
    from s(5) that names(4) obtain gc where gc: "sv_glue sv = Some gc"
      "NewGlueCodec (bt_glue b) (cf_GlueRegistryName (sv_config sv)) (bt_definitions b) publishedEvents = Inr gc"
      by (auto simp: res_iff)
    from NewGlueCodec_ok [OF gc(2)] published_types have pin: "pinned (bt_glue b) gc" "\<And>d. gl_versionCache gc (eventType d) \<noteq> None" by auto
    have "\<exists>vid. gl_versionCache gc (eventType d) = Some vid \<and> registered (bt_glue b) gc (eventType d) vid" for d
      using pin by (metis option.exhaust pinned_def)
    with gc(1) show ?thesis using Encode_pinned(2) [OF pin(1)] pin(2) by metis
  qed
  moreover have "sv_catalogAdmin sv = None \<longleftrightarrow> env ''CATALOG_ADMIN_BASE_URL'' = ''''"
    using s(6) names(3) by (auto simp: res_iff split: if_splits)
  ultimately show ?thesis using s(1,2,7) names by simp
qed

theorem server_starts_ready_witness:
  "\<exists>sv p gc. server_start demo_boot demo_vars newProc = (Inr sv, p) \<and> pr_trace p = startTrace demo_boot demo_vars (sv_config sv)
     \<and> sv_glue sv = Some gc \<and> gl_versionCache gc ''DelegationEnded'' \<noteq> None"
proof -
  obtain sv p where run: "server_start demo_boot demo_vars newProc = (Inr sv, p)" by (rule demo_starts)
  have named: "demo_vars ''GLUE_REGISTRY_NAME'' \<noteq> ''''" by (simp add: demo_vars_def)
  from server_starts_ready [OF run] named obtain gc where "sv_glue sv = Some gc"
    "\<forall>d. \<exists>vid. gl_versionCache gc (eventType d) = Some vid \<and> registered (bt_glue demo_boot) gc (eventType d) vid"
    "pr_trace p = startTrace demo_boot demo_vars (sv_config sv)" by blast
  moreover from this(2) have "gl_versionCache gc ''DelegationEnded'' \<noteq> None" by (metis eventType.simps(2) option.distinct(1))
  ultimately show ?thesis using run by blast
qed

section \<open>The event catalogue page\<close>

text \<open>
  C39: rendering a page sorts the declared property order of a component in place, in the specification that all requests
  share. Whatever the first request that returns has left behind, from then on the specification no longer
  changes and every page depends on the request's environment label alone. Each table of a well-formed specification
  names every property of its schema exactly once, the required ones first, in the declared order otherwise.
\<close>

theorem docs_pages_settle:
  assumes "AsyncAPIHandler n st parsed env cache = Some (r, cache')"
  shows "(\<exists>reply. \<forall>envs. handlePages n st parsed envs cache' = Some (map reply envs, cache'))
    \<and> (\<forall>s m here sc own rs. cache' = Some (Inr s) \<and> (\<forall>(k, x) \<in> set (co_Schemas (sp_Comps s)). wfSchema x) \<and> wfSchema sc
         \<and> resolveSchema m (co_Schemas (sp_Comps s)) here sc = Some (rs, own)
       \<longrightarrow> distinct (rowKeys rs) \<and> set (rowKeys rs) = fst ` set (as_Properties rs)
         \<and> rowKeys rs = filter (\<lambda>k. k \<in> set (as_Required rs)) (declaredKeys rs) @ filter (\<lambda>k. k \<notin> set (as_Required rs)) (declaredKeys rs))"
proof (intro conjI allI impI)
  show "\<exists>reply. \<forall>envs. handlePages n st parsed envs cache' = Some (map reply envs, cache')" by (rule handler_settles [OF assms])
next
  fix s m here sc own rs
  assume "cache' = Some (Inr s) \<and> (\<forall>(k, x) \<in> set (co_Schemas (sp_Comps s)). wfSchema x) \<and> wfSchema sc
    \<and> resolveSchema m (co_Schemas (sp_Comps s)) here sc = Some (rs, own)"
  then have "orderOK rs" using resolve_orderOK by blast
  then show "distinct (rowKeys rs)" "set (rowKeys rs) = fst ` set (as_Properties rs)" by (rule rows_complete)+
  show "rowKeys rs = filter (\<lambda>k. k \<in> set (as_Required rs)) (declaredKeys rs) @ filter (\<lambda>k. k \<notin> set (as_Required rs)) (declaredKeys rs)"
    unfolding rowKeys_def by (rule requiredFirst_filter)
qed

theorem docs_pages_settle_witness:
  "\<forall>st env. \<exists>r s reply. AsyncAPIHandler 9 st (Inr driftSpec) env None = Some (r, Some (Inr s)) \<and> rowsOf ''A'' s \<noteq> rowsOf ''A'' driftSpec
     \<and> handlePages 9 st (Inr driftSpec) [''dev'', ''prod''] (Some (Inr s)) = Some ([reply ''dev'', reply ''prod''], Some (Inr s))"
proof (intro allI)
  fix st env
  obtain out s where s: "renderPage 9 st driftSpec env = Some (out, s)" "rowsOf ''A'' driftSpec = Some [''a'', ''b'']"
    "rowsOf ''A'' s = Some [''b'', ''a'']" using drift by blast
  then have run: "AsyncAPIHandler 9 st (Inr driftSpec) env None = Some (DocsPageHTML (concat (map pieceText out)), Some (Inr s))"
    by (simp add: AsyncAPIHandler_def loadAsyncSpec_def)
  from docs_pages_settle [OF run] obtain reply where
    "\<forall>envs. handlePages 9 st (Inr driftSpec) envs (Some (Inr s)) = Some (map reply envs, Some (Inr s))" by blast
  from this [THEN spec, of "[''dev'', ''prod'']"] run s(2,3)
  show "\<exists>r s reply. AsyncAPIHandler 9 st (Inr driftSpec) env None = Some (r, Some (Inr s)) \<and> rowsOf ''A'' s \<noteq> rowsOf ''A'' driftSpec
     \<and> handlePages 9 st (Inr driftSpec) [''dev'', ''prod''] (Some (Inr s)) = Some ([reply ''dev'', reply ''prod''], Some (Inr s))" by auto
qed

text \<open>
  C40: resolving a schema returns exactly when no chain of its sub-schemas and references goes on
  forever; then the depth of the recursion bounds the fuel, and more fuel changes nothing. A schema that refers to
  itself is never resolved, so the request for the page does not return.
\<close>

theorem docs_resolution_returns:
  "((\<exists>n x. resolveSchema n schemas here sc = Some x) = Wellfounded.accp (refersTo schemas) sc)
   \<and> (\<nexists>n m x y. resolveSchema n schemas here sc = Some x \<and> resolveSchema m schemas here sc = Some y \<and> x \<noteq> y)
   \<and> (\<forall>n. resolveSchema n [(''A'', selfRef)] here selfRef = None)"
proof (intro conjI allI)
  show "(\<exists>n x. resolveSchema n schemas here sc = Some x) = Wellfounded.accp (refersTo schemas) sc"
    using resolve_returns_acc acc_resolve_returns by blast
  show "\<nexists>n m x y. resolveSchema n schemas here sc = Some x \<and> resolveSchema m schemas here sc = Some y \<and> x \<noteq> y"
    using resolve_mono [of _ schemas here sc] by (metis nle_le option.inject)
qed (rule selfRef_never_returns)

end
